(* ===== verification/Go_Prelude.thy ===== *)
theory Go_Prelude
  imports Main "HOL-Library.AList" "HOL-Library.List_Lexorder" "HOL-Library.Char_ord"
    "HOL-Library.Sublist" "HOL-Library.Code_Target_Nat"
begin

text \<open>
  The shared vocabulary of the development. Go values are modelled as follows.

  \<^item> A call that returns \<open>(value, error)\<close> is a sum: \<open>Inl\<close> carries the error, \<open>Inr\<close> the value.
  \<^item> A Go map is an association list with distinct keys. The list order stands for one of the
    iteration orders the language allows, so a statement that holds for every such list holds for
    every iteration order. Assignment and \<open>delete\<close> are \<open>AList.update\<close> and \<open>AList.delete\<close>,
    a lookup is \<open>map_of\<close>.
  \<^item> A Go string is its bytes, a list of \<open>char\<close>; \<open>sort.Strings\<close> and \<open><\<close> on strings compare
    bytes, which is the lexicographic order of \<open>HOL-Library.List_Lexorder\<close>.
  \<^item> \<open>int64\<close> arithmetic that can wrap goes through \<open>wrap64\<close>.
\<close>

named_theorems gosimps \<open>unfolding facts shared by the component proofs\<close>

type_synonym ('k, 'v) gomap = "('k \<times> 'v) list"

section \<open>Results\<close>

fun rbind :: "'e + 'a \<Rightarrow> ('a \<Rightarrow> 'e + 'b) \<Rightarrow> 'e + 'b" where
  "rbind (Inl e) f = Inl e"
| "rbind (Inr x) f = f x"

fun is_ok :: "'e + 'a \<Rightarrow> bool" where
  "is_ok (Inl e) = False"
| "is_ok (Inr x) = True"

fun err_map :: "('e \<Rightarrow> 'f) \<Rightarrow> 'e + 'a \<Rightarrow> 'f + 'a" where
  "err_map f (Inl e) = Inl (f e)"
| "err_map f (Inr x) = Inr x"

lemma rbind_eq_Inr: "rbind r f = Inr y \<longleftrightarrow> (\<exists>x. r = Inr x \<and> f x = Inr y)"
  by (cases r) auto

lemma rbind_InrE [elim!]:
  assumes "rbind r f = Inr y"
  obtains x where "r = Inr x" "f x = Inr y"
  using assms by (cases r) auto

lemma rbind_eq_Inl: "rbind r f = Inl e \<longleftrightarrow> r = Inl e \<or> (\<exists>x. r = Inr x \<and> f x = Inl e)"
  by (cases r) auto

lemma err_map_eq_Inr [simp]: "err_map f r = Inr y \<longleftrightarrow> r = Inr y"
  by (cases r) auto

lemma is_ok_iff: "is_ok r \<longleftrightarrow> (\<exists>x. r = Inr x)"
  by (cases r) auto

text \<open>A loop over a slice that returns at the first error and threads an accumulator otherwise.\<close>

fun foldr_err :: "('s \<Rightarrow> 'x \<Rightarrow> 'e + 's) \<Rightarrow> 's \<Rightarrow> 'x list \<Rightarrow> 'e + 's" where
  "foldr_err f s [] = Inr s"
| "foldr_err f s (x # xs) = rbind (f s x) (\<lambda>s'. foldr_err f s' xs)"

lemma foldr_err_append:
  "foldr_err f s (xs @ ys) = rbind (foldr_err f s xs) (\<lambda>s'. foldr_err f s' ys)"
proof (induction xs arbitrary: s)
  case (Cons x xs)
  then show ?case by (cases "f s x") auto
qed simp

lemma foldr_err_invariant:
  assumes "foldr_err f s xs = Inr t" and "P s"
    and "\<And>s x s'. x \<in> set xs \<Longrightarrow> P s \<Longrightarrow> f s x = Inr s' \<Longrightarrow> P s'"
  shows "P t"
  using assms
proof (induction xs arbitrary: s)
  case (Cons x xs)
  from Cons.prems(1) obtain s' where s': "f s x = Inr s'" "foldr_err f s' xs = Inr t"
    by (auto simp: rbind_eq_Inr)
  moreover have "P s'" using Cons.prems(2,3) s'(1) by auto
  ultimately show ?case using Cons.IH Cons.prems(3) by (meson list.set_intros(2))
qed simp

lemma foldr_err_concat:
  "foldr_err (\<lambda>s x. foldr_err f s (g x)) s xs = foldr_err f s (concat (map g xs))"
  by (induction xs arbitrary: s) (simp_all add: foldr_err_append)

lemma foldr_err_filter:
  assumes "\<And>s x. x \<in> set xs \<Longrightarrow> P x \<Longrightarrow> f s x = err_map m (g s (h x))"
    and "\<And>s x. x \<in> set xs \<Longrightarrow> \<not> P x \<Longrightarrow> f s x = Inr s"
  shows "foldr_err f s xs = err_map m (foldr_err g s (map h (filter P xs)))"
  using assms
proof (induction xs arbitrary: s)
  case (Cons x xs)
  then show ?case by (cases "P x"; cases "g s (h x)") auto
qed simp

text \<open>
  Checks that return an error or nil (\<open>None\<close>): two in sequence, and a loop that returns the first
  error.
\<close>

definition first_err :: "'e option \<Rightarrow> 'e option \<Rightarrow> 'e option" where
  "first_err a b = (case a of None \<Rightarrow> b | Some e \<Rightarrow> Some e)"

fun check_all :: "('x \<Rightarrow> 'e option) \<Rightarrow> 'x list \<Rightarrow> 'e option" where
  "check_all f [] = None"
| "check_all f (x # xs) = first_err (f x) (check_all f xs)"

lemma check_all_cong [fundef_cong]:
  "xs = ys \<Longrightarrow> (\<And>x. x \<in> set ys \<Longrightarrow> f x = g x) \<Longrightarrow> check_all f xs = check_all g ys"
  by (induction ys arbitrary: xs) auto

lemma first_err_None [simp]: "first_err a b = None \<longleftrightarrow> a = None \<and> b = None"
  by (auto simp: first_err_def split: option.splits)

lemma first_err_Some: "first_err a b = Some e \<longleftrightarrow> a = Some e \<or> a = None \<and> b = Some e"
  by (auto simp: first_err_def split: option.splits)

lemma first_err_unit [simp]: "first_err None b = b" "first_err (Some e) b = Some e"
  by (simp_all add: first_err_def)

lemma check_all_None [simp]: "check_all f xs = None \<longleftrightarrow> (\<forall>x \<in> set xs. f x = None)"
  by (induction xs) auto

lemma check_all_SomeD: "check_all f xs = Some e \<Longrightarrow> \<exists>x \<in> set xs. f x = Some e"
  by (induction xs) (auto simp: first_err_Some)

section \<open>Maps\<close>

abbreviation mput :: "'k \<Rightarrow> 'v \<Rightarrow> ('k, 'v) gomap \<Rightarrow> ('k, 'v) gomap" where
  "mput \<equiv> AList.update"

abbreviation mdel :: "'k \<Rightarrow> ('k, 'v) gomap \<Rightarrow> ('k, 'v) gomap" where
  "mdel \<equiv> AList.delete"

abbreviation gomap_ok :: "('k, 'v) gomap \<Rightarrow> bool" where
  "gomap_ok m \<equiv> distinct (map fst m)"

text \<open>The zero value on a miss, as indexing a Go map with one result gives it.\<close>

definition mget :: "'v \<Rightarrow> ('k, 'v) gomap \<Rightarrow> 'k \<Rightarrow> 'v" where
  "mget d m k = (case map_of m k of None \<Rightarrow> d | Some v \<Rightarrow> v)"

lemma map_of_mput [simp]: "map_of (mput k v m) = (map_of m)(k \<mapsto> v)"
  by (rule update_conv')

lemma map_of_mdel [simp]: "map_of (mdel k m) = (map_of m)(k := None)"
  by (rule delete_conv')

lemma gomap_ok_mput [simp]: "gomap_ok m \<Longrightarrow> gomap_ok (mput k v m)"
  by (rule distinct_update)

lemma gomap_ok_mdel [simp]: "gomap_ok m \<Longrightarrow> gomap_ok (mdel k m)"
  by (rule distinct_delete)

lemma mput_fresh: "k \<notin> fst ` set m \<Longrightarrow> mput k v m = m @ [(k, v)]"
  by (induction m) auto

text \<open>Copying a map entry by entry is the identity.\<close>

lemma fold_mput_id:
  assumes "gomap_ok m"
  shows "fold (\<lambda>(k, v). mput k v) m [] = m"
proof -
  have "gomap_ok (acc @ m) \<Longrightarrow> fold (\<lambda>(k, v). mput k v) m acc = acc @ m" for acc
  proof (induction m arbitrary: acc)
    case (Cons x m)
    obtain k v where x: "x = (k, v)" by force
    have "mput k v acc = acc @ [(k, v)]"
      using Cons.prems x by (intro mput_fresh) auto
    with Cons x show ?case by simp
  qed simp
  from this[of "[]"] assms show ?thesis by simp
qed

lemma mget_mput: "mget d (mput k v m) j = (if j = k then v else mget d m j)"
  by (simp add: mget_def)

section \<open>Machine integers\<close>

definition max_int64 :: int where
  "max_int64 = 2 ^ 63 - 1"

definition wrap64 :: "int \<Rightarrow> int" where
  "wrap64 x = (x + 2 ^ 63) mod 2 ^ 64 - 2 ^ 63"

lemma wrap64_id: "- (2 ^ 63) \<le> x \<Longrightarrow> x \<le> max_int64 \<Longrightarrow> wrap64 x = x"
  by (simp add: wrap64_def max_int64_def)

section \<open>Ordered lists\<close>

lemma sort_key_stable_id: "sorted (map f xs) \<Longrightarrow> sort_key f xs = xs"
  by (rule sort_key_id_if_sorted)

lemma sorted_snoc: "sorted (xs @ [x]) \<longleftrightarrow> sorted xs \<and> (\<forall>y \<in> set xs. y \<le> x)"
  by (auto simp: sorted_append)

end
