(* ===== verification/Go_Text.thy ===== *)
theory Go_Text
  imports Go_Prelude
begin

text \<open>
  What the code uses of Go's \<open>strings\<close>, \<open>unicode\<close>, \<open>unicode/utf8\<close>, \<open>encoding/hex\<close> and
  \<open>strconv\<close>: decoding a byte string into runes, trimming white space, case folding, substring
  search, splitting and decimal numerals.
\<close>

section \<open>Runes\<close>

text \<open>
  \<open>utf8.DecodeRune\<close>: the rune at the head of a byte list and the number of bytes it takes. An
  ill-formed sequence gives U+FFFD and width 1.
\<close>

definition rune_error :: nat where
  "rune_error = 65533"

definition cont_byte :: "nat \<Rightarrow> bool" where
  "cont_byte b \<longleftrightarrow> 128 \<le> b \<and> b \<le> 191"

definition second_byte_ok :: "nat \<Rightarrow> nat \<Rightarrow> bool" where
  "second_byte_ok b0 b1 \<longleftrightarrow>
     (if b0 = 224 then 160 \<le> b1 \<and> b1 \<le> 191
      else if b0 = 237 then 128 \<le> b1 \<and> b1 \<le> 159
      else if b0 = 240 then 144 \<le> b1 \<and> b1 \<le> 191
      else if b0 = 244 then 128 \<le> b1 \<and> b1 \<le> 143
      else cont_byte b1)"

fun decode_rune :: "nat list \<Rightarrow> nat \<times> nat" where
  "decode_rune [] = (rune_error, 0)"
| "decode_rune (b0 # bs) =
     (if b0 < 128 then (b0, 1)
      else if 194 \<le> b0 \<and> b0 \<le> 223 then
        (case bs of
           b1 # _ \<Rightarrow> if cont_byte b1 then ((b0 - 192) * 64 + (b1 - 128), 2) else (rune_error, 1)
         | [] \<Rightarrow> (rune_error, 1))
      else if 224 \<le> b0 \<and> b0 \<le> 239 then
        (case bs of
           b1 # b2 # _ \<Rightarrow>
             if second_byte_ok b0 b1 \<and> cont_byte b2
             then ((b0 - 224) * 4096 + (b1 - 128) * 64 + (b2 - 128), 3) else (rune_error, 1)
         | _ \<Rightarrow> (rune_error, 1))
      else if 240 \<le> b0 \<and> b0 \<le> 244 then
        (case bs of
           b1 # b2 # b3 # _ \<Rightarrow>
             if second_byte_ok b0 b1 \<and> cont_byte b2 \<and> cont_byte b3
             then ((b0 - 240) * 262144 + (b1 - 128) * 4096 + (b2 - 128) * 64 + (b3 - 128), 4)
             else (rune_error, 1)
         | _ \<Rightarrow> (rune_error, 1))
      else (rune_error, 1))"

text \<open>The runes of a string, each with the bytes it was decoded from.\<close>

definition head_rune :: "string \<Rightarrow> nat \<times> nat" where
  "head_rune s = (let (r, w) = decode_rune (map of_char (take 4 s)) in (r, max 1 w))"

lemma head_rune_pos: "0 < snd (head_rune s)"
  by (simp add: head_rune_def split_beta)

function runes :: "string \<Rightarrow> (nat \<times> string) list" where
  "runes [] = []"
| "runes (c # cs) =
     (fst (head_rune (c # cs)), take (snd (head_rune (c # cs))) (c # cs))
       # runes (drop (snd (head_rune (c # cs))) (c # cs))"
  by pat_completeness auto
termination
  by (relation "measure length") (auto simp: head_rune_pos)

declare runes.simps(2) [simp del]

lemma concat_runes: "concat (map snd (runes s)) = s"
  by (induction s rule: runes.induct) (simp_all add: runes.simps(2) del: drop_Suc_Cons take_Suc_Cons)

lemma length_runes_le: "length (runes s) \<le> length s"
proof (induction s rule: runes.induct)
  case (2 c cs)
  then show ?case
    using head_rune_pos[of "c # cs"] by (simp add: runes.simps(2))
qed simp

text \<open>\<open>utf8.RuneCountInString\<close> and \<open>len([]rune(s))\<close>.\<close>

definition rune_count :: "string \<Rightarrow> nat" where
  "rune_count s = length (runes s)"

text \<open>\<open>utf8.ValidString\<close>: no ill-formed sequence; U+FFFD itself takes three bytes.\<close>

definition valid_utf8 :: "string \<Rightarrow> bool" where
  "valid_utf8 s = list_all (\<lambda>(r, bs). \<not> (r = rune_error \<and> length bs = 1)) (runes s)"

text \<open>What \<open>encoding/json\<close> makes of an ill-formed string: every bad byte becomes U+FFFD.\<close>

definition to_valid_utf8 :: "string \<Rightarrow> string" where
  "to_valid_utf8 s =
     concat (map (\<lambda>(r, bs). if r = rune_error \<and> length bs = 1
                            then [char_of (239::nat), char_of (191::nat), char_of (189::nat)] else bs) (runes s))"

lemma to_valid_utf8_id: "valid_utf8 s \<Longrightarrow> to_valid_utf8 s = s"
proof -
  assume "valid_utf8 s"
  then have "map (\<lambda>(r, bs). if r = rune_error \<and> length bs = 1
      then [char_of (239::nat), char_of (191::nat), char_of (189::nat)] else bs) (runes s) = map snd (runes s)"
    by (intro map_cong refl) (auto simp: valid_utf8_def list_all_iff)
  then show ?thesis by (simp only: to_valid_utf8_def concat_runes)
qed

section \<open>White space, control characters and case\<close>

text \<open>\<open>unicode.IsSpace\<close>.\<close>

definition is_space :: "nat \<Rightarrow> bool" where
  "is_space r \<longleftrightarrow> (9 \<le> r \<and> r \<le> 13) \<or> r = 32 \<or> r = 133 \<or> r = 160 \<or> r = 5760
     \<or> (8192 \<le> r \<and> r \<le> 8202) \<or> r = 8232 \<or> r = 8233 \<or> r = 8239 \<or> r = 8287 \<or> r = 12288"

text \<open>
  \<open>strings.TrimSpace\<close>. UTF-8 is self-synchronising, so trimming the decoded runes at both ends
  is what the library's byte-wise scans do.
\<close>

definition trim_space :: "string \<Rightarrow> string" where
  "trim_space s =
     concat (map snd (rev (dropWhile (is_space \<circ> fst)
       (rev (dropWhile (is_space \<circ> fst) (runes s))))))"

abbreviation blank :: "string \<Rightarrow> bool" where
  "blank s \<equiv> trim_space s = []"

lemma blank_Nil [simp]: "blank []"
  by (simp add: trim_space_def)

text \<open>ASCII strings decode byte by byte.\<close>

lemma head_rune_ascii: "(of_char c :: nat) < 128 \<Longrightarrow> head_rune (c # cs) = (of_char c, 1)"
  by (simp add: head_rune_def)

lemma runes_ascii:
  "list_all (\<lambda>c. (of_char c :: nat) < 128) s \<Longrightarrow> runes s = map (\<lambda>c. (of_char c, [c])) s"
  by (induction s) (simp_all add: runes.simps(2) head_rune_ascii)

text \<open>The equation that evaluation uses: an ASCII byte needs no decoding.\<close>

lemma runes_code [code]:
  "runes [] = []"
  "runes (c # cs) =
     (if \<not> digit7 c then (of_char c, [c]) # runes cs
      else (let (r, w) = head_rune (c # cs) in (r, take w (c # cs)) # runes (drop w (c # cs))))"
proof -
  have "\<not> digit7 c \<Longrightarrow> (of_char c :: nat) < 128"
    by (cases c) (simp add: of_char_def)
  then show "runes (c # cs) =
     (if \<not> digit7 c then (of_char c, [c]) # runes cs
      else (let (r, w) = head_rune (c # cs) in (r, take w (c # cs)) # runes (drop w (c # cs))))"
    by (simp add: runes.simps(2) head_rune_ascii case_prod_unfold Let_def)
qed simp

lemma valid_utf8_ascii: "list_all (\<lambda>c. (of_char c :: nat) < 128) s \<Longrightarrow> valid_utf8 s"
  by (auto simp: valid_utf8_def runes_ascii rune_error_def list_all_iff)

lemma not_blank_ascii:
  assumes "list_all (\<lambda>c. (of_char c :: nat) < 128) (c # cs)" "\<not> is_space (of_char c)"
  shows "\<not> blank (c # cs)"
proof -
  let ?rs = "runes (c # cs)" and ?sp = "is_space \<circ> fst"
  have rs: "dropWhile ?sp ?rs = ?rs" "(of_char c, [c]) \<in> set ?rs"
    using assms by (simp_all add: runes_ascii)
  have ne: "x \<in> set ?rs \<Longrightarrow> snd x \<noteq> []" for x
    using assms by (simp only: runes_ascii) auto
  have "dropWhile ?sp (rev ?rs) \<noteq> []"
    using rs(2) assms(2) by force
  then obtain x where x: "x \<in> set (dropWhile ?sp (rev ?rs))"
    by (meson list.set_sel(1))
  then have "snd x \<noteq> []"
    using ne set_dropWhileD by fastforce
  with x show ?thesis
    by (auto simp: trim_space_def rs(1))
qed

text \<open>\<open>unicode.IsControl\<close>.\<close>

definition is_control :: "nat \<Rightarrow> bool" where
  "is_control r \<longleftrightarrow> r < 32 \<or> (127 \<le> r \<and> r < 160)"

text \<open>\<open>strings.ContainsAny\<close> for a set of ASCII characters.\<close>

definition contains_any :: "string \<Rightarrow> string \<Rightarrow> bool" where
  "contains_any s cs \<longleftrightarrow> list_ex (\<lambda>c. c \<in> set cs) s"

text \<open>\<open>strings.Contains\<close>.\<close>

definition contains_str :: "string \<Rightarrow> string \<Rightarrow> bool" where
  "contains_str s sub = sublist sub s"

text \<open>\<open>strings.HasPrefix\<close>.\<close>

definition has_prefix :: "string \<Rightarrow> string \<Rightarrow> bool" where
  "has_prefix s p = prefix p s"

text \<open>
  \<open>strings.ToLower\<close> as far as an ASCII substring search can tell: the ASCII capitals, and the two
  other runes whose lower case is an ASCII letter, U+0130 and U+212A. Every other rune maps to a
  rune outside ASCII, and keeping its bytes keeps it outside ASCII.
\<close>

definition lower_rune :: "nat \<times> string \<Rightarrow> string" where
  "lower_rune p = (case p of (r, bs) \<Rightarrow>
     if 65 \<le> r \<and> r \<le> 90 then [char_of (r + 32)]
     else if r = 304 then ''i'' else if r = 8490 then ''k'' else bs)"

definition to_lower_ascii :: "string \<Rightarrow> string" where
  "to_lower_ascii s = concat (map lower_rune (runes s))"

section \<open>Splitting, joining and numerals\<close>

text \<open>\<open>strings.Split\<close> at a one-character separator; the result is never empty.\<close>

fun split_on :: "char \<Rightarrow> string \<Rightarrow> string list" where
  "split_on d [] = [[]]"
| "split_on d (c # cs) =
     (if c = d then [] # split_on d cs
      else case split_on d cs of [] \<Rightarrow> [[c]] | p # ps \<Rightarrow> (c # p) # ps)"

text \<open>\<open>strings.Join\<close>.\<close>

fun join_with :: "string \<Rightarrow> string list \<Rightarrow> string" where
  "join_with sep [] = []"
| "join_with sep [s] = s"
| "join_with sep (s # t # ss) = s @ sep @ join_with sep (t # ss)"

lemma split_on_not_Nil [simp]: "split_on d s \<noteq> []"
  by (cases s) (auto split: list.splits)

lemma split_on_no_sep: "d \<notin> set s \<Longrightarrow> split_on d s = [s]"
  by (induction s) auto

lemma split_on_append:
  "d \<notin> set s \<Longrightarrow> split_on d (s @ d # t) = s # split_on d t"
  by (induction s) auto

lemma split_on_join:
  assumes "ss \<noteq> []" and "\<forall>s \<in> set ss. d \<notin> set s"
  shows "split_on d (join_with [d] ss) = ss"
  using assms
  by (induction "[d]" ss rule: join_with.induct) (auto simp: split_on_no_sep split_on_append)

definition is_digit :: "char \<Rightarrow> bool" where
  "is_digit c \<longleftrightarrow> 48 \<le> (of_char c :: nat) \<and> (of_char c :: nat) \<le> 57"

definition digit_val :: "char \<Rightarrow> nat" where
  "digit_val c = of_char c - 48"

text \<open>The value of a string of decimal digits.\<close>

definition decimal_value :: "string \<Rightarrow> nat" where
  "decimal_value s = foldl (\<lambda>n c. n * 10 + digit_val c) 0 s"

text \<open>\<open>strconv.FormatInt(n, 10)\<close> and \<open>%d\<close>.\<close>

fun nat_str :: "nat \<Rightarrow> string" where
  "nat_str n = (if n < 10 then [char_of (48 + n)] else nat_str (n div 10) @ [char_of (48 + n mod 10)])"

declare nat_str.simps [simp del]

definition int_str :: "int \<Rightarrow> string" where
  "int_str n = (if n < 0 then CHR ''-'' # nat_str (nat (- n)) else nat_str (nat n))"

lemma digit_val_char_of: "(n::nat) < 10 \<Longrightarrow> digit_val (char_of (48 + n)) = n"
  by (simp add: digit_val_def)

lemma is_digit_char_of: "(n::nat) < 10 \<Longrightarrow> is_digit (char_of (48 + n))"
  by (simp add: is_digit_def)

lemma decimal_value_snoc: "decimal_value (s @ [c]) = decimal_value s * 10 + digit_val c"
  by (simp add: decimal_value_def)

lemma decimal_value_nat_str: "decimal_value (nat_str n) = n"
proof (induction n rule: nat_str.induct)
  case (1 n)
  show ?case
  proof (cases "n < 10")
    case True
    then show ?thesis
      by (subst nat_str.simps) (simp add: decimal_value_def digit_val_char_of)
  next
    case False
    with 1 show ?thesis
      by (subst nat_str.simps) (simp add: decimal_value_snoc digit_val_char_of)
  qed
qed

lemma nat_str_inj: "nat_str m = nat_str n \<Longrightarrow> m = n"
  by (metis decimal_value_nat_str)

lemma nat_str_digits: "c \<in> set (nat_str n) \<Longrightarrow> is_digit c"
proof (induction n rule: nat_str.induct)
  case (1 n)
  show ?case
  proof (cases "n < 10")
    case True
    with 1 show ?thesis by (subst (asm) nat_str.simps) (simp add: is_digit_char_of)
  next
    case False
    with 1 show ?thesis by (subst (asm) nat_str.simps) (auto simp: is_digit_char_of)
  qed
qed

lemma nat_str_not_Nil [simp]: "nat_str n \<noteq> []"
  by (subst nat_str.simps) simp

section \<open>Hexadecimal\<close>

definition is_lower_hex :: "char \<Rightarrow> bool" where
  "is_lower_hex c \<longleftrightarrow> is_digit c \<or> (97 \<le> (of_char c :: nat) \<and> (of_char c :: nat) \<le> 102)"

definition is_hex_digit :: "char \<Rightarrow> bool" where
  "is_hex_digit c \<longleftrightarrow> is_lower_hex c \<or> (65 \<le> (of_char c :: nat) \<and> (of_char c :: nat) \<le> 70)"

definition hex_digit :: "nat \<Rightarrow> char" where
  "hex_digit n = (let d = n mod 16 in char_of (if d < 10 then 48 + d else 87 + d))"

text \<open>\<open>hex.EncodeToString\<close> of a list of bytes.\<close>

definition hex_encode :: "nat list \<Rightarrow> string" where
  "hex_encode bs = concat (map (\<lambda>b. [hex_digit (b div 16), hex_digit b]) bs)"

text \<open>Whether \<open>hex.DecodeString\<close> succeeds.\<close>

definition hex_decodable :: "string \<Rightarrow> bool" where
  "hex_decodable s \<longleftrightarrow> even (length s) \<and> list_all is_hex_digit s"

lemma length_hex_encode [simp]: "length (hex_encode bs) = 2 * length bs"
  by (induction bs) (auto simp: hex_encode_def)

lemma hex_digit_lower: "is_lower_hex (hex_digit n)"
proof -
  have "n mod 16 < 16" by simp
  then show ?thesis
    by (auto simp: hex_digit_def is_lower_hex_def is_digit_def Let_def)
qed

lemma is_lower_hex_imp_hex: "is_lower_hex c \<Longrightarrow> is_hex_digit c"
  by (simp add: is_hex_digit_def)

lemma hex_encode_lower: "list_all is_lower_hex (hex_encode bs)"
  by (induction bs) (auto simp: hex_encode_def hex_digit_lower)

lemma hex_decodable_encode: "hex_decodable (hex_encode bs)"
  using hex_encode_lower[of bs] is_lower_hex_imp_hex
  by (auto simp: hex_decodable_def list_all_iff)

end
