(* ===== verification/Json.thy ===== *)
theory Json
  imports Complex_Main Go_Text
begin

text \<open>
  Dynamic JSON values (\<open>map[string]any\<close> and what it holds) and what the code uses of
  \<open>encoding/json\<close>: the compact encoding with sorted object keys and HTML escaping, the
  \<open>Unmarshal(Marshal(v))\<close> round trip, and the native deep copy of
  \<open>src/pkg/core/capability.go\<close>, which is proved to agree with that round trip.

  A number carries the Go type it has, its float64 value and the text \<open>encoding/json\<close> prints for
  it. \<open>JBad\<close> stands for any Go value that \<open>encoding/json\<close> refuses (a channel, a function, a
  cycle). Integers beyond 2\<open>^\<close>53, whose text changes when they pass through float64, are outside
  the model.
\<close>

datatype num_kind = KFloat64 | KInt | KSizedInt | KFloat32 | KNumber

datatype json =
    JNull
  | JBool bool
  | JNum num_kind rat string
  | JStr string
  | JArr "json list"
  | JObj "(string \<times> json) list"
  | JBad

type_synonym json_object = "(string, json) gomap"

section \<open>Encoding\<close>

definition escape_hex :: "nat \<Rightarrow> string" where
  "escape_hex r = [CHR 0x5C, CHR ''u'', hex_digit (r div 4096), hex_digit (r div 256),
                   hex_digit (r div 16), hex_digit r]"

definition escape_rune :: "nat \<times> string \<Rightarrow> string" where
  "escape_rune rb =
     (let (r, bs) = rb in
        if r = 34 \<or> r = 92 then [CHR 0x5C] @ bs
        else if r = 8 then [CHR 0x5C, CHR ''b'']
        else if r = 12 then [CHR 0x5C, CHR ''f'']
        else if r = 10 then [CHR 0x5C, CHR ''n'']
        else if r = 13 then [CHR 0x5C, CHR ''r'']
        else if r = 9 then [CHR 0x5C, CHR ''t'']
        else if r < 32 \<or> r = 60 \<or> r = 62 \<or> r = 38 \<or> r = 8232 \<or> r = 8233 then escape_hex r
        else if r = rune_error \<and> length bs = 1 then escape_hex rune_error
        else bs)"

definition json_string :: "string \<Rightarrow> string" where
  "json_string s = [CHR 0x22] @ concat (map escape_rune (runes s)) @ [CHR 0x22]"

definition json_array_text :: "string list \<Rightarrow> string" where
  "json_array_text xs = ''['' @ join_with '','' xs @ '']''"

text \<open>An object from already encoded members, in the given order: the encoding of a Go struct.\<close>

definition json_struct :: "(string \<times> string) list \<Rightarrow> string" where
  "json_struct fs = ''{'' @ join_with '','' (map (\<lambda>(k, v). json_string k @ '':'' @ v) fs) @ ''}''"

text \<open>A Go map: the members sorted by key.\<close>

definition json_map_text :: "(string \<times> string) list \<Rightarrow> string" where
  "json_map_text fs = json_struct (sort_key fst fs)"

fun seq_opt :: "'a option list \<Rightarrow> 'a list option" where
  "seq_opt [] = Some []"
| "seq_opt (None # xs) = None"
| "seq_opt (Some x # xs) = map_option ((#) x) (seq_opt xs)"

text \<open>\<open>json.Marshal\<close>; None is its error.\<close>

fun json_text :: "json \<Rightarrow> string option" where
  "json_text JNull = Some ''null''"
| "json_text (JBool b) = Some (if b then ''true'' else ''false'')"
| "json_text (JNum k v lit) = Some lit"
| "json_text (JStr s) = Some (json_string s)"
| "json_text (JArr xs) = map_option json_array_text (seq_opt (map json_text xs))"
| "json_text (JObj fs) =
     map_option json_map_text (seq_opt (map (\<lambda>(k, v). map_option (Pair k) (json_text v)) fs))"
| "json_text JBad = None"

abbreviation json_object_text :: "json_object \<Rightarrow> string option" where
  "json_object_text m \<equiv> json_text (JObj m)"

section \<open>The round trip through text\<close>

fun json_depth :: "json \<Rightarrow> nat" where
  "json_depth (JArr xs) = Suc (fold max (map json_depth xs) 0)"
| "json_depth (JObj fs) = Suc (fold max (map (\<lambda>(k, v). json_depth v) fs) 0)"
| "json_depth _ = 0"

definition max_decode_depth :: nat where
  "max_decode_depth = 10000"

text \<open>
  What decoding the encoded value into an \<open>any\<close> yields: ill-formed strings become well-formed,
  numbers become float64, object members are stored in the order of the text, so a later key wins.
\<close>

fun json_norm :: "json \<Rightarrow> json option" where
  "json_norm JNull = Some JNull"
| "json_norm (JBool b) = Some (JBool b)"
| "json_norm (JNum k v lit) = Some (JNum KFloat64 v lit)"
| "json_norm (JStr s) = Some (JStr (to_valid_utf8 s))"
| "json_norm (JArr xs) = map_option JArr (seq_opt (map json_norm xs))"
| "json_norm (JObj fs) =
     map_option (\<lambda>gs. JObj (fold (\<lambda>(k, v). mput (to_valid_utf8 k) v) (sort_key fst gs) []))
       (seq_opt (map (\<lambda>(k, v). map_option (Pair k) (json_norm v)) fs))"
| "json_norm JBad = None"

definition json_roundtrip :: "json \<Rightarrow> json option" where
  "json_roundtrip v = (if json_depth v > max_decode_depth then None else json_norm v)"

section \<open>Native copy\<close>

text \<open>
  A JSON number literal, scanned as the code does: \<open>scan_digits\<close> drops a run of digits.
\<close>

definition scan_digits :: "string \<Rightarrow> string" where
  "scan_digits s = dropWhile is_digit s"

(* src/pkg/core/capability.go:993-1006 validJSONNumberLiteral *)
definition scan_exponent :: "string \<Rightarrow> bool" where
  "scan_exponent s =
     (case s of
        [] \<Rightarrow> True
      | c # cs \<Rightarrow>
          if c = CHR ''e'' \<or> c = CHR ''E'' then
            (let cs1 = (case cs of d # ds \<Rightarrow> if d = CHR ''+'' \<or> d = CHR ''-'' then ds else cs | [] \<Rightarrow> cs);
                 rest = scan_digits cs1
             in if length rest = length cs1 then False else rest = [])
          else False)"

(* src/pkg/core/capability.go:983-1006 validJSONNumberLiteral *)
definition scan_fraction :: "string \<Rightarrow> bool" where
  "scan_fraction s =
     (case s of
        c # cs \<Rightarrow>
          if c = CHR ''.'' then
            (let rest = scan_digits cs in if length rest = length cs then False else scan_exponent rest)
          else scan_exponent s
      | [] \<Rightarrow> scan_exponent s)"

(* src/pkg/core/capability.go:962-1007 validJSONNumberLiteral *)
definition validJSONNumberLiteral :: "string \<Rightarrow> bool" where
  "validJSONNumberLiteral s =
     (if s = [] then False
      else let s1 = (if hd s = CHR ''-'' then tl s else s) in
        case s1 of
          [] \<Rightarrow> False
        | c # cs \<Rightarrow>
            if c = CHR ''0'' then scan_fraction cs
            else if \<not> (is_digit c \<and> c \<noteq> CHR ''0'') then False
            else scan_fraction (scan_digits cs))"

definition cloneJSONNativeMaxDepth :: nat where
  "cloneJSONNativeMaxDepth = 128"

text \<open>
  The recursion over the dynamic type. The \<open>active\<close> set of the code refuses a pointer that is
  already on the path; a \<^typ>\<open>json\<close> value is a tree, so it never fires here.
\<close>

(* src/pkg/core/capability.go:888-960 cloneJSONNativeValue *)
fun cloneJSONNativeValue :: "json \<Rightarrow> nat \<Rightarrow> json option" where
  "cloneJSONNativeValue JNull depth =
     (if depth > cloneJSONNativeMaxDepth then None else Some JNull)"
| "cloneJSONNativeValue (JBool b) depth =
     (if depth > cloneJSONNativeMaxDepth then None else Some (JBool b))"
| "cloneJSONNativeValue (JStr s) depth =
     (if depth > cloneJSONNativeMaxDepth then None else if \<not> valid_utf8 s then None else Some (JStr s))"
| "cloneJSONNativeValue (JNum k v lit) depth =
     (if depth > cloneJSONNativeMaxDepth then None
      else case k of
             KFloat64 \<Rightarrow> Some (JNum KFloat64 v lit)
           | KNumber \<Rightarrow> if \<not> validJSONNumberLiteral lit then None else Some (JNum KFloat64 v lit)
           | _ \<Rightarrow> None)"
| "cloneJSONNativeValue (JArr xs) depth =
     (if depth > cloneJSONNativeMaxDepth then None
      else map_option JArr (seq_opt (map (\<lambda>x. cloneJSONNativeValue x (depth + 1)) xs)))"
| "cloneJSONNativeValue (JObj fs) depth =
     (if depth > cloneJSONNativeMaxDepth then None
      else map_option JObj (seq_opt (map (\<lambda>(k, v).
             if \<not> valid_utf8 k then None
             else map_option (Pair k) (cloneJSONNativeValue v (depth + 1))) fs)))"
| "cloneJSONNativeValue JBad depth = None"

(* src/pkg/core/capability.go:880-886 cloneJSONNative *)
definition cloneJSONNative :: "json \<Rightarrow> json option" where
  "cloneJSONNative v = cloneJSONNativeValue v 0"

text \<open>A nil map is \<open>None\<close>.\<close>

(* src/pkg/core/capability.go:855-871 cloneMap *)
definition cloneMap :: "json_object option \<Rightarrow> json_object option" where
  "cloneMap input =
     (case input of
        None \<Rightarrow> None
      | Some m \<Rightarrow>
          (case cloneJSONNative (JObj m) of
             Some (JObj c) \<Rightarrow> Some c
           | _ \<Rightarrow> (case json_roundtrip (JObj m) of Some (JObj c) \<Rightarrow> Some c | _ \<Rightarrow> None)))"

definition MaxToolArgumentBytes :: nat where
  "MaxToolArgumentBytes = 1048576"

definition MaxCapabilityMetadataBytes :: nat where
  "MaxCapabilityMetadataBytes = 262144"

datatype args_error = ArgsNotSerializable | ArgsTooLarge | ArgsUndecodable

(* src/pkg/core/capability.go:706-725 cloneCallArgs *)
definition cloneCallArgs :: "json_object option \<Rightarrow> args_error + json_object option" where
  "cloneCallArgs args =
     (case args of
        None \<Rightarrow> Inr None
      | Some m \<Rightarrow>
          (case json_object_text m of
             None \<Rightarrow> Inl ArgsNotSerializable
           | Some data \<Rightarrow>
               if length data > MaxToolArgumentBytes then Inl ArgsTooLarge
               else (case cloneJSONNative (JObj m) of
                       Some (JObj c) \<Rightarrow> Inr (Some c)
                     | _ \<Rightarrow> (case json_roundtrip (JObj m) of
                               Some (JObj c) \<Rightarrow> Inr (Some c)
                             | _ \<Rightarrow> Inl ArgsUndecodable))))"

datatype metadata_error = MetadataNotSerializable | MetadataTooLarge

(* src/pkg/core/capability.go:727-739 validateResultMetadata *)
definition validateResultMetadata :: "json_object option \<Rightarrow> metadata_error + unit" where
  "validateResultMetadata metadata =
     (case metadata of
        None \<Rightarrow> Inr ()
      | Some m \<Rightarrow>
          (case json_object_text m of
             None \<Rightarrow> Inl MetadataNotSerializable
           | Some data \<Rightarrow> if length data > MaxCapabilityMetadataBytes then Inl MetadataTooLarge else Inr ()))"

section \<open>The native copy agrees with the round trip\<close>

lemma seq_opt_eq_Some: "seq_opt xs = Some ys \<longleftrightarrow> xs = map Some ys"
  by (induction xs arbitrary: ys rule: seq_opt.induct) (auto simp: Cons_eq_map_conv)

lemma seq_opt_map_eq_Some:
  "seq_opt (map f xs) = Some ys \<longleftrightarrow> list_all2 (\<lambda>x y. f x = Some y) xs ys"
  by (simp add: seq_opt_eq_Some list_eq_iff_nth_eq list_all2_conv_all_nth) (auto simp: eq_commute)

text \<open>Two objects hold the same members; Go maps have no order.\<close>

fun json_same :: "json \<Rightarrow> json \<Rightarrow> bool" where
  "json_same (JArr xs) w = (case w of JArr ys \<Rightarrow> list_all2 (\<lambda>x y. json_same x y) xs ys | _ \<Rightarrow> False)"
| "json_same (JObj fs) w =
     (case w of
        JObj gs \<Rightarrow> set (map fst fs) = set (map fst gs) \<and>
          list_all (\<lambda>(k, v). case map_of gs k of None \<Rightarrow> False | Some u \<Rightarrow> json_same v u) fs
      | _ \<Rightarrow> False)"
| "json_same v w = (v = w)"

text \<open>All objects in a value have distinct keys, as Go maps do.\<close>

fun json_ok :: "json \<Rightarrow> bool" where
  "json_ok (JArr xs) = list_all json_ok xs"
| "json_ok (JObj fs) = (gomap_ok fs \<and> list_all (\<lambda>(k, v). json_ok v) fs)"
| "json_ok _ = True"

lemma map_of_fold_mput:
  assumes "gomap_ok gs"
  shows "map_of (fold (\<lambda>(k, v). mput k v) gs m) k = (case map_of gs k of None \<Rightarrow> map_of m k | Some v \<Rightarrow> Some v)"
  using assms
proof (induction gs arbitrary: m)
  case (Cons g gs)
  obtain a v where g: "g = (a, v)" by force
  have "a = k \<Longrightarrow> map_of gs k = None" using Cons.prems g by (auto simp: map_of_eq_None_iff)
  then show ?case using Cons g by (auto split: option.splits)
qed simp

lemma map_of_sort_key: "gomap_ok gs \<Longrightarrow> map_of (sort_key fst gs) = map_of gs"
  by (rule map_of_inject_set[THEN iffD2]) (auto simp: distinct_map inj_on_def)

lemma fold_valid_keys:
  assumes "\<forall>(k, v) \<in> set gs. valid_utf8 k"
  shows "fold (\<lambda>(k, v). mput (to_valid_utf8 k) v) gs m = fold (\<lambda>(k, v). mput k v) gs m"
  using assms by (intro fold_cong refl) (auto simp: to_valid_utf8_id)

lemma json_norm_object:
  assumes "gomap_ok gs" "\<forall>(k, v) \<in> set gs. valid_utf8 k"
  shows "map_of (fold (\<lambda>(k, v). mput (to_valid_utf8 k) v) (sort_key fst gs) []) = map_of gs"
proof
  fix k
  have ok: "gomap_ok (sort_key fst gs)"
    using assms(1) by (auto simp: distinct_map inj_on_def)
  have "\<forall>(k, v) \<in> set (sort_key fst gs). valid_utf8 k" using assms(2) by simp
  then show "map_of (fold (\<lambda>(k, v). mput (to_valid_utf8 k) v) (sort_key fst gs) []) k = map_of gs k"
    by (simp add: fold_valid_keys map_of_fold_mput[OF ok] map_of_sort_key[OF assms(1)] split: option.splits)
qed

lemma fold_max_le: "fold max ns (a :: nat) \<le> b \<longleftrightarrow> a \<le> b \<and> (\<forall>n \<in> set ns. n \<le> b)"
  by (induction ns arbitrary: a) auto

lemma clone_depth:
  "cloneJSONNativeValue v d = Some w \<Longrightarrow> d + json_depth v \<le> 129"
proof (induction v d arbitrary: w rule: cloneJSONNativeValue.induct)
  case (5 xs d)
  from "5.prems" obtain ys where ys: "list_all2 (\<lambda>x y. cloneJSONNativeValue x (d + 1) = Some y) xs ys"
    and d: "\<not> cloneJSONNativeMaxDepth < d"
    by (auto simp: seq_opt_map_eq_Some split: if_splits)
  have "x \<in> set xs \<Longrightarrow> json_depth x \<le> 129 - (d + 1)" for x
    using ys "5.IH"[OF d] by (auto simp: list_all2_conv_all_nth in_set_conv_nth) (metis add.commute add_le_imp_le_diff)
  then have "fold max (map json_depth xs) 0 \<le> 129 - (d + 1)" by (auto simp: fold_max_le)
  then show ?case using d by (simp add: cloneJSONNativeMaxDepth_def)
next
  case (6 fs d)
  from "6.prems" obtain gs where gs: "list_all2 (\<lambda>f g. (case f of (k, v) \<Rightarrow> if \<not> valid_utf8 k then None
        else map_option (Pair k) (cloneJSONNativeValue v (d + 1))) = Some g) fs gs"
    and d: "\<not> cloneJSONNativeMaxDepth < d"
    by (auto simp: seq_opt_map_eq_Some split: if_splits)
  have "(k, v) \<in> set fs \<Longrightarrow> json_depth v \<le> 129 - (d + 1)" for k v
  proof -
    assume kv: "(k, v) \<in> set fs"
    then obtain g where "cloneJSONNativeValue v (d + 1) = Some g" "valid_utf8 k"
      using gs by (fastforce simp: list_all2_conv_all_nth in_set_conv_nth split: if_splits)
    with "6.IH"[OF d kv refl] show ?thesis by fastforce
  qed
  then have "fold max (map (\<lambda>(k, v). json_depth v) fs) 0 \<le> 129 - (d + 1)" by (auto simp: fold_max_le)
  then show ?case using d by (simp add: cloneJSONNativeMaxDepth_def)
qed (auto simp: cloneJSONNativeMaxDepth_def split: if_splits)

lemma clone_array_norm:
  assumes "list_all2 (\<lambda>x y. \<exists>u. json_norm x = Some u \<and> json_same y u) xs ys"
  shows "\<exists>us. seq_opt (map json_norm xs) = Some us \<and> list_all2 json_same ys us"
  using assms by (induction rule: list_all2_induct) auto

lemma clone_object_norm:
  assumes "list_all2 (\<lambda>(k, x) (l, y). k = l \<and> (\<exists>u. json_norm x = Some u \<and> json_same y u)) fs gs"
  shows "\<exists>hs. seq_opt (map (\<lambda>(k, v). map_option (Pair k) (json_norm v)) fs) = Some hs
    \<and> list_all2 (\<lambda>(k, y) (l, u). k = l \<and> json_same y u) gs hs \<and> map fst hs = map fst fs \<and> map fst gs = map fst fs"
  using assms by (induction rule: list_all2_induct) auto

lemma same_members:
  assumes "list_all2 (\<lambda>(k, y) (l, u). k = l \<and> json_same y u) gs hs" "gomap_ok hs"
  shows "list_all (\<lambda>(k, y). case map_of hs k of None \<Rightarrow> False | Some u \<Rightarrow> json_same y u) gs"
  unfolding list_all_length
proof (intro allI impI)
  fix i assume i: "i < length gs"
  obtain k y where g: "gs ! i = (k, y)" by force
  obtain l u where h: "hs ! i = (l, u)" by force
  have "k = l" "json_same y u" "i < length hs"
    using assms(1) i g h by (auto simp: list_all2_conv_all_nth)
  moreover from this have "map_of hs k = Some u"
    using h assms(2) by (metis map_of_eq_Some_iff nth_mem)
  ultimately show "case gs ! i of (k, y) \<Rightarrow> (case map_of hs k of None \<Rightarrow> False | Some u \<Rightarrow> json_same y u)"
    by (simp add: g)
qed

lemma clone_norm:
  "cloneJSONNativeValue v d = Some w \<Longrightarrow> json_ok v \<Longrightarrow> \<exists>u. json_norm v = Some u \<and> json_same w u"
proof (induction v d arbitrary: w rule: cloneJSONNativeValue.induct)
  case (5 xs d)
  from "5.prems" obtain ys where ys: "list_all2 (\<lambda>x y. cloneJSONNativeValue x (d + 1) = Some y) xs ys"
    and d: "\<not> cloneJSONNativeMaxDepth < d" and w: "w = JArr ys"
    by (auto simp: seq_opt_map_eq_Some split: if_splits)
  have "list_all2 (\<lambda>x y. \<exists>u. json_norm x = Some u \<and> json_same y u) xs ys"
    using ys by (rule list.rel_mono_strong) (use "5.IH"[OF d] "5.prems"(2) in \<open>auto simp: list_all_iff\<close>)
  then show ?case using clone_array_norm w by fastforce
next
  case (6 fs d)
  from "6.prems" obtain gs where gs: "list_all2 (\<lambda>f g. (case f of (k, v) \<Rightarrow> if \<not> valid_utf8 k then None
        else map_option (Pair k) (cloneJSONNativeValue v (d + 1))) = Some g) fs gs"
    and d: "\<not> cloneJSONNativeMaxDepth < d" and w: "w = JObj gs"
    by (auto simp: seq_opt_map_eq_Some split: if_splits)
  have "list_all2 (\<lambda>(k, x) (l, y). k = l \<and> (\<exists>u. json_norm x = Some u \<and> json_same y u)) fs gs"
    using gs
  proof (rule list.rel_mono_strong)
    fix f g assume f: "f \<in> set fs" and fg: "(case f of (k, v) \<Rightarrow> if \<not> valid_utf8 k then None
        else map_option (Pair k) (cloneJSONNativeValue v (d + 1))) = Some g"
    obtain k v where kv: "f = (k, v)" by force
    from fg kv obtain y where "cloneJSONNativeValue v (d + 1) = Some y" "g = (k, y)" "valid_utf8 k"
      by (auto split: if_splits)
    with "6.IH"[OF d f kv[symmetric]] "6.prems"(2) f kv
    show "(\<lambda>(k, x) (l, y). k = l \<and> (\<exists>u. json_norm x = Some u \<and> json_same y u)) f g"
      by (auto simp: list_all_iff)
  qed
  from clone_object_norm[OF this] obtain hs where hs:
    "seq_opt (map (\<lambda>(k, v). map_option (Pair k) (json_norm v)) fs) = Some hs"
    "list_all2 (\<lambda>(k, y) (l, u). k = l \<and> json_same y u) gs hs"
    "map fst hs = map fst fs" "map fst gs = map fst fs" by blast
  have ok: "gomap_ok hs" using "6.prems"(2) hs(3) by simp
  have "(k, v) \<in> set fs \<Longrightarrow> valid_utf8 k" for k v
    using gs by (fastforce simp: list_all2_conv_all_nth in_set_conv_nth split: if_splits)
  then have valid: "\<forall>(k, u) \<in> set hs. valid_utf8 k"
    using hs(3) by (metis (mono_tags, lifting) case_prodI2 fst_conv image_iff list.set_map prod.collapse)
  let ?u = "fold (\<lambda>(k, v). mput (to_valid_utf8 k) v) (sort_key fst hs) []"
  have m: "map_of ?u = map_of hs" using json_norm_object[OF ok valid] .
  have "fst ` set ?u = fst ` set hs" using m by (metis dom_map_of_conv_image_fst)
  then have "json_same (JObj gs) (JObj ?u)"
    using same_members[OF hs(2) ok] hs(3,4) m by (simp, metis list.set_map)
  then show ?case using hs(1) w by auto
qed (auto simp: to_valid_utf8_id split: if_splits num_kind.splits)

section \<open>The number grammar\<close>

text \<open>The grammar of RFC 8259, by parts.\<close>

definition exp_part :: "string \<Rightarrow> bool" where
  "exp_part s \<longleftrightarrow> s = [] \<or> (\<exists>e sg ds. s = e # sg @ ds \<and> e \<in> {CHR ''e'', CHR ''E''}
     \<and> sg \<in> {[], [CHR ''+''], [CHR ''-'']} \<and> ds \<noteq> [] \<and> list_all is_digit ds)"

definition frac_part :: "string \<Rightarrow> bool" where
  "frac_part s \<longleftrightarrow> s = [] \<or> (\<exists>ds. s = CHR ''.'' # ds \<and> ds \<noteq> [] \<and> list_all is_digit ds)"

definition int_part :: "string \<Rightarrow> bool" where
  "int_part s \<longleftrightarrow> s = ''0'' \<or> (\<exists>c cs. s = c # cs \<and> is_digit c \<and> c \<noteq> CHR ''0'' \<and> list_all is_digit cs)"

definition number_literal :: "string \<Rightarrow> bool" where
  "number_literal s \<longleftrightarrow> (\<exists>sg ip fr ex. s = sg @ ip @ fr @ ex \<and> sg \<in> {[], [CHR ''-'']}
     \<and> int_part ip \<and> frac_part fr \<and> exp_part ex)"

lemma is_digit_not [simp]:
  "\<not> is_digit (CHR ''+'')" "\<not> is_digit (CHR ''-'')" "\<not> is_digit (CHR ''.'')"
  "\<not> is_digit (CHR ''e'')" "\<not> is_digit (CHR ''E'')" "is_digit (CHR ''0'')"
  by (simp_all add: is_digit_def)

lemma scan_digits_split:
  assumes "list_all is_digit ds" "rest = [] \<or> \<not> is_digit (hd rest)"
  shows "scan_digits (ds @ rest) = rest"
  using assms by (induction ds) (auto simp: scan_digits_def dropWhile_eq_self_iff)

lemma scan_digits_obtain:
  obtains ds where "s = ds @ scan_digits s" "list_all is_digit ds"
    "scan_digits s = [] \<or> \<not> is_digit (hd (scan_digits s))"
proof (rule that[of "takeWhile is_digit s"])
  show "list_all is_digit (takeWhile is_digit s)"
    by (auto simp: list_all_iff dest: set_takeWhileD)
  show "scan_digits s = [] \<or> \<not> is_digit (hd (scan_digits s))"
    using hd_dropWhile[of is_digit s] by (auto simp: scan_digits_def)
qed (simp add: scan_digits_def)

lemma scan_digits_some:
  "(length (scan_digits cs) \<noteq> length cs \<and> P (scan_digits cs)) \<longleftrightarrow>
   (\<exists>ds rest. cs = ds @ rest \<and> ds \<noteq> [] \<and> list_all is_digit ds \<and> (rest = [] \<or> \<not> is_digit (hd rest)) \<and> P rest)"
proof
  obtain ds where d: "cs = ds @ scan_digits cs" "list_all is_digit ds"
    "scan_digits cs = [] \<or> \<not> is_digit (hd (scan_digits cs))" by (rule scan_digits_obtain)
  assume a: "length (scan_digits cs) \<noteq> length cs \<and> P (scan_digits cs)"
  have "ds \<noteq> []" using a d(1) by (metis append_Nil)
  with a d show "\<exists>ds rest. cs = ds @ rest \<and> ds \<noteq> [] \<and> list_all is_digit ds
      \<and> (rest = [] \<or> \<not> is_digit (hd rest)) \<and> P rest" by blast
next
  assume "\<exists>ds rest. cs = ds @ rest \<and> ds \<noteq> [] \<and> list_all is_digit ds
      \<and> (rest = [] \<or> \<not> is_digit (hd rest)) \<and> P rest"
  then obtain ds rest where "cs = ds @ rest" "ds \<noteq> []" "scan_digits cs = rest" "P rest"
    using scan_digits_split by blast
  then show "length (scan_digits cs) \<noteq> length cs \<and> P (scan_digits cs)" by simp
qed

lemma exp_part_head: "exp_part s \<Longrightarrow> s = [] \<or> \<not> is_digit (hd s)"
  by (auto simp: exp_part_def)

lemma signed_digits:
  "(\<exists>sg ds. cs = sg @ ds \<and> sg \<in> {[], [CHR ''+''], [CHR ''-'']} \<and> ds \<noteq> [] \<and> list_all is_digit ds)
   \<longleftrightarrow> (let t = (case cs of d # ds \<Rightarrow> if d = CHR ''+'' \<or> d = CHR ''-'' then ds else cs | [] \<Rightarrow> cs)
       in t \<noteq> [] \<and> list_all is_digit t)"
proof (cases cs)
  case (Cons d ds)
  show ?thesis
  proof (cases "d = CHR ''+'' \<or> d = CHR ''-''")
    case True
    then have "\<not> is_digit d" by auto
    with True Cons show ?thesis
      by (auto simp: Cons_eq_append_conv intro: exI[of _ "[d]"])
  next
    case False
    with Cons show ?thesis
      by (auto simp: Cons_eq_append_conv intro: exI[of _ "[]"])
  qed
qed simp

lemma exp_part_Cons:
  "exp_part (c # cs) \<longleftrightarrow> (c = CHR ''e'' \<or> c = CHR ''E'') \<and>
     (\<exists>sg ds. cs = sg @ ds \<and> sg \<in> {[], [CHR ''+''], [CHR ''-'']} \<and> ds \<noteq> [] \<and> list_all is_digit ds)"
  unfolding exp_part_def by blast

lemma scan_exponent_iff: "scan_exponent s \<longleftrightarrow> exp_part s"
proof (cases s)
  case (Cons c cs)
  have digits: "(if length (scan_digits t) = length t then False else scan_digits t = []) \<longleftrightarrow>
      t \<noteq> [] \<and> list_all is_digit t" for t
    using scan_digits_some[of t "\<lambda>r. r = []"] by auto
  show ?thesis
    unfolding Cons exp_part_Cons signed_digits scan_exponent_def list.case Let_def digits by simp
qed (simp add: scan_exponent_def exp_part_def)

lemma scan_fraction_iff: "scan_fraction s \<longleftrightarrow> (\<exists>fr ex. s = fr @ ex \<and> frac_part fr \<and> exp_part ex)"
proof (cases "s \<noteq> [] \<and> hd s = CHR ''.''")
  case True
  then obtain cs where s: "s = CHR ''.'' # cs" by (cases s) auto
  have "scan_fraction s \<longleftrightarrow> length (scan_digits cs) \<noteq> length cs \<and> exp_part (scan_digits cs)"
    by (simp add: scan_fraction_def s Let_def scan_exponent_iff)
  also have "\<dots> \<longleftrightarrow> (\<exists>ds rest. cs = ds @ rest \<and> ds \<noteq> [] \<and> list_all is_digit ds \<and> exp_part rest)"
    unfolding scan_digits_some using exp_part_head by blast
  also have "\<dots> \<longleftrightarrow> (\<exists>fr ex. s = fr @ ex \<and> frac_part fr \<and> exp_part ex)"
  proof
    assume "\<exists>ds rest. cs = ds @ rest \<and> ds \<noteq> [] \<and> list_all is_digit ds \<and> exp_part rest"
    then obtain ds rest where "cs = ds @ rest" "ds \<noteq> []" "list_all is_digit ds" "exp_part rest" by blast
    then show "\<exists>fr ex. s = fr @ ex \<and> frac_part fr \<and> exp_part ex"
      by (intro exI[of _ "CHR ''.'' # ds"] exI[of _ rest]) (auto simp: s frac_part_def)
  next
    assume "\<exists>fr ex. s = fr @ ex \<and> frac_part fr \<and> exp_part ex"
    then obtain fr ex where f: "s = fr @ ex" "frac_part fr" "exp_part ex" by blast
    have "fr \<noteq> []" using f s exp_part_Cons[of "CHR ''.''" cs] by auto
    then obtain ds where "fr = CHR ''.'' # ds" "ds \<noteq> []" "list_all is_digit ds"
      using f(2) by (auto simp: frac_part_def)
    with f s show "\<exists>ds rest. cs = ds @ rest \<and> ds \<noteq> [] \<and> list_all is_digit ds \<and> exp_part rest" by auto
  qed
  finally show ?thesis .
next
  case False
  then have "scan_fraction s \<longleftrightarrow> exp_part s"
    by (cases s) (auto simp: scan_fraction_def scan_exponent_iff)
  also have "\<dots> \<longleftrightarrow> (\<exists>fr ex. s = fr @ ex \<and> frac_part fr \<and> exp_part ex)"
    using False by (auto simp: frac_part_def)
  finally show ?thesis .
qed

lemma frac_exp_head:
  "frac_part fr \<Longrightarrow> exp_part ex \<Longrightarrow> fr @ ex = [] \<or> \<not> is_digit (hd (fr @ ex))"
  by (auto simp: frac_part_def exp_part_def)

lemma unsigned_number_iff:
  "(case s of [] \<Rightarrow> False
    | c # cs \<Rightarrow> if c = CHR ''0'' then scan_fraction cs
               else if \<not> (is_digit c \<and> c \<noteq> CHR ''0'') then False else scan_fraction (scan_digits cs))
   \<longleftrightarrow> (\<exists>ip fr ex. s = ip @ fr @ ex \<and> int_part ip \<and> frac_part fr \<and> exp_part ex)" (is "?L \<longleftrightarrow> ?R")
proof
  assume l: ?L
  then obtain c cs where s: "s = c # cs" by (cases s) auto
  obtain ds where d: "cs = ds @ scan_digits cs" "list_all is_digit ds" by (rule scan_digits_obtain)
  show ?R
  proof (cases "c = CHR ''0''")
    case True
    then show ?thesis
      using l s by (auto simp: scan_fraction_iff) (metis append_Cons append_Nil int_part_def)
  next
    case False
    then obtain fr ex where "scan_digits cs = fr @ ex" "frac_part fr" "exp_part ex" "is_digit c"
      using l s by (auto simp: scan_fraction_iff split: if_splits)
    with s d False show ?thesis
      by (intro exI[of _ "c # ds"] exI[of _ fr] exI[of _ ex]) (auto simp: int_part_def)
  qed
next
  assume ?R
  then obtain ip fr ex where s: "s = ip @ fr @ ex" and p: "int_part ip" "frac_part fr" "exp_part ex" by blast
  from p(1) show ?L
    unfolding int_part_def
  proof
    assume "ip = ''0''"
    then show ?L using s p by (auto simp: scan_fraction_iff)
  next
    assume "\<exists>c cs. ip = c # cs \<and> is_digit c \<and> c \<noteq> CHR ''0'' \<and> list_all is_digit cs"
    then obtain c cs where c: "ip = c # cs" "is_digit c" "c \<noteq> CHR ''0''" "list_all is_digit cs" by blast
    then show ?L using s p by (auto simp: scan_digits_split[OF c(4) frac_exp_head] scan_fraction_iff)
  qed
qed

section \<open>Properties\<close>



text \<open>The hand-written scanner for JSON number literals accepts exactly the grammar of the JSON
  standard: an optional minus, an integer part without leading zeros, an optional fraction and an
  optional exponent.\<close>
theorem number_literal_grammar: "validJSONNumberLiteral s \<longleftrightarrow> number_literal s"
proof -
  have neg: "int_part ip \<Longrightarrow> ip @ t \<noteq> [] \<and> hd (ip @ t) \<noteq> CHR ''-''" for ip t
    by (auto simp: int_part_def)
  show ?thesis
  proof (cases "s \<noteq> [] \<and> hd s = CHR ''-''")
    case True
    then obtain t where s: "s = CHR ''-'' # t" by (cases s) auto
    have "validJSONNumberLiteral s \<longleftrightarrow> (\<exists>ip fr ex. t = ip @ fr @ ex \<and> int_part ip \<and> frac_part fr \<and> exp_part ex)"
      unfolding unsigned_number_iff[symmetric] by (simp add: validJSONNumberLiteral_def s)
    also have "\<dots> \<longleftrightarrow> number_literal s"
    proof
      assume "number_literal s"
      then obtain sg ip fr ex where n: "s = sg @ ip @ fr @ ex" "sg = [] \<or> sg = ''-''"
        "int_part ip" "frac_part fr" "exp_part ex" unfolding number_literal_def by blast
      have "sg \<noteq> []" using neg[OF n(3), of "fr @ ex"] n(1) s by (metis append_Nil list.sel(1))
      with n s show "\<exists>ip fr ex. t = ip @ fr @ ex \<and> int_part ip \<and> frac_part fr \<and> exp_part ex" by auto
    next
      assume "\<exists>ip fr ex. t = ip @ fr @ ex \<and> int_part ip \<and> frac_part fr \<and> exp_part ex"
      then show "number_literal s"
        unfolding number_literal_def s by (metis append_Cons append_Nil insertCI)
    qed
    finally show ?thesis .
  next
    case False
    then have "validJSONNumberLiteral s \<longleftrightarrow> (\<exists>ip fr ex. s = ip @ fr @ ex \<and> int_part ip \<and> frac_part fr \<and> exp_part ex)"
      unfolding unsigned_number_iff[symmetric] by (cases s) (simp_all add: validJSONNumberLiteral_def)
    also have "\<dots> \<longleftrightarrow> number_literal s"
    proof
      assume "number_literal s"
      then obtain sg ip fr ex where n: "s = sg @ ip @ fr @ ex" "sg = [] \<or> sg = ''-''"
        "int_part ip" "frac_part fr" "exp_part ex" unfolding number_literal_def by blast
      moreover have "sg = []" using n(1,2) False by auto
      ultimately show "\<exists>ip fr ex. s = ip @ fr @ ex \<and> int_part ip \<and> frac_part fr \<and> exp_part ex" by auto
    next
      assume "\<exists>ip fr ex. s = ip @ fr @ ex \<and> int_part ip \<and> frac_part fr \<and> exp_part ex"
      then show "number_literal s"
        unfolding number_literal_def by (metis append_Nil insertCI)
    qed
    finally show ?thesis .
  qed
qed

end
