(* ===== verification/Schema.thy ===== *)
theory Schema
  imports Json
begin

text \<open>
  The JSON Schema subset of \<open>src/pkg/core/schema.go\<close>: the registration-time check of a schema and
  the validation of a value against it. Errors are classified by what they blame, the value or the
  schema; the order in which Go ranges over a map is the order of the association list. Compiling
  and matching a regular expression (package \<open>regexp\<close>) is the parameter \<open>rx\<close>: it maps a pattern
  to its matcher, or to None when the pattern does not compile.
\<close>

section \<open>Model\<close>

datatype schema_fault = BadValue | BadSchema

type_synonym regexp = "string \<Rightarrow> (string \<Rightarrow> bool) option"

(* src/pkg/core/schema.go:16-19 knownSchemaTypes *)
definition knownSchemaTypes :: "string list" where
  "knownSchemaTypes = [''string'', ''number'', ''integer'', ''boolean'', ''array'', ''object'', ''null'']"

(* src/pkg/core/schema.go:260-283 schemaTypeNames *)
fun schemaTypeNames :: "json \<Rightarrow> string list option" where
  "schemaTypeNames (JStr t) = (if t \<notin> set knownSchemaTypes then None else Some [t])"
| "schemaTypeNames (JArr items) =
     seq_opt (map (\<lambda>item. case item of
                            JStr name \<Rightarrow> if name \<notin> set knownSchemaTypes then None else Some name
                          | _ \<Rightarrow> None) items)"
| "schemaTypeNames _ = None"

text \<open>The float64 value and whether the number counts as an integer; None when not numeric.\<close>

(* src/pkg/core/schema.go:363-386 numericValue *)
fun numericValue :: "json \<Rightarrow> (rat \<times> bool) option" where
  "numericValue (JNum k v lit) =
     (case k of
        KNumber \<Rightarrow> Some (v, \<not> contains_any lit ''.eE'')
      | KInt \<Rightarrow> Some (v, True)
      | KSizedInt \<Rightarrow> Some (v, True)
      | KFloat32 \<Rightarrow> Some (v, v = of_int \<lfloor>v\<rfloor>)
      | KFloat64 \<Rightarrow> Some (v, v = of_int \<lfloor>v\<rfloor>))"
| "numericValue _ = None"

(* src/pkg/core/schema.go:351-361 schemaNumber *)
definition schemaNumber :: "json_object \<Rightarrow> string \<Rightarrow> unit + rat option" where
  "schemaNumber schema key =
     (case map_of schema key of
        None \<Rightarrow> Inr None
      | Some raw \<Rightarrow> (case numericValue raw of None \<Rightarrow> Inl () | Some (v, _) \<Rightarrow> Inr (Some v)))"

(* src/pkg/core/schema.go:336-349 numberField *)
definition numberField :: "json_object \<Rightarrow> string \<Rightarrow> rat option" where
  "numberField schema key =
     (case map_of schema key of
        Some (JNum KFloat64 v _) \<Rightarrow> Some v
      | Some (JNum KInt v _) \<Rightarrow> Some v
      | _ \<Rightarrow> None)"

(* src/pkg/core/schema.go:285-319 matchesType *)
definition matchesType :: "string list \<Rightarrow> json \<Rightarrow> bool" where
  "matchesType expected value = list_ex (\<lambda>name.
     if name = ''string'' then (case value of JStr _ \<Rightarrow> True | _ \<Rightarrow> False)
     else if name = ''number'' then numericValue value \<noteq> None
     else if name = ''integer'' then (case numericValue value of Some (_, integer) \<Rightarrow> integer | None \<Rightarrow> False)
     else if name = ''boolean'' then (case value of JBool _ \<Rightarrow> True | _ \<Rightarrow> False)
     else if name = ''array'' then (case value of JArr _ \<Rightarrow> True | _ \<Rightarrow> False)
     else if name = ''object'' then (case value of JObj _ \<Rightarrow> True | _ \<Rightarrow> False)
     else if name = ''null'' then value = JNull
     else False) expected"

(* src/pkg/core/schema.go:330-334 equalJSON *)
definition equalJSON :: "json \<Rightarrow> json \<Rightarrow> bool" where
  "equalJSON l r = (case (json_text l, json_text r) of (Some a, Some b) \<Rightarrow> a = b | _ \<Rightarrow> False)"

(* src/pkg/core/schema.go:321-328 containsValue *)
definition containsValue :: "json list \<Rightarrow> json \<Rightarrow> bool" where
  "containsValue values target = list_ex (\<lambda>candidate. equalJSON candidate target) values"

(* src/pkg/core/schema.go:51-63 validateSchemaNode *)
definition range_ok :: "json_object \<Rightarrow> string \<times> string \<Rightarrow> bool" where
  "range_ok schema pair =
     (case (schemaNumber schema (fst pair), schemaNumber schema (snd pair)) of
        (Inr lo, Inr hi) \<Rightarrow>
          (case (lo, hi) of (Some mn, Some mx) \<Rightarrow> \<not> mn > mx | _ \<Rightarrow> True)
      | _ \<Rightarrow> False)"

lemma map_of_size: "map_of fs k = Some v \<Longrightarrow> size v < size (JObj fs)"
  by (induction fs) (auto split: if_splits)

lemma member_size: "(k, v) \<in> set fs \<Longrightarrow> size v < size (JObj fs)"
  by (induction fs) auto

lemma element_size: "x \<in> set xs \<Longrightarrow> size x < size (JArr xs)"
  by (induction xs) auto

lemma size_JObj_nested:
  "map_of fs k = Some (JObj gs) \<Longrightarrow> (n, JObj hs) \<in> set gs \<Longrightarrow> size (JObj hs) < size (JObj fs)"
  using map_of_size member_size less_trans by blast

text \<open>True is the nil error.\<close>

(* src/pkg/core/schema.go:28-111 validateSchemaNode *)
function validateSchemaNode :: "regexp \<Rightarrow> json_object \<Rightarrow> bool" where
  "validateSchemaNode rx schema =
     (if schema = [] then True
      else (case map_of schema ''type'' of None \<Rightarrow> True | Some raw \<Rightarrow> schemaTypeNames raw \<noteq> None)
       \<and> (case map_of schema ''enum'' of None \<Rightarrow> True | Some (JArr _) \<Rightarrow> True | Some _ \<Rightarrow> False)
       \<and> (case map_of schema ''pattern'' of
            None \<Rightarrow> True | Some (JStr text) \<Rightarrow> rx text \<noteq> None | Some _ \<Rightarrow> False)
       \<and> list_all (range_ok schema)
           [(''minLength'', ''maxLength''), (''minItems'', ''maxItems''), (''minimum'', ''maximum'')]
       \<and> (case map_of schema ''additionalProperties'' of
            None \<Rightarrow> True
          | Some (JBool _) \<Rightarrow> True
          | Some (JObj additional) \<Rightarrow> validateSchemaNode rx additional
          | Some _ \<Rightarrow> False)
       \<and> (case map_of schema ''required'' of
            None \<Rightarrow> True
          | Some (JArr items) \<Rightarrow> list_all (\<lambda>item. case item of JStr _ \<Rightarrow> True | _ \<Rightarrow> False) items
          | Some _ \<Rightarrow> False)
       \<and> (case map_of schema ''properties'' of
            None \<Rightarrow> True
          | Some (JObj properties) \<Rightarrow>
              list_all (\<lambda>(name, child). case child of
                          JObj childSchema \<Rightarrow> validateSchemaNode rx childSchema
                        | _ \<Rightarrow> False) properties
          | Some _ \<Rightarrow> False)
       \<and> (case map_of schema ''items'' of
            None \<Rightarrow> True
          | Some (JObj items) \<Rightarrow> validateSchemaNode rx items
          | Some _ \<Rightarrow> False))"
  by pat_completeness auto
termination
  by (relation "measure (\<lambda>(_, schema). size (JObj schema))")
    (auto simp: map_of_size intro: size_JObj_nested simp del: json.size)

declare validateSchemaNode.simps [simp del]

(* src/pkg/core/schema.go:21-26 ValidateSchema *)
definition validateSchema :: "regexp \<Rightarrow> json_object option \<Rightarrow> bool" where
  "validateSchema rx schema = (case schema of None \<Rightarrow> True | Some s \<Rightarrow> validateSchemaNode rx s)"

(* src/pkg/core/schema.go:164-178 validateValue *)
definition validateString :: "regexp \<Rightarrow> json_object \<Rightarrow> string \<Rightarrow> schema_fault option" where
  "validateString rx schema typed =
     (let n = (of_nat (rune_count typed) :: rat) in
        if (case numberField schema ''minLength'' of Some v \<Rightarrow> n < v | None \<Rightarrow> False) then Some BadValue
        else if (case numberField schema ''maxLength'' of Some v \<Rightarrow> n > v | None \<Rightarrow> False) then Some BadValue
        else (case map_of schema ''pattern'' of
                Some (JStr pattern) \<Rightarrow>
                  if pattern = [] then None
                  else (case rx pattern of
                          None \<Rightarrow> Some BadSchema
                        | Some matches \<Rightarrow> if \<not> matches typed then Some BadValue else None)
              | _ \<Rightarrow> None))"

(* src/pkg/core/schema.go:179-188 validateValue *)
definition validateNumber :: "json_object \<Rightarrow> json \<Rightarrow> schema_fault option" where
  "validateNumber schema value =
     (case numericValue value of
        None \<Rightarrow> None
      | Some (n, _) \<Rightarrow>
          if (case numberField schema ''minimum'' of Some v \<Rightarrow> n < v | None \<Rightarrow> False) then Some BadValue
          else if (case numberField schema ''maximum'' of Some v \<Rightarrow> n > v | None \<Rightarrow> False) then Some BadValue
          else None)"

(* src/pkg/core/schema.go:143-156 validateValue *)
definition checkTypeEnum :: "json_object \<Rightarrow> json \<Rightarrow> schema_fault option" where
  "checkTypeEnum schema value =
     first_err
       (case map_of schema ''type'' of
          None \<Rightarrow> None
        | Some raw \<Rightarrow>
            (case schemaTypeNames raw of
               None \<Rightarrow> Some BadSchema
             | Some expected \<Rightarrow> if \<not> matchesType expected value then Some BadValue else None))
       (case map_of schema ''enum'' of
          Some (JArr raw) \<Rightarrow> if raw \<noteq> [] \<and> \<not> containsValue raw value then Some BadValue else None
        | _ \<Rightarrow> None)"

(* src/pkg/core/schema.go:193-204 validateObject *)
definition checkRequired :: "json_object \<Rightarrow> json_object \<Rightarrow> schema_fault option" where
  "checkRequired schema value =
     (case map_of schema ''required'' of
        Some (JArr raw) \<Rightarrow>
          check_all (\<lambda>item. case item of
                       JStr name \<Rightarrow> if map_of value name = None then Some BadValue else None
                     | _ \<Rightarrow> None) raw
      | _ \<Rightarrow> None)"

definition schemaProperties :: "json_object \<Rightarrow> json_object option" where
  "schemaProperties schema = (case map_of schema ''properties'' of Some (JObj ps) \<Rightarrow> Some ps | _ \<Rightarrow> None)"

definition declared :: "json_object \<Rightarrow> string \<Rightarrow> bool" where
  "declared schema name =
     (case schemaProperties schema of None \<Rightarrow> False | Some ps \<Rightarrow> map_of ps name \<noteq> None)"

(* src/pkg/core/schema.go:241-247 validateArray *)
definition checkItems :: "json_object \<Rightarrow> nat \<Rightarrow> schema_fault option" where
  "checkItems schema n =
     (if (case numberField schema ''minItems'' of Some v \<Rightarrow> of_nat n < v | None \<Rightarrow> False) then Some BadValue
      else if (case numberField schema ''maxItems'' of Some v \<Rightarrow> of_nat n > v | None \<Rightarrow> False) then Some BadValue
      else None)"

(* src/pkg/core/schema.go:139-258 validateValue *)
function validateValue :: "regexp \<Rightarrow> json_object \<Rightarrow> json \<Rightarrow> schema_fault option"
  and validateObject :: "regexp \<Rightarrow> json_object \<Rightarrow> json_object \<Rightarrow> schema_fault option"
  and validateArray :: "regexp \<Rightarrow> json_object \<Rightarrow> json list \<Rightarrow> schema_fault option"
where
  "validateValue rx schema value =
     first_err (checkTypeEnum schema value)
       (case value of
          JObj typed \<Rightarrow> validateObject rx schema typed
        | JArr typed \<Rightarrow> validateArray rx schema typed
        | JStr typed \<Rightarrow> validateString rx schema typed
        | _ \<Rightarrow> validateNumber schema value)"
| "validateObject rx schema value =
     first_err (checkRequired schema value)
      (first_err
        (case map_of schema ''additionalProperties'' of
           Some (JBool b) \<Rightarrow>
             if \<not> b then check_all (\<lambda>(name, _). if declared schema name then None else Some BadValue) value
             else None
         | Some (JObj additionalSchema) \<Rightarrow>
             check_all (\<lambda>(name, child).
               if declared schema name then None else validateValue rx additionalSchema child) value
         | _ \<Rightarrow> None)
        (case schemaProperties schema of
           None \<Rightarrow> None
         | Some properties \<Rightarrow>
             check_all (\<lambda>(name, sub).
               case sub of
                 JObj subSchema \<Rightarrow>
                   (case map_of value name of
                      None \<Rightarrow> None
                    | Some child \<Rightarrow> validateValue rx subSchema child)
               | _ \<Rightarrow> None) properties))"
| "validateArray rx schema value =
     first_err (checkItems schema (length value))
       (case map_of schema ''items'' of
          Some (JObj items) \<Rightarrow> check_all (validateValue rx items) value
        | _ \<Rightarrow> None)"
  by pat_completeness auto
termination
  by (relation "measure (\<lambda>x. case x of
        Inl (_, _, v) \<Rightarrow> 2 * size v + 1
      | Inr (Inl (_, _, fs)) \<Rightarrow> 2 * size (JObj fs)
      | Inr (Inr (_, _, xs)) \<Rightarrow> 2 * size (JArr xs))")
    (auto dest: member_size map_of_size element_size simp del: json.size)

declare validateValue.simps [simp del] validateObject.simps [simp del] validateArray.simps [simp del]

(* src/pkg/core/schema.go:113-128 ValidateArgs *)
definition validateArgs :: "regexp \<Rightarrow> json_object option \<Rightarrow> json_object \<Rightarrow> schema_fault option" where
  "validateArgs rx schema args =
     (case schema of
        None \<Rightarrow> None
      | Some s \<Rightarrow> if s = [] then None else validateValue rx s (JObj args))"

(* src/pkg/core/schema.go:130-137 ValidateJSONValue *)
definition validateJSONValue :: "regexp \<Rightarrow> json_object option \<Rightarrow> json \<Rightarrow> schema_fault option" where
  "validateJSONValue rx schema val =
     (case schema of
        None \<Rightarrow> None
      | Some s \<Rightarrow> if s = [] then None else validateValue rx s val)"

section \<open>Facts\<close>

lemma validateSchemaNode_Cons:
  assumes "validateSchemaNode rx schema" "schema \<noteq> []"
  shows schema_type_ok: "map_of schema ''type'' = Some raw \<Longrightarrow> schemaTypeNames raw \<noteq> None"
    and schema_pattern_ok: "map_of schema ''pattern'' = Some (JStr p) \<Longrightarrow> rx p \<noteq> None"
    and schema_additional_ok: "map_of schema ''additionalProperties'' = Some (JObj a) \<Longrightarrow> validateSchemaNode rx a"
    and schema_properties_ok: "map_of schema ''properties'' = Some (JObj ps) \<Longrightarrow> (n, JObj c) \<in> set ps \<Longrightarrow> validateSchemaNode rx c"
    and schema_items_ok: "map_of schema ''items'' = Some (JObj i) \<Longrightarrow> validateSchemaNode rx i"
  using assms by (auto simp: validateSchemaNode.simps[of rx schema] list_all_iff)

lemma checkTypeEnum_not_BadSchema:
  assumes "validateSchemaNode rx schema"
  shows "checkTypeEnum schema value \<noteq> Some BadSchema"
proof (cases "schema = []")
  case False
  then show ?thesis
    using schema_type_ok[OF assms False]
    by (auto simp: checkTypeEnum_def first_err_Some split: option.splits json.splits if_splits)
qed (simp add: checkTypeEnum_def)

lemma validateString_not_BadSchema:
  assumes "validateSchemaNode rx schema"
  shows "validateString rx schema value \<noteq> Some BadSchema"
proof (cases "schema = []")
  case False
  then show ?thesis
    using schema_pattern_ok[OF assms False]
    by (auto simp: validateString_def Let_def split: option.splits json.splits if_splits)
qed (simp add: validateString_def numberField_def)

lemma check_BadValue_only:
  "validateNumber schema v \<noteq> Some BadSchema"
  "checkRequired schema fs \<noteq> Some BadSchema"
  "checkItems schema n \<noteq> Some BadSchema"
  by (auto simp: validateNumber_def checkRequired_def checkItems_def
      split: option.splits json.splits if_splits prod.splits dest!: check_all_SomeD)

lemma validate_not_BadSchema:
  "validateSchemaNode rx schema \<Longrightarrow> validateValue rx schema v \<noteq> Some BadSchema"
  "validateSchemaNode rx schema \<Longrightarrow> validateObject rx schema fs \<noteq> Some BadSchema"
  "validateSchemaNode rx schema \<Longrightarrow> validateArray rx schema xs \<noteq> Some BadSchema"
proof (induction rx schema v and rx schema fs and rx schema xs
    rule: validateValue_validateObject_validateArray.induct)
  case (1 rx schema v)
  then show ?case
    using checkTypeEnum_not_BadSchema[OF "1.prems"] validateString_not_BadSchema[OF "1.prems"] check_BadValue_only
    by (auto simp: validateValue.simps[of rx schema v] first_err_Some split: json.splits)
next
  case (2 rx schema fs)
  show ?case
  proof (cases "schema = []")
    case False
    note ok = validateSchemaNode_Cons[OF "2.prems" False]
    have extra: "validateValue rx a c \<noteq> Some BadSchema"
      if "map_of schema ''additionalProperties'' = Some (JObj a)" "(n, c) \<in> set fs" "\<not> declared schema n" for a n c
      using "2.IH"(1)[OF that(1) refl that(2) refl that(3)] ok(3)[OF that(1)] by blast
    have sub_ok: "validateValue rx sub c \<noteq> Some BadSchema"
      if "schemaProperties schema = Some ps" "(n, JObj sub) \<in> set ps" "map_of fs n = Some c" for ps n sub c
    proof -
      have "map_of schema ''properties'' = Some (JObj ps)"
        using that(1) by (auto simp: schemaProperties_def split: option.splits json.splits)
      from ok(4)[OF this that(2)] show ?thesis
        using "2.IH"(2)[OF that(1,2) refl refl that(3)] by blast
    qed
    have "(case map_of schema ''additionalProperties'' of
           Some (JBool b) \<Rightarrow>
             if \<not> b then check_all (\<lambda>(name, _). if declared schema name then None else Some BadValue) fs else None
         | Some (JObj a) \<Rightarrow>
             check_all (\<lambda>(name, c). if declared schema name then None else validateValue rx a c) fs
         | _ \<Rightarrow> None) \<noteq> Some BadSchema"
      by (auto split: option.splits json.splits if_splits dest!: check_all_SomeD dest: extra)
    moreover have "(case schemaProperties schema of
           None \<Rightarrow> None
         | Some ps \<Rightarrow> check_all (\<lambda>(name, sub). case sub of
                 JObj s \<Rightarrow> (case map_of fs name of None \<Rightarrow> None | Some c \<Rightarrow> validateValue rx s c)
               | _ \<Rightarrow> None) ps) \<noteq> Some BadSchema"
      by (auto split: option.splits json.splits dest!: check_all_SomeD dest: sub_ok)
    ultimately show ?thesis
      unfolding validateObject.simps[of rx schema fs] by (simp add: first_err_Some check_BadValue_only(2))
  qed (simp add: validateObject.simps checkRequired_def schemaProperties_def)
next
  case (3 rx schema xs)
  show ?case
  proof (cases "schema = []")
    case False
    then show ?thesis
      using schema_items_ok[OF "3.prems" False] check_BadValue_only(3) "3.IH"
      by (auto simp: validateArray.simps[of rx schema xs] first_err_Some
          split: option.splits json.splits dest!: check_all_SomeD)
  qed (simp add: validateArray.simps checkItems_def numberField_def)
qed

section \<open>Properties\<close>

text \<open>C36: A schema accepted at registration is never blamed at call time: validating arguments or a
  JSON result against it can only reject the value, whatever the regular-expression engine.\<close>
theorem registered_schema_never_blamed:
  assumes "validateSchema rx schema"
  shows "validateArgs rx schema args \<noteq> Some BadSchema \<and> validateJSONValue rx schema v \<noteq> Some BadSchema"
  using assms validate_not_BadSchema(1)
  by (auto simp: validateArgs_def validateJSONValue_def validateSchema_def split: option.splits)

definition ex_schema :: json_object where
  "ex_schema =
     [(''type'', JStr ''object''), (''required'', JArr [JStr ''city'']),
      (''additionalProperties'', JBool False),
      (''properties'', JObj [(''city'', JObj [(''type'', JStr ''string''), (''pattern'', JStr ''^x'')])])]"

definition ex_regexp :: regexp where
  "ex_regexp p = (if p = ''^x'' then Some (\<lambda>s. has_prefix s ''x'') else None)"

theorem registered_schema_never_blamed_witness:
  "validateSchema ex_regexp (Some ex_schema)
   \<and> validateArgs ex_regexp (Some ex_schema) [(''city'', JStr ''y'')] = Some BadValue
   \<and> validateArgs ex_regexp (Some ex_schema) [(''city'', JStr ''y'')] \<noteq> Some BadSchema"
proof -
  have "validateSchema ex_regexp (Some ex_schema)" by code_simp
  moreover have "validateArgs ex_regexp (Some ex_schema) [(''city'', JStr ''y'')] = Some BadValue" by code_simp
  ultimately show ?thesis using registered_schema_never_blamed by blast
qed

text \<open>C37: Arguments accepted against a schema with \<open>additionalProperties: false\<close> contain every
  required property, only declared properties, and each declared property they contain is itself
  accepted by its sub-schema.\<close>
theorem validated_args_closed:
  assumes "validateArgs rx (Some schema) args = None"
    and "map_of schema ''additionalProperties'' = Some (JBool False)"
    and "map_of schema ''properties'' = Some (JObj ps)"
  shows "(\<forall>raw name. map_of schema ''required'' = Some (JArr raw) \<and> JStr name \<in> set raw
            \<longrightarrow> map_of args name \<noteq> None)
    \<and> fst ` set args \<subseteq> fst ` set ps
    \<and> (\<forall>name sub c. (name, JObj sub) \<in> set ps \<and> map_of args name = Some c
            \<longrightarrow> validateValue rx sub c = None)"
proof -
  have "schema \<noteq> []" using assms(2) by auto
  then have none: "validateObject rx schema args = None"
    using assms(1) by (auto simp: validateArgs_def validateValue.simps)
  have ps: "schemaProperties schema = Some ps" using assms(3) by (simp add: schemaProperties_def)
  from none have req: "checkRequired schema args = None"
    and decl: "\<forall>(n, _) \<in> set args. declared schema n"
    and sub: "\<forall>(n, s) \<in> set ps. (case s of
        JObj s \<Rightarrow> (case map_of args n of None \<Rightarrow> None | Some c \<Rightarrow> validateValue rx s c) | _ \<Rightarrow> None) = None"
    using assms(2) ps by (auto simp: validateObject.simps[of rx schema args] split: if_splits)
  have "map_of args name \<noteq> None"
    if "map_of schema ''required'' = Some (JArr raw)" "JStr name \<in> set raw" for raw name
    using req that by (auto simp: checkRequired_def split: if_splits)
  moreover have "fst ` set args \<subseteq> fst ` set ps"
    using decl ps by (fastforce simp: declared_def map_of_eq_None_iff)
  moreover have "validateValue rx sub c = None"
    if "(name, JObj sub) \<in> set ps" "map_of args name = Some c" for name sub c
    using sub that by fastforce
  ultimately show ?thesis by blast
qed

theorem validated_args_closed_witness:
  "validateArgs ex_regexp (Some ex_schema) [(''city'', JStr ''xy'')] = None
   \<and> fst ` set [(''city'', JStr ''xy'')] \<subseteq> fst ` set [(''city'', JObj [(''type'', JStr ''string''), (''pattern'', JStr ''^x'')])]"
proof -
  have ok: "validateArgs ex_regexp (Some ex_schema) [(''city'', JStr ''xy'')] = None" by code_simp
  moreover have "map_of ex_schema ''additionalProperties'' = Some (JBool False)"
    "map_of ex_schema ''properties'' = Some (JObj [(''city'', JObj [(''type'', JStr ''string''), (''pattern'', JStr ''^x'')])])"
    by (simp_all add: ex_schema_def)
  ultimately show ?thesis using validated_args_closed by blast
qed

end
