(* ===== verification/Scope_Path.thy ===== *)
theory Scope_Path
  imports Go_Text
begin

text \<open>
  The ownership hierarchy of \<open>src/pkg/core/scope.go\<close>: a scope path is a root-to-leaf list of
  (kind, id) segments whose kinds have strictly increasing ranks. Every registry of the kernel is
  keyed by the rendered path, so the central facts here are that rendering is injective on valid
  paths and that \<open>Prefixes\<close> enumerates exactly the ancestors, root first.
\<close>

section \<open>Model\<close>

(* src/pkg/core/scope.go:9-21 ScopeKind *)
type_synonym scope_kind = string

definition ScopeGlobal :: scope_kind where "ScopeGlobal = ''global''"
definition ScopeDeployment :: scope_kind where "ScopeDeployment = ''deployment''"
definition ScopeProduct :: scope_kind where "ScopeProduct = ''product''"
definition ScopeTenant :: scope_kind where "ScopeTenant = ''tenant''"
definition ScopeWorkspace :: scope_kind where "ScopeWorkspace = ''workspace''"
definition ScopeUser :: scope_kind where "ScopeUser = ''user''"
definition ScopeSession :: scope_kind where "ScopeSession = ''session''"
definition ScopeRun :: scope_kind where "ScopeRun = ''run''"

lemmas scope_kind_defs = ScopeGlobal_def ScopeDeployment_def ScopeProduct_def ScopeTenant_def
  ScopeWorkspace_def ScopeUser_def ScopeSession_def ScopeRun_def

(* src/pkg/core/scope.go:23-26 scopeRanks *)
definition scopeRanks :: "(scope_kind, int) gomap" where
  "scopeRanks =
     [(ScopeGlobal, 0), (ScopeDeployment, 10), (ScopeProduct, 20), (ScopeTenant, 30),
      (ScopeWorkspace, 40), (ScopeUser, 50), (ScopeSession, 60), (ScopeRun, 70)]"

(* src/pkg/core/scope.go:28-32 ScopeRef *)
record scope_ref =
  sr_kind :: scope_kind
  sr_id :: string

(* src/pkg/core/scope.go:34-37 ScopePath *)
type_synonym scope_path = "scope_ref list"

datatype scope_error =
    ScopePathEmpty
  | ScopeKindUnknown nat scope_kind
  | ScopeIdEmpty nat
  | ScopeIdReserved nat string
  | ScopeOutOfOrder scope_kind

text \<open>The loop of \<open>NewScopePath\<close> from segment \<open>i\<close> on, with the rank of the segment before it.\<close>

(* src/pkg/core/scope.go:45-61 NewScopePath *)
fun scan_segments :: "nat \<Rightarrow> int \<Rightarrow> scope_ref list \<Rightarrow> scope_error + unit" where
  "scan_segments i previous [] = Inr ()"
| "scan_segments i previous (s # ss) =
     (case map_of scopeRanks (sr_kind s) of
        None \<Rightarrow> Inl (ScopeKindUnknown i (sr_kind s))
      | Some rank \<Rightarrow>
          if blank (sr_id s) then Inl (ScopeIdEmpty i)
          else if contains_any (sr_id s) [CHR ''/'', CHR 0x00] then Inl (ScopeIdReserved i (sr_id s))
          else if rank \<le> previous then Inl (ScopeOutOfOrder (sr_kind s))
          else scan_segments (Suc i) rank ss)"

(* src/pkg/core/scope.go:39-63 NewScopePath *)
definition newScopePath :: "scope_ref list \<Rightarrow> scope_error + scope_path" where
  "newScopePath segments =
     (if segments = [] then Inl ScopePathEmpty
      else rbind (scan_segments 0 (- 1) segments) (\<lambda>_. Inr segments))"

(* src/pkg/core/scope.go:74-78 Child *)
definition childScope :: "scope_path \<Rightarrow> scope_ref \<Rightarrow> scope_error + scope_path" where
  "childScope p ref = newScopePath (p @ [ref])"

(* src/pkg/core/scope.go:88-99 IsAncestorOf *)
definition isAncestorOf :: "scope_path \<Rightarrow> scope_path \<Rightarrow> bool" where
  "isAncestorOf p other =
     (if length p > length other then False
      else list_all (\<lambda>i. p ! i = other ! i) [0..<length p])"

(* src/pkg/core/scope.go:101-108 Prefixes *)
definition scopePrefixes :: "scope_path \<Rightarrow> scope_path list" where
  "scopePrefixes p = map (\<lambda>i. take (i + 1) p) [0..<length p]"

(* src/pkg/core/scope.go:110-113 Equal *)
definition scopeEqual :: "scope_path \<Rightarrow> scope_path \<Rightarrow> bool" where
  "scopeEqual p other \<longleftrightarrow> isAncestorOf p other \<and> length p = length other"

(* src/pkg/core/scope.go:115-122 String *)
definition scopeString :: "scope_path \<Rightarrow> string" where
  "scopeString p = join_with ''/'' (map (\<lambda>s. sr_kind s @ '':'' @ sr_id s) p)"

text \<open>
  \<open>UnmarshalJSON\<close> after the decoder has produced the segments: the same validation as the
  constructor, and the receiver is assigned only on success.
\<close>

(* src/pkg/core/scope.go:129-141 UnmarshalJSON *)
definition unmarshalScope :: "scope_path \<Rightarrow> scope_ref list \<Rightarrow> scope_error option \<times> scope_path" where
  "unmarshalScope p segments =
     (case newScopePath segments of Inl e \<Rightarrow> (Some e, p) | Inr q \<Rightarrow> (None, q))"

section \<open>Well-formed paths\<close>

definition segment_ok :: "scope_ref \<Rightarrow> bool" where
  "segment_ok s \<longleftrightarrow> sr_kind s \<in> fst ` set scopeRanks \<and> \<not> blank (sr_id s)
     \<and> \<not> contains_any (sr_id s) [CHR ''/'', CHR 0x00]"

definition segment_rank :: "scope_ref \<Rightarrow> int" where
  "segment_rank s = mget 0 scopeRanks (sr_kind s)"

text \<open>The specification of a valid path, independent of the scan.\<close>

definition scope_ok :: "scope_path \<Rightarrow> bool" where
  "scope_ok p \<longleftrightarrow> p \<noteq> [] \<and> list_all segment_ok p \<and> sorted_wrt (<) (map segment_rank p)"

lemma scopeRanks_distinct: "gomap_ok scopeRanks"
  by (simp add: scopeRanks_def scope_kind_defs)

lemma rank_nonneg: "map_of scopeRanks k = Some r \<Longrightarrow> 0 \<le> r"
  by (auto simp: scopeRanks_def split: if_splits)

lemma known_kind_iff: "k \<in> fst ` set scopeRanks \<longleftrightarrow> (\<exists>r. map_of scopeRanks k = Some r)"
  by (metis domD domI dom_map_of_conv_image_fst)

lemma scan_segments_ok_iff:
  "is_ok (scan_segments i previous ss) \<longleftrightarrow>
     list_all segment_ok ss \<and> sorted_wrt (<) (map segment_rank ss)
     \<and> (\<forall>s \<in> set ss. previous < segment_rank s)"
proof (induction ss arbitrary: i previous)
  case (Cons s ss)
  show ?case
  proof (cases "map_of scopeRanks (sr_kind s)")
    case None
    then show ?thesis by (simp add: segment_ok_def known_kind_iff)
  next
    case (Some rank)
    then have r: "segment_rank s = rank" and k: "sr_kind s \<in> fst ` set scopeRanks"
      by (simp_all add: segment_rank_def mget_def known_kind_iff)
    have "\<forall>t \<in> set ss. rank < segment_rank t \<Longrightarrow> previous < rank \<Longrightarrow> \<forall>t \<in> set ss. previous < segment_rank t"
      by force
    with Some r k Cons.IH[of "Suc i" rank] show ?thesis
      by (auto simp: segment_ok_def)
  qed
qed simp

lemma segment_rank_nonneg: "segment_ok s \<Longrightarrow> 0 \<le> segment_rank s"
  by (auto simp: segment_ok_def segment_rank_def mget_def known_kind_iff rank_nonneg)

lemma newScopePath_eq: "newScopePath ss = Inr p \<longleftrightarrow> p = ss \<and> scope_ok ss"
proof -
  have "list_all segment_ok ss \<Longrightarrow> \<forall>s \<in> set ss. - 1 < segment_rank s"
    by (auto simp: list_all_iff dest!: segment_rank_nonneg)
  then have "(\<exists>u. scan_segments 0 (- 1) ss = Inr u) \<longleftrightarrow>
      list_all segment_ok ss \<and> sorted_wrt (<) (map segment_rank ss)"
    using scan_segments_ok_iff[of 0 "- 1" ss] by (auto simp: is_ok_iff)
  then show ?thesis
    by (auto simp: newScopePath_def scope_ok_def rbind_eq_Inr)
qed

lemma scope_ok_prefix:
  assumes "scope_ok p" "prefix q p" "q \<noteq> []"
  shows "scope_ok q"
proof -
  from assms(2) obtain r where "p = q @ r" by (auto elim: prefixE)
  with assms(1,3) show ?thesis by (auto simp: scope_ok_def sorted_wrt_append)
qed

section \<open>Ancestry is the prefix order\<close>

lemma isAncestorOf_prefix: "isAncestorOf p q \<longleftrightarrow> prefix p q"
proof
  assume anc: "isAncestorOf p q"
  then have le: "length p \<le> length q" by (auto simp: isAncestorOf_def split: if_splits)
  have "p = take (length p) q"
  proof (rule nth_equalityI)
    show "length p = length (take (length p) q)" using le by simp
    fix i assume "i < length p"
    with anc le show "p ! i = take (length p) q ! i"
      by (auto simp: isAncestorOf_def list_all_iff)
  qed
  then show "prefix p q" by (metis take_is_prefix)
next
  assume "prefix p q"
  then obtain r where "q = p @ r" by (auto elim: prefixE)
  then show "isAncestorOf p q" by (auto simp: isAncestorOf_def list_all_iff nth_append)
qed

lemma scopeEqual_iff [simp]: "scopeEqual p q \<longleftrightarrow> p = q"
  by (auto simp: scopeEqual_def isAncestorOf_prefix elim: prefixE)

interpretation anc: partial_preordering isAncestorOf
  by unfold_locales (auto simp: isAncestorOf_prefix)

lemma in_scopePrefixes: "q \<in> set (scopePrefixes p) \<longleftrightarrow> q \<noteq> [] \<and> isAncestorOf q p"
proof
  assume "q \<in> set (scopePrefixes p)"
  then obtain i where "i < length p" "q = take (i + 1) p"
    by (auto simp: scopePrefixes_def)
  then show "q \<noteq> [] \<and> isAncestorOf q p"
    by (cases p) (auto simp: isAncestorOf_prefix take_is_prefix)
next
  assume "q \<noteq> [] \<and> isAncestorOf q p"
  then obtain r where p: "p = q @ r" and "q \<noteq> []"
    by (auto simp: isAncestorOf_prefix elim: prefixE)
  then have "q = take ((length q - 1) + 1) p" and "length q - 1 < length p"
    by (cases q; simp)+
  then show "q \<in> set (scopePrefixes p)"
    unfolding scopePrefixes_def by (metis (no_types, lifting) atLeast0LessThan image_eqI
      lessThan_iff list.set_map set_upt)
qed

lemma length_scopePrefixes [simp]: "length (scopePrefixes p) = length p"
  by (simp add: scopePrefixes_def)

lemma scopePrefixes_append:
  "scopePrefixes (p @ r) = scopePrefixes p @ map (\<lambda>i. p @ take (i + 1) r) [0..<length r]"
proof -
  have "map (\<lambda>i. take (i + 1) (p @ r)) [0..<length p] = map (\<lambda>i. take (i + 1) p) [0..<length p]"
    by (rule map_cong) auto
  moreover have "map (\<lambda>i. take (i + 1) (p @ r)) [length p..<length p + length r]
      = map (\<lambda>i. p @ take (i + 1) r) [0..<length r]"
    by (rule nth_equalityI) auto
  ultimately show ?thesis
    by (simp add: scopePrefixes_def upt_add_eq_append[OF le0, of "length p" "length r"])
qed

lemma scopePrefixes_sorted: "sorted_wrt strict_prefix (scopePrefixes p)"
proof (rule sorted_wrt_iff_nth_less[THEN iffD2], intro allI impI)
  fix i j assume ij: "i < j" "j < length (scopePrefixes p)"
  then have "prefix (take (i + 1) p) (take (j + 1) p)"
    by (metis add_le_mono1 less_imp_le_nat take_is_prefix take_take min.absorb1)
  moreover have "length (take (i + 1) p) < length (take (j + 1) p)" using ij by simp
  ultimately have "strict_prefix (take (i + 1) p) (take (j + 1) p)"
    by (metis less_irrefl strict_prefixI)
  with ij show "strict_prefix (scopePrefixes p ! i) (scopePrefixes p ! j)"
    by (simp add: scopePrefixes_def)
qed

lemma scopePrefixes_distinct: "distinct (scopePrefixes p)"
proof -
  have "sorted_wrt (\<noteq>) (scopePrefixes p)"
    using scopePrefixes_sorted[of p] by (rule sorted_wrt_mono_rel[rotated]) auto
  then show ?thesis by (simp add: distinct_conv_nth sorted_wrt_iff_nth_less) (metis nat_neq_iff)
qed

section \<open>Rendering\<close>

definition render_segment :: "scope_ref \<Rightarrow> string" where
  "render_segment s = sr_kind s @ '':'' @ sr_id s"

lemma known_kind_no_delims:
  assumes "k \<in> fst ` set scopeRanks"
  shows "CHR ''/'' \<notin> set k" "CHR '':'' \<notin> set k"
  using assms by (auto simp: scopeRanks_def scope_kind_defs)

lemma render_segment_no_slash: "segment_ok s \<Longrightarrow> CHR ''/'' \<notin> set (render_segment s)"
  by (auto simp: segment_ok_def render_segment_def contains_any_def list_ex_iff known_kind_no_delims)

lemma append_delim_inj:
  assumes "d \<notin> set a" "d \<notin> set b" "a @ d # x = b @ d # y"
  shows "a = b \<and> x = y"
  using assms by (induction a arbitrary: b) (auto simp: Cons_eq_append_conv)

lemma render_segment_inj:
  assumes "segment_ok s" "segment_ok t" "render_segment s = render_segment t"
  shows "s = t"
proof -
  have "sr_kind s = sr_kind t \<and> sr_id s = sr_id t"
    using assms append_delim_inj[of "CHR '':''" "sr_kind s" "sr_kind t" "sr_id s" "sr_id t"]
    by (auto simp: segment_ok_def render_segment_def known_kind_no_delims)
  then show ?thesis by simp
qed

lemma scopeString_split:
  assumes "scope_ok p"
  shows "split_on (CHR ''/'') (scopeString p) = map render_segment p"
proof -
  have "\<forall>s \<in> set (map render_segment p). CHR ''/'' \<notin> set s"
    using assms render_segment_no_slash by (auto simp: scope_ok_def list_all_iff)
  moreover have "map render_segment p \<noteq> []" using assms by (simp add: scope_ok_def)
  ultimately have "split_on (CHR ''/'') (join_with [CHR ''/''] (map render_segment p)) = map render_segment p"
    by (rule split_on_join[rotated])
  then show ?thesis by (simp add: scopeString_def render_segment_def [abs_def])
qed

lemma scopeString_inj:
  assumes "scope_ok p" "scope_ok q" "scopeString p = scopeString q"
  shows "p = q"
proof -
  have "map render_segment p = map render_segment q"
    using assms scopeString_split by metis
  moreover have "inj_on render_segment (set p \<union> set q)"
    using assms render_segment_inj by (auto simp: inj_on_def scope_ok_def list_all_iff)
  ultimately show ?thesis by (rule map_inj_on)
qed

lemma scope_ok_length: "scope_ok p \<Longrightarrow> length p \<le> 8"
proof -
  assume ok: "scope_ok p"
  let ?R = "{0, 10, 20, 30, 40, 50, 60, 70 :: int}"
  have "set (map segment_rank p) \<subseteq> ?R"
    using ok by (auto simp: scope_ok_def list_all_iff segment_ok_def segment_rank_def mget_def
      scopeRanks_def scope_kind_defs split: if_splits)
  moreover have "distinct (map segment_rank p)"
    using ok by (auto simp: scope_ok_def strict_sorted_iff)
  ultimately have "length (map segment_rank p) \<le> card ?R"
    by (metis (no_types, lifting) card_mono distinct_card finite.emptyI finite.insertI)
  then show ?thesis by simp
qed

lemma childScope_eq: "childScope p ref = Inr q \<longleftrightarrow> q = p @ [ref] \<and> scope_ok q"
  by (auto simp: childScope_def newScopePath_eq)

section \<open>Properties\<close>

text \<open>C39: Rendering is injective on the paths the constructor accepts: two valid scope paths with the
  same string are the same path, so scope strings are safe registry keys.\<close>
theorem scope_string_injective:
  assumes "newScopePath ss = Inr p" "newScopePath ts = Inr q" "scopeString p = scopeString q"
  shows "p = q"
  using assms scopeString_inj by (auto simp: newScopePath_eq)

theorem scope_string_injective_witness:
  "\<lparr> sr_kind = ScopeTenant, sr_id = ''a:b'' \<rparr> = \<lparr> sr_kind = ScopeTenant, sr_id = ''a:b'' \<rparr>
   \<and> is_ok (newScopePath [\<lparr> sr_kind = ScopeTenant, sr_id = ''a:b'' \<rparr>])"
proof -
  let ?s = "\<lparr> sr_kind = ScopeTenant, sr_id = ''a:b'' \<rparr>"
  have ok: "is_ok (newScopePath [?s])" by code_simp
  then obtain p where p: "newScopePath [?s] = Inr p" by (auto simp: is_ok_iff)
  have "p = p" by (rule scope_string_injective[OF p p refl])
  with ok show ?thesis by simp
qed

text \<open>The constructor accepts a segment list exactly when it is non-empty, every segment has a
  known kind and a non-blank id free of the reserved delimiters, and the ranks strictly increase; on
  success the path is the list itself, and \<open>Prefixes\<close> of it lists exactly its non-empty ancestors,
  each once, ordered from the root.\<close>
theorem scope_path_spec:
  "(newScopePath ss = Inr p \<longleftrightarrow> p = ss \<and> scope_ok ss)
   \<and> set (scopePrefixes p) = {q. q \<noteq> [] \<and> isAncestorOf q p}
   \<and> distinct (scopePrefixes p) \<and> sorted_wrt strict_prefix (scopePrefixes p)"
  by (simp add: newScopePath_eq set_eq_iff in_scopePrefixes scopePrefixes_distinct scopePrefixes_sorted)

end
