(* ===== verification/Scoped_Registry.thy ===== *)
theory Scoped_Registry
  imports Scope_Path "HOL-Library.Multiset"
begin

text \<open>
  The storage discipline that the capability, policy and credential registries of
  \<open>src/pkg/core\<close> share: contributions are kept per rendered scope, each with the value of a
  global counter, under a cap on their total number; mounting returns a handle (the scope key and
  the counter value its closure captured) and unmounting deletes exactly the contribution of that
  handle. The three Go structs differ only in the element type, which is a parameter here.

  The locale \<open>mountable\<close> states what clients rely on (a mount appends under a fresh handle, an
  unmount filters that handle out, both keep the invariant) and derives from it that unmounting a
  batch of handles in any order, with foreign mounts in between, removes exactly that batch.
\<close>

section \<open>Model\<close>

(* src/pkg/core/capability.go:110-117 CapabilityRegistry *)
record 'b registry =
  reg_bindings :: "(string, ('b \<times> nat) list) gomap"
  reg_next :: nat
  reg_max :: int

definition MaxRegistryBindings :: int where
  "MaxRegistryBindings = 4096"

(* src/pkg/core/capability.go:119-122 NewCapabilityRegistry *)
definition newRegistry :: "'b registry" where
  "newRegistry = \<lparr> reg_bindings = [], reg_next = 0, reg_max = 0 \<rparr>"

(* src/pkg/core/capability.go:1009-1014 registryCap *)
definition registryCap :: "int \<Rightarrow> int" where
  "registryCap mx = (if mx > 0 then mx else MaxRegistryBindings)"

(* src/pkg/core/capability.go:1016-1022 scopedBindingCount *)
definition scopedBindingCount :: "(string, 'a list) gomap \<Rightarrow> nat" where
  "scopedBindingCount items = foldl (\<lambda>count (_, xs). count + length xs) 0 items"

type_synonym mount_handle = "string \<times> nat"

text \<open>The locked section of \<open>Mount\<close>: the capacity test, the counter and the append.\<close>

(* src/pkg/core/capability.go:174-196 Mount *)
definition registryPush :: "string \<Rightarrow> 'b \<Rightarrow> 'b registry \<Rightarrow> (mount_handle \<times> 'b registry) option" where
  "registryPush key b r =
     (if int (scopedBindingCount (reg_bindings r)) \<ge> registryCap (reg_max r) then None
      else let order = reg_next r + 1 in
        Some ((key, order),
              r\<lparr> reg_next := order,
                 reg_bindings := mput key (mget [] (reg_bindings r) key @ [(b, order)]) (reg_bindings r) \<rparr>))"

fun remove_order :: "nat \<Rightarrow> ('b \<times> nat) list \<Rightarrow> ('b \<times> nat) list option" where
  "remove_order order [] = None"
| "remove_order order ((b, ord) # xs) =
     (if ord = order then Some xs else map_option ((#) (b, ord)) (remove_order order xs))"

text \<open>
  The body of the unmount closure. The \<open>sync.Once\<close> around it only suppresses repetitions, which
  \<open>registryUnmount_idem\<close> below shows to be no-ops anyway.
\<close>

(* src/pkg/core/capability.go:184-196 Mount *)
definition registryUnmount :: "mount_handle \<Rightarrow> 'b registry \<Rightarrow> 'b registry" where
  "registryUnmount h r =
     (let (key, order) = h; current = mget [] (reg_bindings r) key in
        case remove_order order current of
          None \<Rightarrow> r
        | Some rest \<Rightarrow> r\<lparr> reg_bindings := mput key rest (reg_bindings r) \<rparr>)"

text \<open>The copy of one scope's contributions, stably sorted by order, that resolution walks.\<close>

(* src/pkg/core/capability.go:353-355 resolveEntriesLocked *)
definition registryLayer :: "'b registry \<Rightarrow> scope_path \<Rightarrow> ('b \<times> nat) list" where
  "registryLayer r p = sort_key snd (mget [] (reg_bindings r) (scopeString p))"

definition registryWalk :: "'b registry \<Rightarrow> scope_path \<Rightarrow> ('b \<times> nat) list" where
  "registryWalk r target = concat (map (registryLayer r) (scopePrefixes target))"

section \<open>Invariant\<close>

abbreviation reg_view :: "'b registry \<Rightarrow> string \<Rightarrow> ('b \<times> nat) list" where
  "reg_view r k \<equiv> mget [] (reg_bindings r) k"

text \<open>
  Keys are distinct, orders are below the counter, strictly increasing within a scope and distinct
  between scopes, and the number of contributions is within the cap.
\<close>

definition registry_inv :: "'b registry \<Rightarrow> bool" where
  "registry_inv r \<longleftrightarrow> gomap_ok (reg_bindings r)
     \<and> (\<forall>k b ord. (b, ord) \<in> set (reg_view r k) \<longrightarrow> ord \<le> reg_next r)
     \<and> (\<forall>k. sorted_wrt (<) (map snd (reg_view r k)))
     \<and> (\<forall>k l b c ord. (b, ord) \<in> set (reg_view r k) \<longrightarrow> (c, ord) \<in> set (reg_view r l) \<longrightarrow> k = l)
     \<and> int (scopedBindingCount (reg_bindings r)) \<le> registryCap (reg_max r)"

lemma scopedBindingCount_sum: "scopedBindingCount m = (\<Sum>(_, xs) \<leftarrow> m. length xs)"
proof -
  have "foldl (\<lambda>count (_, xs). count + length xs) n m = n + (\<Sum>(_, xs) \<leftarrow> m. length xs)" for n
    by (induction m arbitrary: n) auto
  then show ?thesis by (simp add: scopedBindingCount_def)
qed

lemma scopedBindingCount_mput:
  assumes "gomap_ok m"
  shows "int (scopedBindingCount (mput k xs m))
    = int (scopedBindingCount m) - int (length (mget [] m k)) + int (length xs)"
  using assms
proof (induction m)
  case Nil
  then show ?case by (simp add: scopedBindingCount_sum mget_def)
next
  case (Cons p m)
  obtain a ys where p: "p = (a, ys)" by force
  have "a = k \<Longrightarrow> map_of m k = None"
    using Cons.prems p by (auto simp: map_of_eq_None_iff)
  then show ?case
    using Cons p by (auto simp: scopedBindingCount_sum mget_def)
qed

lemma scopedBindingCount_filter:
  assumes "gomap_ok m"
  shows "scopedBindingCount (mput k (filter P (mget [] m k)) m) \<le> scopedBindingCount m"
  using scopedBindingCount_mput[OF assms, of k "filter P (mget [] m k)"]
    length_filter_le[of P "mget [] m k"] by linarith

lemma registry_inv_new [simp]: "registry_inv newRegistry"
  by (simp add: registry_inv_def newRegistry_def mget_def scopedBindingCount_def registryCap_def
    MaxRegistryBindings_def)

lemma mget_Nil_mput: "mget d (mput k v m) l = (if l = k then v else mget d m l)"
  by (simp add: mget_mput)

lemma registryPush_view:
  assumes "registryPush key b r = Some (h, r')"
  shows "reg_view r' k = (if k = key then reg_view r k @ [(b, reg_next r + 1)] else reg_view r k)"
    and "h = (key, reg_next r + 1)" and "reg_next r' = reg_next r + 1" and "reg_max r' = reg_max r"
  using assms by (auto simp: registryPush_def mget_Nil_mput Let_def split: if_splits)

lemma registryPush_inv:
  assumes "registry_inv r" "registryPush key b r = Some (h, r')"
  shows "registry_inv r'"
proof -
  note v = registryPush_view[OF assms(2)]
  have cap: "int (scopedBindingCount (reg_bindings r)) < registryCap (reg_max r)"
    and bs: "reg_bindings r' = mput key (reg_view r key @ [(b, reg_next r + 1)]) (reg_bindings r)"
    using assms(2) by (auto simp: registryPush_def Let_def split: if_splits)
  have le: "(c, ord) \<in> set (reg_view r k) \<Longrightarrow> ord \<le> reg_next r" for c ord k
    using assms(1) by (auto simp: registry_inv_def)
  then have fresh: "(c, Suc (reg_next r)) \<notin> set (reg_view r k)" for c k
    by fastforce
  have "sorted_wrt (<) (map snd (reg_view r' k))" for k
    using assms(1) by (auto simp: v registry_inv_def sorted_wrt_append dest!: le)
  moreover have "(c, ord) \<in> set (reg_view r' k) \<Longrightarrow> ord \<le> reg_next r'" for c ord k
    by (auto simp: v split: if_splits dest!: le)
  moreover have "k = l" if "(c, ord) \<in> set (reg_view r' k)" "(d, ord) \<in> set (reg_view r' l)" for c d ord k l
    using that assms(1) fresh by (auto simp: v registry_inv_def split: if_splits)
  moreover have "gomap_ok (reg_bindings r')"
    using assms(1) by (simp add: bs registry_inv_def)
  moreover have "int (scopedBindingCount (reg_bindings r')) \<le> registryCap (reg_max r')"
    using assms(1) cap by (simp add: bs v scopedBindingCount_mput registry_inv_def)
  ultimately show ?thesis by (auto simp: registry_inv_def)
qed

lemma remove_order_filter:
  assumes "sorted_wrt (<) (map snd xs)"
  shows "remove_order order xs
    = (if order \<in> snd ` set xs then Some (filter (\<lambda>s. snd s \<noteq> order) xs) else None)"
  using assms
proof (induction xs)
  case (Cons x xs)
  obtain b ord where x: "x = (b, ord)" by force
  have "ord = order \<Longrightarrow> filter (\<lambda>s. snd s \<noteq> order) xs = xs"
    using Cons.prems x by (auto simp: filter_id_conv)
  then show ?case using Cons x by auto
qed simp

lemma registryUnmount_view:
  assumes "registry_inv r"
  shows "reg_view (registryUnmount h r) k = filter (\<lambda>s. (k, snd s) \<noteq> h) (reg_view r k)"
proof -
  obtain key order where h: "h = (key, order)" by force
  have s: "sorted_wrt (<) (map snd (reg_view r key))"
    using assms by (simp add: registry_inv_def)
  have "order \<notin> snd ` set xs \<Longrightarrow> filter (\<lambda>s. snd s \<noteq> order) xs = xs" for xs :: "('a \<times> nat) list"
    by (auto simp: filter_id_conv)
  then show ?thesis
    by (auto simp: registryUnmount_def h remove_order_filter[OF s] mget_Nil_mput)
qed

lemma registryUnmount_inv:
  assumes "registry_inv r"
  shows "registry_inv (registryUnmount h r)"
proof -
  obtain key order where h: "h = (key, order)" by force
  have s: "sorted_wrt (<) (map snd (reg_view r key))"
    using assms by (simp add: registry_inv_def)
  note v = registryUnmount_view[OF assms, of h]
  have n: "reg_next (registryUnmount h r) = reg_next r" "reg_max (registryUnmount h r) = reg_max r"
    by (auto simp: registryUnmount_def Let_def split: prod.splits option.splits)
  have srt: "sorted_wrt (<) (map snd (reg_view (registryUnmount h r) k))" for k
    using assms by (simp add: v registry_inv_def sorted_wrt_map sorted_wrt_filter)
  have ok: "gomap_ok (reg_bindings (registryUnmount h r))"
    using assms by (auto simp: registryUnmount_def registry_inv_def Let_def split: prod.splits option.splits)
  have "int (scopedBindingCount (reg_bindings (registryUnmount h r)))
      \<le> int (scopedBindingCount (reg_bindings r))"
    using assms
    by (auto simp: registryUnmount_def h remove_order_filter[OF s] registry_inv_def scopedBindingCount_filter)
  then show ?thesis
    using assms ok srt by (auto simp: registry_inv_def v n)
qed

lemma registryUnmount_idem:
  assumes "registry_inv r"
  shows "registryUnmount h (registryUnmount h r) = registryUnmount h r"
proof -
  obtain key order where h: "h = (key, order)" by force
  let ?r = "registryUnmount h r"
  have "sorted_wrt (<) (map snd (reg_view ?r key))"
    using registryUnmount_inv[OF assms, of h] unfolding registry_inv_def by blast
  then have "remove_order order (reg_view ?r key) = None"
    by (subst remove_order_filter) (auto simp: registryUnmount_view[OF assms] h)
  then show ?thesis
    unfolding registryUnmount_def[of h ?r] by (simp add: h)
qed

lemma registryLayer_eq: "registry_inv r \<Longrightarrow> registryLayer r p = reg_view r (scopeString p)"
  unfolding registryLayer_def
  by (rule sort_key_stable_id) (auto simp: registry_inv_def strict_sorted_iff)

lemma registryPush_fresh:
  assumes "registry_inv r" "registryPush key b r = Some (h, r')" "s \<in> set (reg_view r k)"
  shows "(k, snd s) \<noteq> h"
  using assms(1,3) registryPush_view(2)[OF assms(2)]
  by (cases s) (fastforce simp: registry_inv_def)

section \<open>The contract\<close>

text \<open>
  \<open>wf\<close> is the provider's invariant, \<open>view\<close> the contributions of one scope key, \<open>hid\<close> the
  handle of a stored contribution, and \<open>issued\<close> tells which handles are known to come from a mount
  on this registry (a closure cannot be forged, so only these are ever run).
\<close>

locale mountable =
  fixes wf :: "'r \<Rightarrow> bool"
    and issued :: "'r \<Rightarrow> 'h \<Rightarrow> bool"
    and view :: "'r \<Rightarrow> string \<Rightarrow> 's list"
    and hid :: "string \<Rightarrow> 's \<Rightarrow> 'h"
    and mount :: "'r \<Rightarrow> 'b \<Rightarrow> 'e + 'h \<times> 'r"
    and unmount :: "'h \<Rightarrow> 'r \<Rightarrow> 'r"
  assumes mount_wf: "wf r \<Longrightarrow> mount r b = Inr (h, r') \<Longrightarrow> wf r'"
    and unmount_wf: "wf r \<Longrightarrow> issued r h \<Longrightarrow> wf (unmount h r)"
    and mount_issued: "wf r \<Longrightarrow> mount r b = Inr (h, r') \<Longrightarrow> issued r' h"
    and issued_mount: "wf r \<Longrightarrow> issued r g \<Longrightarrow> mount r b = Inr (h, r') \<Longrightarrow> issued r' g"
    and issued_unmount: "wf r \<Longrightarrow> issued r g \<Longrightarrow> issued r h \<Longrightarrow> issued (unmount h r) g"
    and mount_appends: "wf r \<Longrightarrow> mount r b = Inr (h, r') \<Longrightarrow>
          \<exists>key s. hid key s = h \<and> (\<forall>k. view r' k = (if k = key then view r k @ [s] else view r k))"
    and mount_fresh: "wf r \<Longrightarrow> mount r b = Inr (h, r') \<Longrightarrow> s \<in> set (view r k) \<Longrightarrow> hid k s \<noteq> h"
    and unmount_filters: "wf r \<Longrightarrow> issued r h \<Longrightarrow> view (unmount h r) k = filter (\<lambda>s. hid k s \<noteq> h) (view r k)"
begin

lemma unmount_after_mount:
  assumes "wf r" "mount r b = Inr (h, r')"
  shows "view (unmount h r') = view r"
proof
  fix k
  obtain key s where s: "hid key s = h" "view r' k = (if k = key then view r k @ [s] else view r k)"
    using mount_appends[OF assms] by blast
  have "filter (\<lambda>s. hid k s \<noteq> h) (view r k) = view r k"
    using mount_fresh[OF assms] by (simp add: filter_id_conv)
  with s show "view (unmount h r') k = view r k"
    by (auto simp: unmount_filters[OF mount_wf[OF assms] mount_issued[OF assms]])
qed

lemma unmount_all:
  assumes "wf r" "\<forall>h \<in> set hs. issued r h"
  shows "wf (fold unmount hs r)"
    and "view (fold unmount hs r) k = filter (\<lambda>s. hid k s \<notin> set hs) (view r k)"
  using assms
proof (induction hs arbitrary: r)
  case (Cons h hs)
  { case 1
    then show ?case using Cons.IH(1)[of "unmount h r"] by (simp add: unmount_wf issued_unmount) }
  { case 2
    then have "view (fold unmount hs (unmount h r)) k = filter (\<lambda>s. hid k s \<notin> set hs) (view (unmount h r) k)"
      using Cons.IH(2)[of "unmount h r"] by (simp add: unmount_wf issued_unmount)
    also have "\<dots> = filter (\<lambda>s. hid k s \<notin> set (h # hs)) (view r k)"
      using 2 by (auto simp: unmount_filters intro: filter_cong)
    finally show ?case by simp }
qed simp_all

text \<open>A run of successful mounts.\<close>

inductive mounts :: "'r \<Rightarrow> 'h list \<Rightarrow> 'r \<Rightarrow> bool" where
  mounts_none: "mounts r [] r"
| mounts_one: "mount r b = Inr (h, r') \<Longrightarrow> mounts r' hs r'' \<Longrightarrow> mounts r (h # hs) r''"

lemma mounts_wf: "mounts r hs r' \<Longrightarrow> wf r \<Longrightarrow> wf r'"
  by (induction rule: mounts.induct) (auto intro: mount_wf)

lemma issued_mounts: "mounts r hs r' \<Longrightarrow> wf r \<Longrightarrow> issued r g \<Longrightarrow> issued r' g"
  by (induction rule: mounts.induct) (auto intro: issued_mount mount_wf)

lemma mounts_issued: "mounts r hs r' \<Longrightarrow> wf r \<Longrightarrow> \<forall>h \<in> set hs. issued r' h"
  by (induction rule: mounts.induct) (auto intro: mount_wf issued_mounts mount_issued)

lemma mounts_snoc:
  "mounts r hs r' \<Longrightarrow> mount r' b = Inr (h, r'') \<Longrightarrow> mounts r (hs @ [h]) r''"
  by (induction rule: mounts.induct) (auto intro: mounts.intros)

lemma mounts_view:
  "mounts r hs r' \<Longrightarrow> wf r \<Longrightarrow>
    filter (\<lambda>s. hid k s \<notin> set hs) (view r' k) = view r k \<and> (\<forall>s \<in> set (view r k). hid k s \<notin> set hs)"
proof (induction rule: mounts.induct)
  case (mounts_one r b h r' hs r'')
  have w: "wf r'" using mounts_one.hyps(1) mounts_one.prems by (rule mount_wf[rotated])
  have i: "issued r' h" using mounts_one.hyps(1) mounts_one.prems by (rule mount_issued[rotated])
  have r': "filter (\<lambda>s. hid k s \<noteq> h) (view r' k) = view r k"
    using unmount_after_mount[OF mounts_one.prems mounts_one.hyps(1)]
      unmount_filters[OF w i, of k] by simp
  have "filter (\<lambda>s. hid k s \<notin> set (h # hs)) (view r'' k)
      = filter (\<lambda>s. hid k s \<noteq> h) (filter (\<lambda>s. hid k s \<notin> set hs) (view r'' k))"
    by (simp add: conj_commute)
  also have "\<dots> = view r k" using mounts_one.IH[OF w] r' by simp
  finally have "filter (\<lambda>s. hid k s \<notin> set (h # hs)) (view r'' k) = view r k" .
  moreover have "set (view r k) \<subseteq> set (view r' k)"
    unfolding r'[symmetric] by (rule filter_is_subset)
  ultimately show ?case
    using mounts_one.IH[OF w] mount_fresh[OF mounts_one.prems mounts_one.hyps(1)] by auto
qed simp

lemma unmount_after_mounts:
  assumes "wf r" "mounts r hs r'" "set hs = set hs'"
  shows "view (fold unmount hs' r') = view r"
proof
  fix k
  have "\<forall>h \<in> set hs'. issued r' h" using mounts_issued[OF assms(2,1)] assms(3) by blast
  from unmount_all(2)[OF mounts_wf[OF assms(2,1)] this, of k]
  show "view (fold unmount hs' r') k = view r k"
    using mounts_view[OF assms(2,1), of k] assms(3) by simp
qed

end

text \<open>
  Every \<open>Mount\<close> validates its argument and then runs the shared locked section; whatever it
  validates, it meets the contract, for any handle.
\<close>

lemma mountable_registryI:
  assumes "\<And>r b h r'. mount r b = Inr (h, r') \<Longrightarrow> \<exists>key b'. registryPush key b' r = Some (h, r')"
  shows "mountable registry_inv (\<lambda>_ _. True) reg_view (\<lambda>k s. (k, snd s)) mount registryUnmount"
proof unfold_locales
  fix r b h r' assume "registry_inv r" "mount r b = Inr (h, r')"
  then obtain key b' where p: "registryPush key b' r = Some (h, r')" using assms by blast
  show "\<exists>key s. (key, snd s) = h
      \<and> (\<forall>k. reg_view r' k = (if k = key then reg_view r k @ [s] else reg_view r k))"
    by (intro exI[of _ key] exI[of _ "(b', reg_next r + 1)"]) (simp add: registryPush_view[OF p])
qed (use registryPush_fresh in \<open>fastforce dest!: assms
      simp: registryPush_inv registryUnmount_inv registryUnmount_view\<close>)+

end
