(* ===== verification/Principal.thy ===== *)
theory Principal
  imports Scope_Path
begin

text \<open>
  Permission sets and the authenticated caller of \<open>src/pkg/core/types.go\<close>. A permission set is a
  Go map to bool, so an entry may be present and false; \<open>granted\<close> is the reading every consumer
  uses. The operations are characterised by what they grant.
\<close>

(* src/pkg/core/types.go:39-40 Permission *)
type_synonym permission = string

(* src/pkg/core/types.go:51-52 PermissionSet *)
type_synonym permission_set = "(permission, bool) gomap"

(* src/pkg/core/types.go:95-102 Principal *)
record principal =
  pr_subject :: string
  pr_tenant :: string
  pr_scope :: scope_path
  pr_grants :: permission_set
  pr_attributes :: "(string, string) gomap"

text \<open>Indexing a permission set: a missing key reads as false.\<close>

abbreviation granted :: "permission_set \<Rightarrow> permission \<Rightarrow> bool" where
  "granted s p \<equiv> mget False s p"

(* src/pkg/core/types.go:54-61 NewPermissionSet *)
definition newPermissionSet :: "permission list \<Rightarrow> permission_set" where
  "newPermissionSet grants = fold (\<lambda>grant out. mput grant True out) grants []"

(* src/pkg/core/types.go:63-72 Clone *)
definition clonePermissions :: "permission_set \<Rightarrow> permission_set" where
  "clonePermissions s = fold (\<lambda>(p, allowed) out. if allowed then mput p True out else out) s []"

(* src/pkg/core/types.go:74-82 Allows *)
fun permissionsAllow :: "permission_set \<Rightarrow> permission list \<Rightarrow> bool" where
  "permissionsAllow s [] = True"
| "permissionsAllow s (p # ps) = (if \<not> granted s p then False else permissionsAllow s ps)"

(* src/pkg/core/types.go:84-93 Intersect *)
definition intersectPermissions :: "permission_set \<Rightarrow> permission_set \<Rightarrow> permission_set" where
  "intersectPermissions s other =
     fold (\<lambda>(p, allowed) out. if allowed \<and> granted other p then mput p True out else out) s []"

(* src/pkg/core/capability.go:804-812 clonePrincipal *)
definition clonePrincipal :: "principal \<Rightarrow> principal" where
  "clonePrincipal p =
     p\<lparr> pr_grants := clonePermissions (pr_grants p),
        pr_attributes := fold (\<lambda>(k, v) out. mput k v out) (pr_attributes p) [] \<rparr>"

definition principal_wf :: "principal \<Rightarrow> bool" where
  "principal_wf p \<longleftrightarrow> gomap_ok (pr_grants p) \<and> gomap_ok (pr_attributes p)"

lemma permissionsAllow_iff: "permissionsAllow s ps \<longleftrightarrow> (\<forall>p \<in> set ps. granted s p)"
  by (induction ps) auto

lemma fold_mput_ok: "gomap_ok out \<Longrightarrow> gomap_ok (fold (\<lambda>(k, v) o'. if P k v then mput k (f k v) o' else o') s out)"
  by (induction s arbitrary: out) auto

lemma granted_fold_filter:
  assumes "gomap_ok s"
  shows "granted (fold (\<lambda>(k, v) o'. if P k v then mput k True o' else o') s out) p
    \<longleftrightarrow> granted out p \<or> (\<exists>v. map_of s p = Some v \<and> P p v)"
  using assms
proof (induction s arbitrary: out)
  case (Cons x s)
  obtain k v where x: "x = (k, v)" by force
  have "p = k \<Longrightarrow> map_of s p = None" using Cons.prems x by (auto simp: map_of_eq_None_iff)
  then show ?case using Cons x by (auto simp: mget_mput)
qed simp

lemma granted_new: "granted (newPermissionSet ps) p \<longleftrightarrow> p \<in> set ps"
proof -
  have "granted (fold (\<lambda>g out. mput g True out) ps out) p \<longleftrightarrow> granted out p \<or> p \<in> set ps" for out
    by (induction ps arbitrary: out) (auto simp: mget_mput)
  then show ?thesis by (simp add: newPermissionSet_def mget_def)
qed

lemma new_ok [simp]: "gomap_ok (newPermissionSet ps)"
proof -
  have "gomap_ok out \<Longrightarrow> gomap_ok (fold (\<lambda>g out. mput g True out) ps out)" for out
    by (induction ps arbitrary: out) auto
  then show ?thesis by (simp add: newPermissionSet_def)
qed

lemma granted_clone: "gomap_ok s \<Longrightarrow> granted (clonePermissions s) p \<longleftrightarrow> granted s p"
  using granted_fold_filter[of s "\<lambda>_ v. v" "[]" p]
  by (cases "map_of s p") (simp_all add: clonePermissions_def mget_def del: map_of_eq_Some_iff)

lemma granted_intersect:
  "gomap_ok s \<Longrightarrow> granted (intersectPermissions s t) p \<longleftrightarrow> granted s p \<and> granted t p"
  using granted_fold_filter[of s "\<lambda>k v. v \<and> granted t k" "[]" p]
  by (cases "map_of s p") (simp_all add: intersectPermissions_def mget_def del: map_of_eq_Some_iff)

lemma granted_delete: "granted (mdel d s) p \<longleftrightarrow> granted s p \<and> p \<noteq> d"
  by (simp add: mget_def)

lemma clone_ok [simp]: "gomap_ok (clonePermissions s)"
  unfolding clonePermissions_def by (rule fold_mput_ok) simp

lemma intersect_ok [simp]: "gomap_ok (intersectPermissions s t)"
  unfolding intersectPermissions_def by (rule fold_mput_ok) simp

lemma clonePrincipal_simps [simp]:
  "pr_subject (clonePrincipal p) = pr_subject p" "pr_tenant (clonePrincipal p) = pr_tenant p"
  "pr_scope (clonePrincipal p) = pr_scope p"
  by (simp_all add: clonePrincipal_def)

end
