(* ===== verification/Identifiers.thy ===== *)
theory Identifiers
  imports Go_Text
begin

text \<open>
  The identifier grammars of \<open>src/pkg/core/identifier.go\<close> and of the run, session, profile and
  tool-call identifiers: the two regular expressions as predicates on byte strings, and the
  validators built from them. A validator is a Boolean here; the code returns one fixed error text
  per validator, and the callers only test it for nil.
\<close>

(* src/pkg/core/identifier.go:9-9 namespacedIDPattern *)
definition id_char :: "char \<Rightarrow> bool" where
  "id_char c \<longleftrightarrow>
     (let n = (of_char c :: nat) in
        (48 \<le> n \<and> n \<le> 57) \<or> (65 \<le> n \<and> n \<le> 90) \<or> (97 \<le> n \<and> n \<le> 122)
        \<or> c = CHR ''.'' \<or> c = CHR ''_'' \<or> c = CHR '':'' \<or> c = CHR ''-'')"

definition id_head :: "char \<Rightarrow> bool" where
  "id_head c \<longleftrightarrow>
     (let n = (of_char c :: nat) in
        (48 \<le> n \<and> n \<le> 57) \<or> (65 \<le> n \<and> n \<le> 90) \<or> (97 \<le> n \<and> n \<le> 122))"

text \<open>\<open>^[A-Za-z0-9][A-Za-z0-9._:-]{0,127}$\<close>, shared by \<open>namespacedIDPattern\<close> and \<open>runIDPattern\<close>.\<close>

(* src/pkg/core/session.go:17-17 runIDPattern *)
definition safe_id :: "string \<Rightarrow> bool" where
  "safe_id s \<longleftrightarrow> (case s of [] \<Rightarrow> False | c # cs \<Rightarrow> id_head c \<and> list_all id_char cs \<and> length cs \<le> 127)"

(* src/pkg/core/identifier.go:12-19 ValidateNamespacedID *)
definition validateNamespacedID :: "string \<Rightarrow> bool" where
  "validateNamespacedID s \<longleftrightarrow> \<not> (\<not> safe_id s \<or> \<not> contains_str s ''.'')"

(* src/pkg/core/identifier.go:21-27 ValidateApprovalID *)
definition validateApprovalID :: "string \<Rightarrow> bool" where
  "validateApprovalID s \<longleftrightarrow>
     has_prefix s ''apr_''
     \<and> (let h = drop 4 s in list_all is_lower_hex h \<and> 32 \<le> length h \<and> length h \<le> 64)"

(* src/pkg/core/identifier.go:41-48 containsControl *)
definition containsControl :: "string \<Rightarrow> bool" where
  "containsControl s \<longleftrightarrow> list_ex (\<lambda>(char, _). char < 32 \<or> char = 127) (runes s)"

(* src/pkg/core/profile.go:42-46 ModelSelection *)
record model_selection =
  ms_provider :: string
  ms_model :: string

(* src/pkg/core/identifier.go:29-39 validateModelSelection *)
definition validateModelSelection :: "model_selection \<Rightarrow> bool" where
  "validateModelSelection sel \<longleftrightarrow>
     (let provider = trim_space (ms_provider sel); model = trim_space (ms_model sel) in
        \<not> (provider = [] \<or> length provider > 128 \<or> containsControl provider)
        \<and> \<not> (model = [] \<or> length model > 256 \<or> containsControl model))"

(* src/pkg/core/llm.go:250-255 validateToolCallID *)
definition validateToolCallID :: "string \<Rightarrow> bool" where
  "validateToolCallID s \<longleftrightarrow>
     \<not> (blank s \<or> length s > 256 \<or> contains_any s [CHR 0x0D, CHR 0x0A, CHR 0x00])"

section \<open>Facts\<close>

lemma id_head_char: "id_head c \<Longrightarrow> id_char c"
  by (auto simp: id_head_def id_char_def Let_def)

lemma safe_id_iff:
  "safe_id s \<longleftrightarrow> s \<noteq> [] \<and> id_head (hd s) \<and> list_all id_char s \<and> length s \<le> 128"
  by (cases s) (auto simp: safe_id_def id_head_char)

lemma id_char_range:
  assumes "id_char c"
  shows "45 \<le> (of_char c :: nat)" "(of_char c :: nat) < 127"
  using assms by (auto simp: id_char_def Let_def)

lemma id_char_not [simp]:
  "\<not> id_char (CHR ''/'')" "\<not> id_char (CHR 0x00)" "\<not> id_char (CHR 0x0D)" "\<not> id_char (CHR 0x0A)"
  by (simp_all add: id_char_def)

lemma contains_any_id_chars:
  assumes "list_all id_char s" "list_all (\<lambda>c. \<not> id_char c) cs"
  shows "\<not> contains_any s cs"
  using assms by (auto simp: contains_any_def list_all_iff list_ex_iff)

lemma safe_id_ascii: "safe_id s \<Longrightarrow> list_all (\<lambda>c. (of_char c :: nat) < 128) s"
  using id_char_range(2) by (fastforce simp: safe_id_iff list_all_iff)

lemma safe_id_not_Nil: "safe_id s \<Longrightarrow> s \<noteq> []"
  by (simp add: safe_id_iff)

lemma safe_id_not_blank:
  assumes "safe_id s"
  shows "\<not> blank s"
proof -
  from assms obtain c cs where s: "s = c # cs" and c: "id_char c"
    by (cases s) (auto simp: safe_id_def id_head_char)
  have "\<not> is_space (of_char c)"
    using id_char_range[OF c] by (auto simp: is_space_def)
  then show ?thesis
    using safe_id_ascii[OF assms] by (simp add: s not_blank_ascii)
qed

lemma safe_id_no_delims: "safe_id s \<Longrightarrow> \<not> contains_any s [CHR ''/'', CHR 0x00]"
  by (simp add: safe_id_iff contains_any_id_chars)

lemma safe_id_valid_utf8: "safe_id s \<Longrightarrow> valid_utf8 s"
  by (simp add: safe_id_ascii valid_utf8_ascii)

lemma namespaced_safe: "validateNamespacedID s \<Longrightarrow> safe_id s"
  by (simp add: validateNamespacedID_def)

lemma safe_id_toolCallID:
  assumes "safe_id s"
  shows "validateToolCallID s"
  using assms safe_id_not_blank[OF assms]
  by (simp add: validateToolCallID_def safe_id_iff contains_any_id_chars)

lemma validateToolCallID_not_Nil: "validateToolCallID s \<Longrightarrow> s \<noteq> []"
  by (auto simp: validateToolCallID_def)

lemma validateApprovalID_length: "validateApprovalID s \<Longrightarrow> 36 \<le> length s \<and> length s \<le> 68"
  by (auto simp: validateApprovalID_def Let_def has_prefix_def prefix_def)

end
