(* ===== verification/Layering.thy ===== *)
theory Layering
  imports Scope_Path
begin

text \<open>
  What one key of a layered registry goes through while the prefixes of a target are walked: the
  abstract specification that the resolution loops of \<open>capability.go\<close> and \<open>credential.go\<close>
  implement. A contribution is a mode, the scope that owns it, its payload and the protected flag;
  the state is the effective contribution, if any.
\<close>

datatype layer_mode = LProvide | LReplace | LDisable

record 'v layer =
  la_mode :: layer_mode
  la_scope :: scope_path
  la_value :: 'v
  la_protected :: bool

datatype layer_error = AlreadyProvided | ReplaceMissing | ProtectedBy scope_path

text \<open>The effective contribution keeps its payload, owner and flag; its mode no longer matters.\<close>

type_synonym 'v effective = "'v \<times> scope_path \<times> bool"

definition layer_entry :: "'v layer \<Rightarrow> 'v effective" where
  "layer_entry b = (la_value b, la_scope b, la_protected b)"

definition layer_guard :: "'v effective \<Rightarrow> 'v layer \<Rightarrow> layer_error option" where
  "layer_guard cur b =
     (let (_, owner, prot) = cur in if prot \<and> owner \<noteq> la_scope b then Some (ProtectedBy owner) else None)"

fun layer_step :: "'v effective option \<Rightarrow> 'v layer \<Rightarrow> layer_error + 'v effective option" where
  "layer_step cur b =
     (case la_mode b of
        LProvide \<Rightarrow> (case cur of Some _ \<Rightarrow> Inl AlreadyProvided | None \<Rightarrow> Inr (Some (layer_entry b)))
      | LReplace \<Rightarrow>
          (case cur of
             None \<Rightarrow> Inl ReplaceMissing
           | Some c \<Rightarrow> (case layer_guard c b of Some e \<Rightarrow> Inl e | None \<Rightarrow> Inr (Some (layer_entry b))))
      | LDisable \<Rightarrow>
          (case cur of
             None \<Rightarrow> Inr None
           | Some c \<Rightarrow> (case layer_guard c b of Some e \<Rightarrow> Inl e | None \<Rightarrow> Inr None)))"

abbreviation layer_run :: "'v effective option \<Rightarrow> 'v layer list \<Rightarrow> layer_error + 'v effective option" where
  "layer_run \<equiv> foldr_err layer_step"

text \<open>A protected contribution survives every foreign contribution: the walk can only stop.\<close>

lemma layer_step_protected:
  assumes "layer_step (Some (v, owner, True)) b = Inr c" "la_scope b \<noteq> owner"
  shows False
  using assms by (auto simp: layer_guard_def split: layer_mode.splits)

lemma layer_run_protected:
  assumes "layer_run (Some (v, owner, True)) bs = Inr c" "\<forall>b \<in> set bs. la_scope b \<noteq> owner"
  shows "bs = [] \<and> c = Some (v, owner, True)"
proof (cases bs)
  case (Cons b bs')
  then show ?thesis
    using assms layer_step_protected[of v owner b] by (auto simp: rbind_eq_Inr simp del: layer_step.simps)
qed (use assms in simp)

text \<open>Without protection, duplicates and dangling replacements, the nearest contribution wins.\<close>

lemma layer_run_snoc:
  "layer_run cur (bs @ [b]) = Inr c \<longleftrightarrow> (\<exists>d. layer_run cur bs = Inr d \<and> layer_step d b = Inr c)"
  by (auto simp: foldr_err_append rbind_eq_Inr simp del: layer_step.simps)

lemma layer_step_result:
  "layer_step d b = Inr c \<Longrightarrow> c = (if la_mode b = LDisable then None else Some (layer_entry b))"
  by (cases "la_mode b"; cases d) (auto split: option.splits)

lemma layer_run_nearest:
  assumes "layer_run None (bs @ [b]) = Inr c"
  shows "c = (if la_mode b = LDisable then None else Some (layer_entry b))"
  using assms layer_step_result unfolding layer_run_snoc by blast

text \<open>What is effective was contributed: no payload appears from nowhere.\<close>

lemma layer_run_origin:
  assumes "layer_run cur bs = Inr (Some c)" "cur \<noteq> Some c"
  shows "\<exists>b \<in> set bs. la_mode b \<noteq> LDisable \<and> layer_entry b = c"
  using assms
proof (induction bs arbitrary: c rule: rev_induct)
  case (snoc b bs)
  from snoc.prems(1) obtain d where d: "layer_run cur bs = Inr d" "layer_step d b = Inr (Some c)"
    by (auto simp: layer_run_snoc simp del: layer_step.simps)
  then have "la_mode b \<noteq> LDisable \<and> c = layer_entry b"
    using layer_step_result[OF d(2)] by (simp split: if_splits)
  then show ?case by auto
qed simp

end
