(* ===== verification/Credential.thy ===== *)
theory Credential
  imports Scoped_Registry Principal Identifiers Layering
begin

text \<open>
  The layered credential registry of \<open>src/pkg/core/credential.go\<close>: mounting references, resolving
  one reference for a principal, and collecting the credentials one capability call may see. A
  provider is any Go value with a \<open>Resolve\<close> method; here it is the function from the principal to
  its outcome, which may be a panic.
\<close>

section \<open>Model\<close>

(* src/pkg/core/credential.go:16-20 CredentialValue *)
record credential_value =
  cv_value :: string
  cv_source :: string

datatype credential_error =
    CredNotFound string
  | CredEmptyScope
  | CredBadRef
  | CredNoProvider
  | CredBadMode
  | CredRegistryFull
  | CredScopeNotOwned
  | CredAlreadyProvided
  | CredReplaceMissing
  | CredProtected scope_path
  | CredPanicked
  | CredProviderError string

datatype provider_outcome = ProviderOk credential_value | ProviderErr credential_error | ProviderPanic

(* src/pkg/core/credential.go:49-52 CredentialProvider *)
type_synonym credential_provider = "principal \<Rightarrow> provider_outcome"

(* src/pkg/core/credential.go:61-73 StaticCredentialProvider *)
definition staticCredentialProvider :: "string \<Rightarrow> string \<Rightarrow> credential_provider" where
  "staticCredentialProvider v source =
     (\<lambda>_. if v = [] then ProviderErr (CredNotFound []) else ProviderOk \<lparr> cv_value = v, cv_source = source \<rparr>)"

text \<open>The environment is a parameter: \<open>os.LookupEnv\<close> at call time.\<close>

(* src/pkg/core/credential.go:75-86 EnvironmentCredentialProvider *)
definition environmentCredentialProvider :: "(string \<Rightarrow> string option) \<Rightarrow> string \<Rightarrow> credential_provider" where
  "environmentCredentialProvider lookupEnv name =
     (\<lambda>_. case lookupEnv name of
            None \<Rightarrow> ProviderErr (CredNotFound name)
          | Some v \<Rightarrow> if v = [] then ProviderErr (CredNotFound name)
                      else ProviderOk \<lparr> cv_value = v, cv_source = ''env:'' @ name \<rparr>)"

definition CredentialProvide :: string where "CredentialProvide = ''provide''"
definition CredentialReplace :: string where "CredentialReplace = ''replace''"
definition CredentialDisable :: string where "CredentialDisable = ''disable''"

lemmas credential_mode_defs = CredentialProvide_def CredentialReplace_def CredentialDisable_def

(* src/pkg/core/credential.go:97-104 CredentialBinding *)
record credential_binding =
  cb_scope :: scope_path
  cb_ref :: string
  cb_mode :: string
  cb_provider :: "credential_provider option"
  cb_protected :: bool

(* src/pkg/core/credential.go:111-117 CredentialRegistry *)
type_synonym credential_registry = "credential_binding registry"

(* src/pkg/core/credential.go:327-329 validateCredentialRef *)
definition validateCredentialRef :: "string \<Rightarrow> bool" where
  "validateCredentialRef ref = validateNamespacedID ref"

(* src/pkg/core/credential.go:131-149 Mount *)
definition prepareCredential :: "credential_binding \<Rightarrow> credential_error + credential_binding" where
  "prepareCredential b =
     (if cb_scope b = [] then Inl CredEmptyScope
      else if \<not> validateCredentialRef (cb_ref b) then Inl CredBadRef
      else let b1 = (if cb_mode b = [] then b\<lparr> cb_mode := CredentialProvide \<rparr> else b) in
        if cb_mode b1 = CredentialProvide \<or> cb_mode b1 = CredentialReplace then
          (if cb_provider b1 = None then Inl CredNoProvider else Inr b1)
        else if cb_mode b1 = CredentialDisable then Inr (b1\<lparr> cb_provider := None \<rparr>)
        else Inl CredBadMode)"

(* src/pkg/core/credential.go:129-174 Mount *)
definition mountCredential :: "credential_registry \<Rightarrow> credential_binding \<Rightarrow> credential_error + mount_handle \<times> credential_registry" where
  "mountCredential r b =
     rbind (prepareCredential b) (\<lambda>b1.
       case registryPush (scopeString (cb_scope b1)) b1 r of
         None \<Rightarrow> Inl CredRegistryFull
       | Some hr \<Rightarrow> Inr hr)"

(* src/pkg/core/credential.go:123-127 Bind *)
definition bindCredential :: "credential_registry \<Rightarrow> credential_binding \<Rightarrow> credential_error option \<times> credential_registry" where
  "bindCredential r b = (case mountCredential r b of Inl e \<Rightarrow> (Some e, r) | Inr (_, r') \<Rightarrow> (None, r'))"

(* src/pkg/core/credential.go:185-203 List *)
definition listCredentials :: "credential_registry \<Rightarrow> scope_path \<Rightarrow> credential_error + (string \<times> scope_path \<times> string) list" where
  "listCredentials r target =
     (if target = [] then Inl CredEmptyScope
      else Inr (concat (map (\<lambda>prefix.
             map (\<lambda>(b, _). (cb_ref b, cb_scope b, cb_mode b)) (mget [] (reg_bindings r) (scopeString prefix)))
             (scopePrefixes target))))"

type_synonym effective_credential = "credential_provider option \<times> scope_path \<times> bool"

(* src/pkg/core/credential.go:228-257 ResolveCredential *)
definition credentialStep :: "string \<Rightarrow> effective_credential option \<Rightarrow> credential_binding
    \<Rightarrow> credential_error + effective_credential option" where
  "credentialStep ref effective b =
     (if cb_ref b \<noteq> ref then Inr effective
      else if cb_mode b = CredentialProvide then
        (if effective \<noteq> None then Inl CredAlreadyProvided
         else Inr (Some (cb_provider b, cb_scope b, cb_protected b)))
      else if cb_mode b = CredentialReplace then
        (case effective of
           None \<Rightarrow> Inl CredReplaceMissing
         | Some (_, owner, prot) \<Rightarrow>
             if prot \<and> \<not> scopeEqual owner (cb_scope b) then Inl (CredProtected owner)
             else Inr (Some (cb_provider b, cb_scope b, cb_protected b)))
      else if cb_mode b = CredentialDisable then
        (case effective of
           None \<Rightarrow> Inr effective
         | Some (_, owner, prot) \<Rightarrow>
             if prot \<and> \<not> scopeEqual owner (cb_scope b) then Inl (CredProtected owner)
             else Inr None)
      else Inr effective)"

(* src/pkg/core/credential.go:224-260 ResolveCredential *)
definition effectiveCredential :: "credential_registry \<Rightarrow> scope_path \<Rightarrow> string
    \<Rightarrow> credential_error + effective_credential option" where
  "effectiveCredential r target ref =
     foldr_err (\<lambda>eff prefix.
       foldr_err (\<lambda>eff (b, _). credentialStep ref eff b) eff (mget [] (reg_bindings r) (scopeString prefix)))
       None (scopePrefixes target)"

(* src/pkg/core/credential.go:274-282 safeCredentialProviderResolve *)
definition safeProviderResolve :: "credential_provider \<Rightarrow> principal \<Rightarrow> credential_error + credential_value" where
  "safeProviderResolve provider pr =
     (case provider pr of
        ProviderOk v \<Rightarrow> Inr v
      | ProviderErr e \<Rightarrow> Inl e
      | ProviderPanic \<Rightarrow> Inl CredPanicked)"

(* src/pkg/core/credential.go:205-272 ResolveCredential *)
definition resolveCredential :: "credential_registry \<Rightarrow> principal \<Rightarrow> scope_path \<Rightarrow> string
    \<Rightarrow> credential_error + credential_value" where
  "resolveCredential r pr target ref =
     (if \<not> isAncestorOf (pr_scope pr) target then Inl CredScopeNotOwned
      else if \<not> validateCredentialRef ref then Inl CredBadRef
      else rbind (effectiveCredential r target ref) (\<lambda>effective.
        case effective of
          Some (Some provider, _, _) \<Rightarrow>
            rbind (safeProviderResolve provider (clonePrincipal pr)) (\<lambda>v.
              if cv_value v = [] then Inl (CredNotFound ref) else Inr v)
        | _ \<Rightarrow> Inl (CredNotFound ref)))"

text \<open>A resolver is an interface value as well; it may be nil and it may panic.\<close>

datatype resolver_outcome = ResolverResult "credential_error + credential_value" | ResolverPanic

type_synonym credential_resolver = "principal \<Rightarrow> scope_path \<Rightarrow> string \<Rightarrow> resolver_outcome"

(* src/pkg/core/credential.go:317-325 safeCredentialResolve *)
definition safeCredentialResolve :: "credential_resolver \<Rightarrow> principal \<Rightarrow> scope_path \<Rightarrow> string
    \<Rightarrow> credential_error + credential_value" where
  "safeCredentialResolve resolver pr target ref =
     (case resolver pr target ref of ResolverResult x \<Rightarrow> x | ResolverPanic \<Rightarrow> Inl CredPanicked)"

(* src/pkg/core/credential.go:296-315 resolveCallCredentials *)
definition resolveCallCredentials :: "credential_resolver option \<Rightarrow> principal \<Rightarrow> scope_path \<Rightarrow> string list
    \<Rightarrow> credential_error + (string, credential_value) gomap" where
  "resolveCallCredentials resolver pr target refs =
     foldr_err (\<lambda>values ref.
       case resolver of
         None \<Rightarrow> Inl (CredNotFound ref)
       | Some f \<Rightarrow> rbind (safeCredentialResolve f pr target ref) (\<lambda>v. Inr (mput ref v values)))
       [] refs"

(* src/pkg/core/credential.go:284-294 Resolve *)
definition callCredential :: "(string, credential_value) gomap \<Rightarrow> string \<Rightarrow> credential_error + credential_value" where
  "callCredential values ref =
     (case map_of values ref of None \<Rightarrow> Inl (CredNotFound ref) | Some v \<Rightarrow> Inr v)"

section \<open>The registry contract\<close>

lemma mountCredential_eq:
  "mountCredential r b = Inr (h, r') \<longleftrightarrow>
     (\<exists>b1. prepareCredential b = Inr b1 \<and> registryPush (scopeString (cb_scope b1)) b1 r = Some (h, r'))"
  by (cases "prepareCredential b") (auto simp: mountCredential_def split: option.splits)

interpretation crd: mountable registry_inv "\<lambda>_ _. True" reg_view "\<lambda>k s. (k, snd s)" mountCredential registryUnmount
  by (rule mountable_registryI) (auto simp: mountCredential_eq)

section \<open>Resolution follows the layering discipline\<close>

definition credential_layer :: "credential_binding \<Rightarrow> credential_provider option layer" where
  "credential_layer b = \<lparr> la_mode =
       (if cb_mode b = CredentialProvide then LProvide
        else if cb_mode b = CredentialReplace then LReplace else LDisable),
     la_scope = cb_scope b, la_value = cb_provider b, la_protected = cb_protected b \<rparr>"

definition credential_modes_ok :: "credential_binding \<Rightarrow> bool" where
  "credential_modes_ok b \<longleftrightarrow> cb_mode b \<in> {CredentialProvide, CredentialReplace, CredentialDisable}"

fun credential_layer_error :: "layer_error \<Rightarrow> credential_error" where
  "credential_layer_error AlreadyProvided = CredAlreadyProvided"
| "credential_layer_error ReplaceMissing = CredReplaceMissing"
| "credential_layer_error (ProtectedBy s) = CredProtected s"

text \<open>The bindings for one reference on the path to the target, root first.\<close>

definition credential_chain :: "credential_registry \<Rightarrow> scope_path \<Rightarrow> string \<Rightarrow> credential_binding list" where
  "credential_chain r target ref =
     filter (\<lambda>b. cb_ref b = ref)
       (map fst (concat (map (\<lambda>p. mget [] (reg_bindings r) (scopeString p)) (scopePrefixes target))))"

lemma prepareCredential_modes: "prepareCredential b = Inr b1 \<Longrightarrow> credential_modes_ok b1"
  by (auto simp: prepareCredential_def credential_modes_ok_def Let_def credential_mode_defs split: if_splits)

lemma credentialStep_layer:
  assumes "credential_modes_ok b" "cb_ref b = ref"
  shows "credentialStep ref eff b = err_map credential_layer_error (layer_step eff (credential_layer b))"
  using assms
  by (auto simp: credentialStep_def credential_layer_def credential_modes_ok_def layer_guard_def
      layer_entry_def credential_mode_defs split: option.splits)

lemma effectiveCredential_layering:
  assumes "\<forall>b \<in> set (credential_chain r target ref). credential_modes_ok b"
  shows "effectiveCredential r target ref
    = err_map credential_layer_error (layer_run None (map credential_layer (credential_chain r target ref)))"
proof -
  let ?bs = "concat (map (\<lambda>p. mget [] (reg_bindings r) (scopeString p)) (scopePrefixes target))"
  have chain: "map credential_layer (credential_chain r target ref)
      = map (credential_layer \<circ> fst) (filter (\<lambda>s. cb_ref (fst s) = ref) ?bs)"
    by (simp add: credential_chain_def filter_map comp_def)
  have "effectiveCredential r target ref = foldr_err (\<lambda>eff (b, _). credentialStep ref eff b) None ?bs"
    by (simp only: effectiveCredential_def foldr_err_concat)
  also have "\<dots> = err_map credential_layer_error
      (layer_run None (map (credential_layer \<circ> fst) (filter (\<lambda>s. cb_ref (fst s) = ref) ?bs)))"
  proof (rule foldr_err_filter)
    fix s x assume x: "x \<in> set ?bs" and c: "cb_ref (fst x) = ref"
    then have "fst x \<in> set (credential_chain r target ref)"
      by (auto simp: credential_chain_def)
    then have "credential_modes_ok (fst x)" using assms by blast
    with c show "(case x of (b, _) \<Rightarrow> credentialStep ref s b)
        = err_map credential_layer_error (layer_step s ((credential_layer \<circ> fst) x))"
      by (simp add: case_prod_unfold credentialStep_layer del: layer_step.simps)
  next
    fix s and x :: "credential_binding \<times> nat" assume "\<not> cb_ref (fst x) = ref"
    then show "(case x of (b, _) \<Rightarrow> credentialStep ref s b) = Inr s"
      by (simp add: case_prod_unfold credentialStep_def)
  qed
  finally show ?thesis using chain by simp
qed

definition credential_registry_ok :: "credential_registry \<Rightarrow> bool" where
  "credential_registry_ok r \<longleftrightarrow> registry_inv r \<and> (\<forall>k s. s \<in> set (reg_view r k) \<longrightarrow> credential_modes_ok (fst s))"

lemma credential_registry_ok_new: "credential_registry_ok newRegistry"
  by (simp add: credential_registry_ok_def) (simp add: newRegistry_def mget_def)

lemma credential_registry_ok_mount:
  assumes "credential_registry_ok r" "mountCredential r b = Inr (h, r')"
  shows "credential_registry_ok r'"
proof -
  from assms(2) obtain b1 where b1: "prepareCredential b = Inr b1"
    "registryPush (scopeString (cb_scope b1)) b1 r = Some (h, r')"
    by (auto simp: mountCredential_eq)
  with assms(1) show ?thesis
    using prepareCredential_modes[OF b1(1)] registryPush_inv[OF _ b1(2)] registryPush_view(1)[OF b1(2)]
    by (auto simp: credential_registry_ok_def split: if_splits)
qed

lemma credential_registry_ok_unmount:
  "credential_registry_ok r \<Longrightarrow> credential_registry_ok (registryUnmount h r)"
  by (auto simp: credential_registry_ok_def registryUnmount_inv registryUnmount_view)

lemma chain_modes_ok:
  "credential_registry_ok r \<Longrightarrow> b \<in> set (credential_chain r target ref) \<Longrightarrow> credential_modes_ok b"
  by (auto simp: credential_chain_def credential_registry_ok_def) metis

lemma effectiveCredential_last:
  assumes "credential_registry_ok r" "effectiveCredential r target ref = Inr (Some c)"
  shows "credential_chain r target ref \<noteq> []
    \<and> cb_mode (last (credential_chain r target ref)) \<noteq> CredentialDisable
    \<and> c = layer_entry (credential_layer (last (credential_chain r target ref)))"
proof -
  let ?ch = "credential_chain r target ref"
  have run: "layer_run None (map credential_layer ?ch) = Inr (Some c)"
    using assms chain_modes_ok effectiveCredential_layering[of r target ref] by auto
  then have ne: "?ch \<noteq> []" by auto
  then have "map credential_layer ?ch = map credential_layer (butlast ?ch) @ [credential_layer (last ?ch)]"
    by (metis append_butlast_last_id list.simps(8,9) map_append)
  with run have "Some c = (if la_mode (credential_layer (last ?ch)) = LDisable then None
      else Some (layer_entry (credential_layer (last ?ch))))"
    by (metis layer_run_nearest)
  moreover have "credential_modes_ok (last ?ch)" using ne chain_modes_ok[OF assms(1)] last_in_set by blast
  ultimately show ?thesis
    using ne by (auto simp: credential_layer_def credential_modes_ok_def credential_mode_defs split: if_splits)
qed

lemma resolveCallCredentials_values:
  assumes "resolveCallCredentials resolver pr target refs = Inr values"
  shows "map_of values ref = (if ref \<in> set refs
      then Some (projr (safeCredentialResolve (the resolver) pr target ref)) else None)"
    and "ref \<in> set refs \<Longrightarrow> is_ok (safeCredentialResolve (the resolver) pr target ref)"
proof -
  let ?step = "\<lambda>values ref. case resolver of None \<Rightarrow> Inl (CredNotFound ref)
       | Some f \<Rightarrow> rbind (safeCredentialResolve f pr target ref) (\<lambda>v. Inr (mput ref v values))"
  have "map_of values ref = (if ref \<in> set refs
        then Some (projr (safeCredentialResolve (the resolver) pr target ref)) else map_of acc ref)
      \<and> (ref \<in> set refs \<longrightarrow> is_ok (safeCredentialResolve (the resolver) pr target ref))"
    if "foldr_err ?step acc refs = Inr values" for acc
    using that
  proof (induction refs arbitrary: acc)
    case (Cons x xs)
    then obtain f w where f: "resolver = Some f" "safeCredentialResolve f pr target x = Inr w"
      "foldr_err ?step (mput x w acc) xs = Inr values"
      by (auto split: option.splits)
    show ?case using Cons.IH[OF f(3)] f(1,2) by auto
  qed simp
  from this[of "[]"] assms
  show "map_of values ref = (if ref \<in> set refs
      then Some (projr (safeCredentialResolve (the resolver) pr target ref)) else None)"
    "ref \<in> set refs \<Longrightarrow> is_ok (safeCredentialResolve (the resolver) pr target ref)"
    by (simp_all add: resolveCallCredentials_def)
qed

section \<open>Properties\<close>

text \<open>C32: A resolved credential comes from the nearest binding: the principal owns the target, the
  last binding for the reference on the path to the target is not a disable, its provider produced
  the value, and the value is not empty.\<close>
theorem credential_nearest_binding:
  assumes "credential_registry_ok r" "resolveCredential r pr target ref = Inr v"
  shows "isAncestorOf (pr_scope pr) target \<and> cv_value v \<noteq> []
    \<and> credential_chain r target ref \<noteq> []
    \<and> cb_mode (last (credential_chain r target ref)) \<noteq> CredentialDisable
    \<and> (\<exists>p. cb_provider (last (credential_chain r target ref)) = Some p
          \<and> p (clonePrincipal pr) = ProviderOk v)"
proof -
  from assms(2) obtain p s t where own: "isAncestorOf (pr_scope pr) target"
    and eff: "effectiveCredential r target ref = Inr (Some (Some p, s, t))"
    and v: "safeProviderResolve p (clonePrincipal pr) = Inr v" "cv_value v \<noteq> []"
    by (auto simp: resolveCredential_def split: if_splits option.splits)
  show ?thesis
    using effectiveCredential_last[OF assms(1) eff] own v
    by (auto simp: layer_entry_def credential_layer_def safeProviderResolve_def
        split: provider_outcome.splits intro: exI[of _ p])
qed

definition ex_scope :: scope_path where
  "ex_scope = [\<lparr> sr_kind = ScopeTenant, sr_id = ''acme'' \<rparr>]"

definition ex_caller :: principal where
  "ex_caller = \<lparr> pr_subject = ''u1'', pr_tenant = ''acme'', pr_scope = ex_scope, pr_grants = [], pr_attributes = [] \<rparr>"

definition ex_binding :: "string \<Rightarrow> string \<Rightarrow> credential_binding" where
  "ex_binding mode v = \<lparr> cb_scope = ex_scope, cb_ref = ''crm.key'', cb_mode = mode,
     cb_provider = Some (staticCredentialProvider v ''kms''), cb_protected = False \<rparr>"

definition ex_credentials :: credential_registry where
  "ex_credentials = snd (bindCredential (snd (bindCredential newRegistry (ex_binding [] ''old'')))
     (ex_binding ''replace'' ''new''))"

lemma credential_registry_ok_bind:
  "credential_registry_ok r \<Longrightarrow> credential_registry_ok (snd (bindCredential r b))"
  by (auto simp: bindCredential_def intro: credential_registry_ok_mount split: sum.splits)

theorem credential_nearest_binding_witness:
  "resolveCredential ex_credentials ex_caller ex_scope ''crm.key'' = Inr \<lparr> cv_value = ''new'', cv_source = ''kms'' \<rparr>
   \<and> credential_chain ex_credentials ex_scope ''crm.key'' \<noteq> []"
proof -
  have ok: "credential_registry_ok ex_credentials"
    by (simp add: ex_credentials_def credential_registry_ok_bind credential_registry_ok_new)
  have "resolveCredential ex_credentials ex_caller ex_scope ''crm.key'' = Inr \<lparr> cv_value = ''new'', cv_source = ''kms'' \<rparr>"
    by code_simp
  then show ?thesis using credential_nearest_binding[OF ok] by blast
qed

text \<open>C18: The accessor handed to a capability call answers exactly the declared references, each with
  the value the resolver returned for it; any other reference is reported as not found.\<close>
theorem call_credentials_least_authority:
  assumes "resolveCallCredentials resolver pr target refs = Inr values"
  shows "callCredential values ref =
    (if ref \<in> set refs then safeCredentialResolve (the resolver) pr target ref else Inl (CredNotFound ref))"
  using resolveCallCredentials_values[OF assms, of ref]
  by (auto simp: callCredential_def is_ok_iff)

theorem call_credentials_least_authority_witness:
  "\<exists>values. resolveCallCredentials
       (Some (\<lambda>pr t ref. ResolverResult (resolveCredential ex_credentials pr t ref)))
       ex_caller ex_scope [''crm.key''] = Inr values
     \<and> callCredential values ''crm.other'' = Inl (CredNotFound ''crm.other'')"
proof -
  let ?f = "Some (\<lambda>pr t ref. ResolverResult (resolveCredential ex_credentials pr t ref))"
  have "is_ok (resolveCallCredentials ?f ex_caller ex_scope [''crm.key''])" by code_simp
  then obtain vals where v: "resolveCallCredentials ?f ex_caller ex_scope [''crm.key''] = Inr vals"
    by (auto simp: is_ok_iff)
  from call_credentials_least_authority[OF v, of "''crm.other''"] v show ?thesis by simp
qed

end
