(* ===== verification/Capability_Types.thy ===== *)
theory Capability_Types
  imports Schema Credential Digest
begin

text \<open>
  The data of \<open>src/pkg/core/types.go\<close> and \<open>capability.go\<close> around capabilities: manifests, calls,
  requests, results and providers, the JSON text of a manifest (what the size limits and digests of
  the code are computed on), and the defensive and public copies of a manifest.
\<close>

section \<open>Manifests\<close>

definition SandboxReadOnly :: string where "SandboxReadOnly = ''read-only''"
definition SandboxWorkspaceWrite :: string where "SandboxWorkspaceWrite = ''workspace-write''"
definition SandboxDangerFullAccess :: string where "SandboxDangerFullAccess = ''danger-full-access''"

(* src/pkg/core/types.go:133-137 ToolExposure *)
record tool_exposure =
  te_description :: string
  te_parameters :: "json_object option"

text \<open>\<open>SandboxPolicy\<close> has the single field \<open>Mode\<close>; it is the string \<open>ex_sandbox\<close> here.\<close>

(* src/pkg/core/types.go:139-153 ExecutionSpec *)
record execution_spec =
  ex_runtime :: string
  ex_entrypoint :: string
  ex_workdir :: string
  ex_sandbox :: string
  ex_writes :: bool
  ex_method :: string
  ex_headers :: "(string, string) gomap"

(* src/pkg/core/types.go:104-124 CapabilityManifest *)
record capability_manifest =
  cm_id :: string
  cm_version :: string
  cm_name :: string
  cm_description :: string
  cm_kind :: string
  cm_contract :: string
  cm_requiredPermissions :: "permission list"
  cm_requiredCredentials :: "string list"
  cm_inputSchema :: "json_object option"
  cm_outputSchema :: "json_object option"
  cm_maxOutputBytes :: int
  cm_perTurnBudget :: int
  cm_timeoutMs :: int
  cm_idempotent :: bool
  cm_requiresApproval :: bool
  cm_tool :: "tool_exposure option"
  cm_execution :: "execution_spec option"
  cm_metadata :: "(string, string) gomap"

section \<open>Calls, results and providers\<close>

(* src/pkg/core/types.go:155-164 ToolCall *)
record tool_call =
  tc_id :: string
  tc_name :: string
  tc_args :: "json_object option"
  tc_continuation :: string

(* src/pkg/core/types.go:224-229 CapabilityResult *)
record capability_result =
  cr_content :: string
  cr_ok :: bool
  cr_metadata :: "json_object option"

(* src/pkg/core/types.go:231-237 Invocation *)
record invocation =
  in_session :: string
  in_run :: string
  in_call :: string

text \<open>
  The request of one call. \<open>rq_timeoutMs\<close> is the deadline put on the context (0 for none) and
  \<open>rq_hasInvoker\<close> tells whether a guard funnel was supplied for nested calls.
\<close>

(* src/pkg/core/types.go:239-262 CapabilityRequest *)
record capability_request =
  rq_callID :: string
  rq_idempotencyKey :: string
  rq_args :: "json_object option"
  rq_principal :: principal
  rq_scope :: scope_path
  rq_capabilityID :: string
  rq_compositionRevision :: string
  rq_policy :: string
  rq_credentials :: "(string, credential_value) gomap"
  rq_invocation :: invocation
  rq_remaining :: int
  rq_timeoutMs :: int
  rq_hasInvoker :: bool

datatype exec_outcome = ExecReturn capability_result "string option" | ExecPanic

text \<open>
  A provider is any Go value. Two of its method sets matter: \<open>ToolProvider\<close> (\<open>pv_tool\<close>, the
  outcome of \<open>Execute\<close>) and \<open>ArtifactRevisioner\<close> (\<open>pv_revision\<close>; \<open>Some None\<close> when the method
  panics).
\<close>

(* src/pkg/core/capability.go:35-38 ToolProvider *)
record provider =
  pv_tool :: "(capability_request \<Rightarrow> exec_outcome) option"
  pv_revision :: "string option option"

abbreviation executable :: "provider option \<Rightarrow> bool" where
  "executable p \<equiv> (case p of None \<Rightarrow> False | Some v \<Rightarrow> pv_tool v \<noteq> None)"

(* src/pkg/core/llm.go:237-248 validateToolCall *)
definition validateToolCall :: "tool_call \<Rightarrow> bool" where
  "validateToolCall call \<longleftrightarrow>
     \<not> (length (tc_continuation call) > 65536 \<or> \<not> valid_utf8 (tc_continuation call))
     \<and> validateToolCallID (tc_id call)
     \<and> validateNamespacedID (tc_name call)"

section \<open>Copies\<close>

(* src/pkg/core/capability.go:814-840 cloneManifest *)
definition cloneManifest :: "capability_manifest \<Rightarrow> capability_manifest" where
  "cloneManifest m = m\<lparr>
     cm_inputSchema := cloneMap (cm_inputSchema m),
     cm_outputSchema := cloneMap (cm_outputSchema m),
     cm_metadata := fold (\<lambda>(k, v). mput k v) (cm_metadata m) [],
     cm_tool := map_option (\<lambda>t. t\<lparr> te_parameters := cloneMap (te_parameters t) \<rparr>) (cm_tool m),
     cm_execution := map_option (\<lambda>e. e\<lparr> ex_headers := fold (\<lambda>(k, v). mput k v) (ex_headers e) [] \<rparr>) (cm_execution m) \<rparr>"

definition redacted :: string where
  "redacted = ''[redacted]''"

definition sensitive_key :: "string \<Rightarrow> bool" where
  "sensitive_key key =
     (let lower = to_lower_ascii key in
        contains_str lower ''secret'' \<or> contains_str lower ''password''
        \<or> contains_str lower ''token'' \<or> contains_str lower ''api_key''
        \<or> contains_str lower ''credential'' \<or> contains_str lower ''authorization'')"

(* src/pkg/core/runtime.go:326-342 redactStringMetadata *)
definition redactStringMetadata :: "(string, string) gomap \<Rightarrow> (string, string) gomap" where
  "redactStringMetadata metadata =
     fold (\<lambda>(k, v) out. if sensitive_key k then mput k redacted out else mput k v out) metadata []"

(* src/pkg/core/capability.go:842-853 publicManifest *)
definition publicManifest :: "capability_manifest \<Rightarrow> capability_manifest" where
  "publicManifest m =
     (let out = cloneManifest m in
        out\<lparr> cm_metadata := redactStringMetadata (cm_metadata out),
             cm_execution := map_option (\<lambda>e. e\<lparr> ex_headers :=
                 map (\<lambda>(k, v). if \<not> has_prefix v ''$credential:'' then (k, redacted) else (k, v)) (ex_headers e) \<rparr>)
               (cm_execution out) \<rparr>)"

section \<open>JSON text\<close>

type_synonym json_field = "string \<times> string option"

definition field :: "string \<Rightarrow> string option \<Rightarrow> json_field list" where
  "field k t = [(k, t)]"

definition omit_if :: "bool \<Rightarrow> json_field list \<Rightarrow> json_field list" where
  "omit_if absent f = (if absent then [] else f)"

definition json_record :: "json_field list list \<Rightarrow> string option" where
  "json_record fss = map_option json_struct (seq_opt (map (\<lambda>(k, t). map_option (Pair k) t) (concat fss)))"

definition json_strings :: "string list \<Rightarrow> string option" where
  "json_strings xs = Some (json_array_text (map json_string xs))"

definition json_string_map :: "(string, string) gomap \<Rightarrow> string option" where
  "json_string_map m = Some (json_map_text (map (\<lambda>(k, v). (k, json_string v)) m))"

definition json_bool :: "bool \<Rightarrow> string option" where
  "json_bool b = Some (if b then ''true'' else ''false'')"

definition schema_empty :: "json_object option \<Rightarrow> bool" where
  "schema_empty s = (case s of None \<Rightarrow> True | Some m \<Rightarrow> m = [])"

definition schema_field :: "string \<Rightarrow> json_object option \<Rightarrow> json_field list" where
  "schema_field k s = (case s of None \<Rightarrow> [] | Some m \<Rightarrow> if m = [] then [] else [(k, json_object_text m)])"

definition string_field :: "string \<Rightarrow> string \<Rightarrow> json_field list" where
  "string_field k s = omit_if (s = []) (field k (Some (json_string s)))"

definition int_field :: "string \<Rightarrow> int \<Rightarrow> json_field list" where
  "int_field k n = omit_if (n = 0) (field k (Some (int_str n)))"

definition flag_field :: "string \<Rightarrow> bool \<Rightarrow> json_field list" where
  "flag_field k b = omit_if (\<not> b) (field k (json_bool b))"

(* src/pkg/core/scope.go:124-127 MarshalJSON *)
definition json_scope :: "scope_path \<Rightarrow> string option" where
  "json_scope p =
     Some (if p = [] then ''null''
           else json_array_text (map (\<lambda>s. json_struct [(''kind'', json_string (sr_kind s)), (''id'', json_string (sr_id s))]) p))"

definition json_tool :: "tool_exposure \<Rightarrow> string option" where
  "json_tool t = json_record [string_field ''description'' (te_description t), schema_field ''parameters'' (te_parameters t)]"

definition json_execution :: "execution_spec \<Rightarrow> string option" where
  "json_execution e = json_record
     [field ''runtime'' (Some (json_string (ex_runtime e))),
      field ''entrypoint'' (Some (json_string (ex_entrypoint e))),
      string_field ''workdir'' (ex_workdir e),
      field ''sandbox'' (Some (json_struct [(''Mode'', json_string (ex_sandbox e))])),
      flag_field ''writes'' (ex_writes e),
      string_field ''method'' (ex_method e),
      omit_if (ex_headers e = []) (field ''headers'' (json_string_map (ex_headers e)))]"

definition json_manifest :: "capability_manifest \<Rightarrow> string option" where
  "json_manifest m = json_record
     [field ''id'' (Some (json_string (cm_id m))),
      field ''version'' (Some (json_string (cm_version m))),
      field ''name'' (Some (json_string (cm_name m))),
      string_field ''description'' (cm_description m),
      field ''kind'' (Some (json_string (cm_kind m))),
      string_field ''contract'' (cm_contract m),
      omit_if (cm_requiredPermissions m = []) (field ''required_permissions'' (json_strings (cm_requiredPermissions m))),
      omit_if (cm_requiredCredentials m = []) (field ''required_credentials'' (json_strings (cm_requiredCredentials m))),
      schema_field ''input_schema'' (cm_inputSchema m),
      schema_field ''output_schema'' (cm_outputSchema m),
      int_field ''max_output_bytes'' (cm_maxOutputBytes m),
      int_field ''per_turn_budget'' (cm_perTurnBudget m),
      int_field ''timeout_ms'' (cm_timeoutMs m),
      flag_field ''idempotent'' (cm_idempotent m),
      flag_field ''requires_approval'' (cm_requiresApproval m),
      (case cm_tool m of None \<Rightarrow> [] | Some t \<Rightarrow> field ''tool'' (json_tool t)),
      (case cm_execution m of None \<Rightarrow> [] | Some e \<Rightarrow> field ''execution'' (json_execution e)),
      omit_if (cm_metadata m = []) (field ''metadata'' (json_string_map (cm_metadata m)))]"

section \<open>Facts\<close>

lemma cloneManifest_simps [simp]:
  "cm_id (cloneManifest m) = cm_id m" "cm_version (cloneManifest m) = cm_version m"
  "cm_name (cloneManifest m) = cm_name m" "cm_kind (cloneManifest m) = cm_kind m"
  "cm_description (cloneManifest m) = cm_description m" "cm_contract (cloneManifest m) = cm_contract m"
  "cm_requiredPermissions (cloneManifest m) = cm_requiredPermissions m"
  "cm_requiredCredentials (cloneManifest m) = cm_requiredCredentials m"
  "cm_maxOutputBytes (cloneManifest m) = cm_maxOutputBytes m"
  "cm_perTurnBudget (cloneManifest m) = cm_perTurnBudget m"
  "cm_timeoutMs (cloneManifest m) = cm_timeoutMs m"
  "cm_idempotent (cloneManifest m) = cm_idempotent m"
  "cm_requiresApproval (cloneManifest m) = cm_requiresApproval m"
  "cm_tool (cloneManifest m) = None \<longleftrightarrow> cm_tool m = None"
  by (simp_all add: cloneManifest_def)

lemma publicManifest_simps [simp]:
  "cm_id (publicManifest m) = cm_id m" "cm_version (publicManifest m) = cm_version m"
  "cm_kind (publicManifest m) = cm_kind m"
  "cm_requiredPermissions (publicManifest m) = cm_requiredPermissions m"
  "cm_requiredCredentials (publicManifest m) = cm_requiredCredentials m"
  "cm_requiresApproval (publicManifest m) = cm_requiresApproval m"
  by (simp_all add: publicManifest_def Let_def)

lemma fold_copy_members:
  "(k, v) \<in> set (fold (\<lambda>(k, v) out. mput k (f k v) out) m out) \<Longrightarrow>
     (k, v) \<in> set out \<or> (\<exists>w. (k, w) \<in> set m \<and> v = f k w)"
proof (induction m arbitrary: out)
  case (Cons x m)
  obtain a w where x: "x = (a, w)" by force
  have upd: "(k, v) \<in> set (mput a u out) \<Longrightarrow> (k, v) \<in> set out \<or> (k = a \<and> v = u)" for u
    by (induction out) (auto split: if_splits)
  from Cons show ?case by (auto simp: x dest!: Cons.IH upd)
qed simp

lemma redactStringMetadata_members:
  assumes "(k, v) \<in> set (redactStringMetadata m)"
  shows "\<exists>w. (k, w) \<in> set m \<and> v = (if sensitive_key k then redacted else w)"
proof -
  have "redactStringMetadata m = fold (\<lambda>(k, v) out. mput k (if sensitive_key k then redacted else v) out) m []"
    unfolding redactStringMetadata_def by (intro fold_cong refl) auto
  with assms show ?thesis
    using fold_copy_members[of k v "\<lambda>k v. if sensitive_key k then redacted else v" m "[]"] by auto
qed

lemma fold_copy_subset: "(k, v) \<in> set (fold (\<lambda>(k, v). mput k v) fs []) \<Longrightarrow> (k, v) \<in> set fs"
  using fold_copy_members[of k v "\<lambda>k v. v" fs "[]"] by auto

lemma public_metadata:
  assumes "(k, v) \<in> set (cm_metadata (publicManifest m))"
  shows "if sensitive_key k then v = redacted else (k, v) \<in> set (cm_metadata m)"
proof -
  have "(k, v) \<in> set (redactStringMetadata (fold (\<lambda>(k, v). mput k v) (cm_metadata m) []))"
    using assms by (simp add: publicManifest_def cloneManifest_def Let_def)
  from redactStringMetadata_members[OF this] show ?thesis
    by (auto dest: fold_copy_subset)
qed

lemma public_headers:
  assumes "cm_execution (publicManifest m) = Some e" "(k, v) \<in> set (ex_headers e)"
  shows "v = redacted \<or> has_prefix v ''$credential:''
    \<and> (\<exists>e0. cm_execution m = Some e0 \<and> (k, v) \<in> set (ex_headers e0))"
  using assms
  by (auto simp: publicManifest_def cloneManifest_def Let_def split: if_splits dest!: fold_copy_subset)

section \<open>Properties\<close>

text \<open>C40: The public view of a manifest leaks no literal secret: every metadata value under a
  sensitive-looking key is redacted, every execution header that is not a credential reference is
  redacted, and every other entry is one of the original manifest.\<close>
theorem public_manifest_redacts:
  "(\<forall>k v. (k, v) \<in> set (cm_metadata (publicManifest m)) \<longrightarrow>
       (if sensitive_key k then v = redacted else (k, v) \<in> set (cm_metadata m)))
   \<and> (\<forall>e k v. cm_execution (publicManifest m) = Some e \<and> (k, v) \<in> set (ex_headers e) \<longrightarrow>
       v = redacted \<or> has_prefix v ''$credential:''
         \<and> (\<exists>e0. cm_execution m = Some e0 \<and> (k, v) \<in> set (ex_headers e0)))"
  using public_metadata public_headers by blast

definition ex_manifest :: "string \<Rightarrow> capability_manifest" where
  "ex_manifest name = \<lparr> cm_id = name, cm_version = ''1'', cm_name = ''n'', cm_description = [],
     cm_kind = ''tool'', cm_contract = [], cm_requiredPermissions = [], cm_requiredCredentials = [],
     cm_inputSchema = None, cm_outputSchema = None, cm_maxOutputBytes = 0, cm_perTurnBudget = 0,
     cm_timeoutMs = 0, cm_idempotent = True, cm_requiresApproval = False,
     cm_tool = Some \<lparr> te_description = [], te_parameters = None \<rparr>,
     cm_execution = Some \<lparr> ex_runtime = ''http'', ex_entrypoint = ''https://x'', ex_workdir = [],
       ex_sandbox = SandboxReadOnly, ex_writes = False, ex_method = [],
       ex_headers = [(''X-Key'', ''k123'')] \<rparr>,
     cm_metadata = [(''API_Key'', ''s3cr3t'')] \<rparr>"

theorem public_manifest_redacts_witness:
  "(''API_Key'', redacted) \<in> set (cm_metadata (publicManifest (ex_manifest ''a.b'')))
   \<and> sensitive_key ''API_Key''"
proof -
  have "map fst (cm_metadata (publicManifest (ex_manifest ''a.b''))) = [''API_Key'']" by code_simp
  then obtain v where v: "cm_metadata (publicManifest (ex_manifest ''a.b'')) = [(''API_Key'', v)]"
    by (auto simp: map_eq_Cons_conv)
  have s: "sensitive_key ''API_Key''" by code_simp
  then have "v = redacted" using public_manifest_redacts[of "ex_manifest ''a.b''"] v by force
  with v s show ?thesis by simp
qed

end
