(* ===== verification/Policy.thy ===== *)
theory Policy
  imports Scoped_Registry Principal Identifiers
begin

text \<open>
  The layered run policy of \<open>src/pkg/core/policy.go\<close>: a registry of policy layers and the
  resolution that walks the target's prefixes from the root and narrows the principal's grants and
  the two caps. The lemmas give resolution in closed form, as an intersection over the layers that
  is independent of their order.
\<close>

section \<open>Model\<close>

(* src/pkg/core/agent.go:20-20 HardMaxSteps *)
definition HardMaxSteps :: int where
  "HardMaxSteps = 128"

(* src/pkg/core/agent.go:21-21 HardMaxToolCalls *)
definition HardMaxToolCalls :: int where
  "HardMaxToolCalls = 1024"

(* src/pkg/core/policy.go:9-26 PolicyLayer *)
record policy_layer =
  pl_scope :: scope_path
  pl_allow :: "permission list"
  pl_deny :: "permission list"
  pl_maxSteps :: "int option"
  pl_maxToolCalls :: "int option"

datatype policy_error =
    PolicyEmptyScope
  | PolicyBadSteps
  | PolicyBadToolCalls
  | PolicyBadPermission permission
  | PolicyRegistryFull
  | PolicyScopeNotOwned

(* src/pkg/core/policy.go:33-40 PolicyRegistry *)
type_synonym policy_registry = "policy_layer registry"

definition cap_out_of_range :: "int option \<Rightarrow> int \<Rightarrow> bool" where
  "cap_out_of_range c hard = (case c of None \<Rightarrow> False | Some v \<Rightarrow> v \<le> 0 \<or> v > hard)"

(* src/pkg/core/policy.go:54-67 Mount *)
definition validatePolicyLayer :: "policy_layer \<Rightarrow> policy_error + unit" where
  "validatePolicyLayer l =
     (if pl_scope l = [] then Inl PolicyEmptyScope
      else if cap_out_of_range (pl_maxSteps l) HardMaxSteps then Inl PolicyBadSteps
      else if cap_out_of_range (pl_maxToolCalls l) HardMaxToolCalls then Inl PolicyBadToolCalls
      else case find (\<lambda>p. \<not> validateNamespacedID p) (pl_allow l @ pl_deny l) of
             Some p \<Rightarrow> Inl (PolicyBadPermission p)
           | None \<Rightarrow> Inr ())"

(* src/pkg/core/policy.go:52-91 Mount *)
definition mountPolicy :: "policy_registry \<Rightarrow> policy_layer \<Rightarrow> policy_error + mount_handle \<times> policy_registry" where
  "mountPolicy r l =
     rbind (validatePolicyLayer l) (\<lambda>_.
       case registryPush (scopeString (pl_scope l)) l r of
         None \<Rightarrow> Inl PolicyRegistryFull
       | Some hr \<Rightarrow> Inr hr)"

(* src/pkg/core/policy.go:46-50 Bind *)
definition bindPolicy :: "policy_registry \<Rightarrow> policy_layer \<Rightarrow> policy_error option \<times> policy_registry" where
  "bindPolicy r l = (case mountPolicy r l of Inl e \<Rightarrow> (Some e, r) | Inr (_, r') \<Rightarrow> (None, r'))"

(* src/pkg/core/policy.go:93-99 ResolvedPolicy *)
record resolved_policy =
  rp_permissions :: permission_set
  rp_maxSteps :: "int option"
  rp_maxToolCalls :: "int option"

(* src/pkg/core/policy.go:158-165 Resolve *)
definition tighten :: "int option \<Rightarrow> int option \<Rightarrow> int option" where
  "tighten layer cur =
     (case layer of
        None \<Rightarrow> cur
      | Some v \<Rightarrow> (case cur of None \<Rightarrow> Some v | Some w \<Rightarrow> if v < w then Some v else Some w))"

(* src/pkg/core/policy.go:149-166 Resolve *)
definition applyLayer :: "policy_layer \<Rightarrow> resolved_policy \<Rightarrow> resolved_policy" where
  "applyLayer layer res =
     (let perms1 = (if pl_allow layer \<noteq> []
                    then intersectPermissions (rp_permissions res) (newPermissionSet (pl_allow layer))
                    else rp_permissions res);
          perms2 = fold mdel (pl_deny layer) perms1
      in \<lparr> rp_permissions = perms2,
           rp_maxSteps = tighten (pl_maxSteps layer) (rp_maxSteps res),
           rp_maxToolCalls = tighten (pl_maxToolCalls layer) (rp_maxToolCalls res) \<rparr>)"

(* src/pkg/core/policy.go:137-169 Resolve *)
definition resolvePolicy :: "policy_registry \<Rightarrow> principal \<Rightarrow> scope_path \<Rightarrow> policy_error + resolved_policy" where
  "resolvePolicy r prin target =
     (if \<not> isAncestorOf (pr_scope prin) target then Inl PolicyScopeNotOwned
      else Inr (fold (\<lambda>prefix res. fold (\<lambda>(layer, _). applyLayer layer) (registryLayer r prefix) res)
                  (scopePrefixes target)
                  \<lparr> rp_permissions = clonePermissions (pr_grants prin),
                    rp_maxSteps = None, rp_maxToolCalls = None \<rparr>))"

(* src/pkg/core/policy.go:110-135 List *)
definition listPolicies :: "policy_registry \<Rightarrow> scope_path \<Rightarrow> policy_error + policy_layer list" where
  "listPolicies r target =
     (if target = [] then Inl PolicyEmptyScope
      else Inr (concat (map (\<lambda>prefix. map fst (registryLayer r prefix)) (scopePrefixes target))))"

section \<open>The registry contract\<close>

lemma mountPolicy_eq:
  "mountPolicy r l = Inr (h, r') \<longleftrightarrow>
     validatePolicyLayer l = Inr () \<and> registryPush (scopeString (pl_scope l)) l r = Some (h, r')"
  by (auto simp: mountPolicy_def rbind_eq_Inr split: option.splits)

interpretation pol: mountable registry_inv "\<lambda>_ _. True" reg_view "\<lambda>k s. (k, snd s)" mountPolicy registryUnmount
  by (rule mountable_registryI) (auto simp: mountPolicy_eq)

section \<open>Resolution in closed form\<close>

text \<open>The layers a run at \<open>target\<close> is subject to, root first.\<close>

definition policy_layers :: "policy_registry \<Rightarrow> scope_path \<Rightarrow> policy_layer list" where
  "policy_layers r target = map fst (registryWalk r target)"

definition layer_permits :: "policy_layer \<Rightarrow> permission \<Rightarrow> bool" where
  "layer_permits l p \<longleftrightarrow> (pl_allow l = [] \<or> p \<in> set (pl_allow l)) \<and> p \<notin> set (pl_deny l)"

text \<open>The strictest of the caps that the layers set, if any.\<close>

definition strictest :: "int option list \<Rightarrow> int option" where
  "strictest cs = (case List.map_filter id cs of [] \<Rightarrow> None | vs \<Rightarrow> Some (Min (set vs)))"

lemma resolvePolicy_fold:
  "resolvePolicy r pr target =
     (if isAncestorOf (pr_scope pr) target
      then Inr (fold applyLayer (policy_layers r target)
             \<lparr> rp_permissions = clonePermissions (pr_grants pr), rp_maxSteps = None, rp_maxToolCalls = None \<rparr>)
      else Inl PolicyScopeNotOwned)"
proof -
  have "fold (\<lambda>prefix res. fold (\<lambda>(layer, _). applyLayer layer) (registryLayer r prefix) res) ps res
      = fold applyLayer (map fst (concat (map (registryLayer r) ps))) res" for ps res
    by (induction ps arbitrary: res) (simp_all add: fold_map comp_def case_prod_unfold)
  then show ?thesis by (simp add: resolvePolicy_def registryWalk_def policy_layers_def)
qed

lemma fold_mdel: "granted (fold mdel ds s) p \<longleftrightarrow> granted s p \<and> p \<notin> set ds"
  by (induction ds arbitrary: s) (auto simp: granted_delete)

lemma fold_mdel_ok: "gomap_ok s \<Longrightarrow> gomap_ok (fold mdel ds s)"
  by (induction ds arbitrary: s) auto

lemma applyLayer_permissions:
  assumes "gomap_ok (rp_permissions res)"
  shows "gomap_ok (rp_permissions (applyLayer l res))"
    and "granted (rp_permissions (applyLayer l res)) p \<longleftrightarrow> granted (rp_permissions res) p \<and> layer_permits l p"
  using assms by (auto simp: applyLayer_def Let_def fold_mdel fold_mdel_ok granted_intersect granted_new layer_permits_def)

lemma fold_applyLayer_permissions:
  "gomap_ok (rp_permissions res) \<Longrightarrow>
     granted (rp_permissions (fold applyLayer ls res)) p
       \<longleftrightarrow> granted (rp_permissions res) p \<and> (\<forall>l \<in> set ls. layer_permits l p)"
  by (induction ls arbitrary: res) (auto simp: applyLayer_permissions)

lemma map_filter_id_simps [simp]:
  "List.map_filter id (None # cs) = List.map_filter id cs"
  "List.map_filter id (Some v # cs) = v # List.map_filter id cs"
  by simp_all

lemma strictest_Cons: "strictest (c # cs) = tighten c (strictest cs)"
  by (auto simp: strictest_def tighten_def min_def split: option.splits list.splits)

lemma tighten_assoc: "tighten a (tighten b c) = tighten (tighten a b) c"
  by (auto simp: tighten_def split: option.splits if_splits)

lemma tighten_comm: "tighten a b = tighten b a"
  by (auto simp: tighten_def split: option.splits)

lemma fold_tighten: "fold tighten cs c = tighten (strictest cs) c"
proof (induction cs arbitrary: c)
  case Nil then show ?case by (simp add: strictest_def tighten_def)
next
  case (Cons a cs)
  then show ?case by (simp add: strictest_Cons) (metis tighten_assoc tighten_comm)
qed

lemma fold_applyLayer_caps:
  "rp_maxSteps (fold applyLayer ls res) = fold tighten (map pl_maxSteps ls) (rp_maxSteps res)"
  "rp_maxToolCalls (fold applyLayer ls res) = fold tighten (map pl_maxToolCalls ls) (rp_maxToolCalls res)"
  by (induction ls arbitrary: res) (simp_all add: applyLayer_def Let_def)

lemma tighten_None [simp]: "tighten c None = c" "tighten None c = c"
  by (simp_all add: tighten_def split: option.splits)

lemma strictest_eq_Some:
  "strictest cs = Some v \<longleftrightarrow> Some v \<in> set cs \<and> (\<forall>w. Some w \<in> set cs \<longrightarrow> v \<le> w)"
proof -
  have vs: "set (List.map_filter id cs) = {w. Some w \<in> set cs}"
    by (induction cs) (auto split: option.splits)
  show ?thesis
  proof (cases "List.map_filter id cs")
    case Nil
    with vs show ?thesis by (auto simp: strictest_def)
  next
    case (Cons w ws)
    have "strictest cs = Some v \<longleftrightarrow> Min (set (w # ws)) = v"
      unfolding strictest_def Cons by simp
    also have "\<dots> \<longleftrightarrow> v \<in> set (w # ws) \<and> (\<forall>u \<in> set (w # ws). v \<le> u)"
      by (rule Min_eq_iff) simp_all
    finally show ?thesis unfolding Cons[symmetric] vs by auto
  qed
qed

lemma registryWalk_push:
  assumes "registry_inv r" "registryPush key b r = Some (h, r')"
  shows "set (registryWalk r t) \<subseteq> set (registryWalk r' t)"
  using assms(1) registryPush_inv[OF assms] registryPush_view(1)[OF assms(2)]
  by (auto simp: registryWalk_def registryLayer_eq split: if_splits)

lemma strictest_mono:
  assumes "set cs \<subseteq> set ds" "strictest cs = Some v"
  shows "\<exists>w. strictest ds = Some w \<and> w \<le> v"
proof -
  have v: "Some v \<in> set ds" using assms by (auto simp: strictest_eq_Some)
  then have "strictest ds \<noteq> None"
    by (induction ds) (auto simp: strictest_Cons tighten_def split: option.splits)
  with v show ?thesis by (auto simp: strictest_eq_Some)
qed

lemma resolvePolicy_closed:
  assumes "principal_wf pr" "resolvePolicy r pr target = Inr rp"
  shows "granted (rp_permissions rp) p \<longleftrightarrow>
          granted (pr_grants pr) p \<and> (\<forall>l \<in> set (policy_layers r target). layer_permits l p)"
    and "rp_maxSteps rp = strictest (map pl_maxSteps (policy_layers r target))"
    and "rp_maxToolCalls rp = strictest (map pl_maxToolCalls (policy_layers r target))"
  using assms
  by (auto simp: resolvePolicy_fold fold_applyLayer_permissions fold_applyLayer_caps fold_tighten
      granted_clone principal_wf_def split: if_splits)

section \<open>Properties\<close>

text \<open>C6: Resolving a policy is exactly the intersection of the layers on the target's path: a
  permission is granted iff the principal holds it and every layer bound at the target or an
  ancestor permits it (deny wins over allow), and each cap is the least one any layer sets.\<close>
theorem policy_resolve_exact:
  assumes "principal_wf pr" "resolvePolicy r pr target = Inr rp"
  shows "(\<forall>p. granted (rp_permissions rp) p \<longleftrightarrow>
            granted (pr_grants pr) p \<and> (\<forall>l \<in> set (policy_layers r target). layer_permits l p))
    \<and> rp_maxSteps rp = strictest (map pl_maxSteps (policy_layers r target))
    \<and> rp_maxToolCalls rp = strictest (map pl_maxToolCalls (policy_layers r target))"
  using resolvePolicy_closed[OF assms] by blast

definition ex_tenant :: scope_path where
  "ex_tenant = [\<lparr> sr_kind = ScopeTenant, sr_id = ''acme'' \<rparr>]"

definition ex_principal :: principal where
  "ex_principal = \<lparr> pr_subject = ''u1'', pr_tenant = ''acme'', pr_scope = ex_tenant,
     pr_grants = [(''data.read'', True), (''data.send'', True)], pr_attributes = [] \<rparr>"

definition ex_layer :: policy_layer where
  "ex_layer = \<lparr> pl_scope = ex_tenant, pl_allow = [], pl_deny = [''data.send''],
     pl_maxSteps = Some 5, pl_maxToolCalls = None \<rparr>"

definition ex_policies :: policy_registry where
  "ex_policies = snd (bindPolicy newRegistry ex_layer)"

lemmas ex_policy_defs = ex_tenant_def ex_principal_def ex_layer_def ex_policies_def

lemma ex_policy_facts: "principal_wf ex_principal \<and> policy_layers ex_policies ex_tenant = [ex_layer]
   \<and> is_ok (mountPolicy newRegistry ex_layer)"
  by code_simp

theorem policy_resolve_exact_witness:
  "principal_wf ex_principal \<and>
   (\<exists>rp. resolvePolicy ex_policies ex_principal ex_tenant = Inr rp \<and> rp_maxSteps rp = Some 5
      \<and> \<not> granted (rp_permissions rp) ''data.send'' \<and> granted (rp_permissions rp) ''data.read'')"
proof -
  have wf: "principal_wf ex_principal" using ex_policy_facts by simp
  obtain rp where rp: "resolvePolicy ex_policies ex_principal ex_tenant = Inr rp"
    by (simp add: resolvePolicy_def isAncestorOf_prefix ex_principal_def)
  have ls: "policy_layers ex_policies ex_tenant = [ex_layer]" using ex_policy_facts by simp
  show ?thesis
    using policy_resolve_exact[OF wf rp] wf rp
    by (auto simp: ls layer_permits_def ex_layer_def ex_principal_def mget_def strictest_def)
qed

text \<open>C31: Mounting a further policy layer can only narrow: whatever a run resolved after the mount
  is granted, it was granted before, and a cap that was set stays set and does not grow.\<close>
theorem policy_mount_narrows:
  assumes "registry_inv r" "mountPolicy r l = Inr (h, r')" "principal_wf pr"
    and "resolvePolicy r pr target = Inr rp" "resolvePolicy r' pr target = Inr rp'"
  shows "(\<forall>p. granted (rp_permissions rp') p \<longrightarrow> granted (rp_permissions rp) p)
    \<and> (\<forall>v. rp_maxSteps rp = Some v \<longrightarrow> (\<exists>w. rp_maxSteps rp' = Some w \<and> w \<le> v))
    \<and> (\<forall>v. rp_maxToolCalls rp = Some v \<longrightarrow> (\<exists>w. rp_maxToolCalls rp' = Some w \<and> w \<le> v))"
proof -
  have sub: "set (policy_layers r target) \<subseteq> set (policy_layers r' target)"
    using registryWalk_push assms(1,2) by (fastforce simp: mountPolicy_eq policy_layers_def)
  then have "set (map c (policy_layers r target)) \<subseteq> set (map c (policy_layers r' target))"
    for c :: "policy_layer \<Rightarrow> int option" by auto
  with sub show ?thesis
    unfolding resolvePolicy_closed[OF assms(3,4)] resolvePolicy_closed[OF assms(3,5)]
    by (blast intro: strictest_mono)
qed

theorem policy_mount_narrows_witness:
  "registry_inv (newRegistry :: policy_registry) \<and>
   (\<exists>h r' rp rp'. mountPolicy newRegistry ex_layer = Inr (h, r')
      \<and> resolvePolicy newRegistry ex_principal ex_tenant = Inr rp
      \<and> resolvePolicy r' ex_principal ex_tenant = Inr rp'
      \<and> granted (rp_permissions rp) ''data.read'' \<and> granted (rp_permissions rp') ''data.read'')"
proof -
  have wf: "principal_wf ex_principal" using ex_policy_facts by simp
  have "is_ok (mountPolicy newRegistry ex_layer)" using ex_policy_facts by simp
  then obtain h r' where m: "mountPolicy newRegistry ex_layer = Inr (h, r')"
    by (auto simp: is_ok_iff)
  obtain rp rp' where rp: "resolvePolicy newRegistry ex_principal ex_tenant = Inr rp"
    and rp': "resolvePolicy r' ex_principal ex_tenant = Inr rp'"
    by (simp add: resolvePolicy_def isAncestorOf_prefix ex_principal_def)
  have "r' = ex_policies" using m by (simp add: ex_policies_def bindPolicy_def)
  then have "resolvePolicy ex_policies ex_principal ex_tenant = Inr rp'" using rp' by simp
  then have "granted (rp_permissions rp') ''data.read''"
    using resolvePolicy_closed[OF wf] ex_policy_facts by (auto simp: layer_permits_def ex_layer_def ex_principal_def mget_def)
  moreover from this have "granted (rp_permissions rp) ''data.read''"
    using policy_mount_narrows[OF registry_inv_new m wf rp rp'] by blast
  ultimately show ?thesis using m rp rp' by auto
qed

end
