(* ===== verification/Capability.thy ===== *)
theory Capability
  imports Capability_Types Policy
begin

text \<open>
  The capability registry, its resolver and the per-run snapshot of
  \<open>src/pkg/core/capability.go\<close>. Mounting validates and freezes a contribution; resolution walks the
  prefixes of the target and applies provide, replace and disable; a snapshot is the
  permission-filtered, sorted result together with the providers it selected.
\<close>

section \<open>Mounting\<close>

definition BindingProvide :: string where "BindingProvide = ''provide''"
definition BindingReplace :: string where "BindingReplace = ''replace''"
definition BindingDisable :: string where "BindingDisable = ''disable''"

lemmas binding_mode_defs = BindingProvide_def BindingReplace_def BindingDisable_def

definition MaxCapabilityTimeoutMs :: int where "MaxCapabilityTimeoutMs = 86400000"
definition MaxCapabilityManifestBytes :: nat where "MaxCapabilityManifestBytes = 262144"
definition MaxCapabilitySnapshotBytes :: nat where "MaxCapabilitySnapshotBytes = 8388608"
definition DefaultMaxCapabilityOutputBytes :: int where "DefaultMaxCapabilityOutputBytes = 1048576"
definition HardMaxCapabilityOutputBytes :: int where "HardMaxCapabilityOutputBytes = 16777216"

(* src/pkg/core/capability.go:96-103 CapabilityBinding *)
record capability_binding =
  bd_scope :: scope_path
  bd_mode :: string
  bd_manifest :: capability_manifest
  bd_provider :: "provider option"
  bd_protected :: bool

(* src/pkg/core/capability.go:105-117 CapabilityRegistry *)
type_synonym capability_registry = "capability_binding registry"

datatype capability_error =
    CapEmptyScope
  | CapBadID
  | CapEmptyVersion
  | CapEmptyKind
  | CapBadBudget
  | CapBadOutputBytes
  | CapBadTimeout
  | CapBadPermission permission
  | CapRepeatedPermission permission
  | CapBadCredential string
  | CapRepeatedCredential string
  | CapBadInputSchema
  | CapBadOutputSchema
  | CapBadToolSchema
  | CapBadSandbox string
  | CapNotSerializable
  | CapManifestTooLarge
  | CapNoProvider
  | CapNotToolProvider
  | CapBadMode string
  | CapRegistryFull
  | CapNoExecution
  | CapWrongRuntime
  | CapManifestPanicked
  | CapScopeNotOwned
  | CapAlreadyProvided string
  | CapReplaceMissing string
  | CapProtected string scope_path
  | CapSnapshotTooLarge

text \<open>The loop with the \<open>seen\<close> map: the first item that is malformed or repeated.\<close>

fun check_unique :: "(string \<Rightarrow> bool) \<Rightarrow> (string \<Rightarrow> 'e) \<Rightarrow> (string \<Rightarrow> 'e) \<Rightarrow> string set \<Rightarrow> string list \<Rightarrow> 'e option" where
  "check_unique ok bad rep seen [] = None"
| "check_unique ok bad rep seen (x # xs) =
     (if \<not> ok x then Some (bad x)
      else if x \<in> seen then Some (rep x)
      else check_unique ok bad rep (insert x seen) xs)"

(* src/pkg/core/capability.go:199-251 validateCapabilityManifest *)
definition validateCapabilityManifest :: "regexp \<Rightarrow> capability_manifest \<Rightarrow> capability_error option" where
  "validateCapabilityManifest rx m =
     (if blank (cm_kind m) then Some CapEmptyKind
      else if cm_perTurnBudget m < 0 \<or> cm_perTurnBudget m > HardMaxToolCalls then Some CapBadBudget
      else if cm_maxOutputBytes m < 0 \<or> cm_maxOutputBytes m > HardMaxCapabilityOutputBytes then Some CapBadOutputBytes
      else if cm_timeoutMs m < 0 \<or> cm_timeoutMs m > MaxCapabilityTimeoutMs then Some CapBadTimeout
      else first_err
        (check_unique validateNamespacedID CapBadPermission CapRepeatedPermission {} (cm_requiredPermissions m))
        (first_err
          (check_unique validateCredentialRef CapBadCredential CapRepeatedCredential {} (cm_requiredCredentials m))
          (if \<not> validateSchema rx (cm_inputSchema m) then Some CapBadInputSchema
           else if \<not> validateSchema rx (cm_outputSchema m) then Some CapBadOutputSchema
           else if (case cm_tool m of None \<Rightarrow> False | Some t \<Rightarrow> \<not> validateSchema rx (te_parameters t)) then Some CapBadToolSchema
           else case cm_execution m of
                  None \<Rightarrow> None
                | Some e \<Rightarrow>
                    if ex_sandbox e \<in> {[], SandboxReadOnly, SandboxWorkspaceWrite, SandboxDangerFullAccess} then None
                    else Some (CapBadSandbox (ex_sandbox e)))))"

(* src/pkg/core/capability.go:132-172 Mount *)
definition prepareCapability :: "regexp \<Rightarrow> capability_binding \<Rightarrow> capability_error + capability_binding" where
  "prepareCapability rx b =
     (if bd_scope b = [] then Inl CapEmptyScope
      else if \<not> validateNamespacedID (cm_id (bd_manifest b)) then Inl CapBadID
      else if cm_version (bd_manifest b) = [] then Inl CapEmptyVersion
      else let b1 = (if bd_mode b = [] then b\<lparr> bd_mode := BindingProvide \<rparr> else b) in
        if bd_mode b1 = BindingProvide \<or> bd_mode b1 = BindingReplace then
          (case validateCapabilityManifest rx (bd_manifest b1) of
             Some e \<Rightarrow> Inl e
           | None \<Rightarrow>
               (case json_manifest (bd_manifest b1) of
                  None \<Rightarrow> Inl CapNotSerializable
                | Some encodedManifest \<Rightarrow>
                    if length encodedManifest > MaxCapabilityManifestBytes then Inl CapManifestTooLarge
                    else if bd_provider b1 = None then Inl CapNoProvider
                    else if cm_tool (bd_manifest b1) \<noteq> None \<and> \<not> executable (bd_provider b1) then Inl CapNotToolProvider
                    else Inr (b1\<lparr> bd_manifest := cloneManifest (bd_manifest b1) \<rparr>)))
        else if bd_mode b1 = BindingDisable then
          Inr (b1\<lparr> bd_provider := None, bd_manifest := cloneManifest (bd_manifest b1) \<rparr>)
        else Inl (CapBadMode (bd_mode b1)))"

(* src/pkg/core/capability.go:130-197 Mount *)
definition mountCapability :: "regexp \<Rightarrow> capability_registry \<Rightarrow> capability_binding
    \<Rightarrow> capability_error + mount_handle \<times> capability_registry" where
  "mountCapability rx r b =
     rbind (prepareCapability rx b) (\<lambda>b1.
       case registryPush (scopeString (bd_scope b1)) b1 r of
         None \<Rightarrow> Inl CapRegistryFull
       | Some hr \<Rightarrow> Inr hr)"

(* src/pkg/core/capability.go:124-128 Bind *)
definition bindCapability :: "regexp \<Rightarrow> capability_registry \<Rightarrow> capability_binding
    \<Rightarrow> capability_error option \<times> capability_registry" where
  "bindCapability rx r b = (case mountCapability rx r b of Inl e \<Rightarrow> (Some e, r) | Inr (_, r') \<Rightarrow> (None, r'))"

text \<open>A capability value gives a manifest (\<open>None\<close> when its method panics) and acts as the provider.\<close>

(* src/pkg/core/capability.go:253-265 Register *)
definition registerCapability :: "regexp \<Rightarrow> capability_registry \<Rightarrow> scope_path \<Rightarrow> (capability_manifest option \<times> provider) option
    \<Rightarrow> capability_error option \<times> capability_registry" where
  "registerCapability rx r scope capability =
     (case capability of
        None \<Rightarrow> (Some CapNoProvider, r)
      | Some (None, _) \<Rightarrow> (Some CapManifestPanicked, r)
      | Some (Some m, p) \<Rightarrow> bindCapability rx r
          \<lparr> bd_scope = scope, bd_mode = BindingProvide, bd_manifest = m, bd_provider = Some p, bd_protected = False \<rparr>)"

text \<open>An executor is its runtime name and the provider that \<open>ExecutorProvider\<close> wraps around it.\<close>

(* src/pkg/core/capability.go:267-279 RegisterExecutor *)
definition registerExecutor :: "regexp \<Rightarrow> capability_registry \<Rightarrow> scope_path \<Rightarrow> capability_manifest
    \<Rightarrow> (string \<times> (execution_spec \<Rightarrow> provider)) option \<Rightarrow> capability_error option \<times> capability_registry" where
  "registerExecutor rx r scope m executor =
     (case cm_execution m of
        None \<Rightarrow> (Some CapNoExecution, r)
      | Some spec \<Rightarrow>
          (case executor of
             None \<Rightarrow> (Some CapWrongRuntime, r)
           | Some (runtime, wrap) \<Rightarrow>
               if runtime \<noteq> ex_runtime spec then (Some CapWrongRuntime, r)
               else bindCapability rx r
                 \<lparr> bd_scope = scope, bd_mode = BindingProvide, bd_manifest = m,
                   bd_provider = Some (wrap spec), bd_protected = False \<rparr>))"

section \<open>Resolution\<close>

(* src/pkg/core/capability.go:287-293 resolvedEntry *)
record resolved_entry =
  re_manifest :: capability_manifest
  re_provider :: "provider option"
  re_scope :: scope_path
  re_protected :: bool
  re_order :: nat

definition entry_of :: "capability_binding \<Rightarrow> nat \<Rightarrow> resolved_entry" where
  "entry_of b ord = \<lparr> re_manifest = bd_manifest b, re_provider = bd_provider b, re_scope = bd_scope b,
     re_protected = bd_protected b, re_order = ord \<rparr>"

(* src/pkg/core/capability.go:356-382 resolveEntriesLocked *)
definition resolveStep :: "(string, resolved_entry) gomap \<Rightarrow> capability_binding \<times> nat
    \<Rightarrow> capability_error + (string, resolved_entry) gomap" where
  "resolveStep eff s =
     (let (b, ord) = s; name = cm_id (bd_manifest b); current = map_of eff name in
        if bd_mode b = BindingProvide then
          (if current \<noteq> None then Inl (CapAlreadyProvided name) else Inr (mput name (entry_of b ord) eff))
        else if bd_mode b = BindingReplace then
          (case current of
             None \<Rightarrow> Inl (CapReplaceMissing name)
           | Some c \<Rightarrow>
               if re_protected c \<and> \<not> scopeEqual (re_scope c) (bd_scope b) then Inl (CapProtected name (re_scope c))
               else Inr (mput name (entry_of b ord) eff))
        else if bd_mode b = BindingDisable then
          (case current of
             None \<Rightarrow> Inr eff
           | Some c \<Rightarrow>
               if re_protected c \<and> \<not> scopeEqual (re_scope c) (bd_scope b) then Inl (CapProtected name (re_scope c))
               else Inr (mdel name eff))
        else Inr eff)"

(* src/pkg/core/capability.go:349-385 resolveEntriesLocked *)
definition resolveEntries :: "capability_registry \<Rightarrow> scope_path \<Rightarrow> capability_error + (string, resolved_entry) gomap" where
  "resolveEntries r target =
     foldr_err (\<lambda>eff prefix. foldr_err resolveStep eff (registryLayer r prefix)) [] (scopePrefixes target)"

(* src/pkg/core/capability.go:411-416 SnapshotCapability *)
record snapshot_capability =
  sc_manifest :: capability_manifest
  sc_source :: scope_path
  sc_revision :: string

(* src/pkg/core/capability.go:418-428 CapabilitySnapshot *)
record capability_snapshot =
  sn_id :: string
  sn_createdAt :: int
  sn_scope :: scope_path
  sn_capabilities :: "snapshot_capability list"
  sn_providers :: "(string, provider option) gomap"
  sn_credentials :: "credential_resolver option"
  sn_principal :: principal

(* src/pkg/core/capability.go:750-765 artifactRevisionLabel *)
definition artifactRevisionLabel :: "provider option \<Rightarrow> string" where
  "artifactRevisionLabel p =
     (case p of
        None \<Rightarrow> []
      | Some v \<Rightarrow> (case pv_revision v of Some (Some s) \<Rightarrow> take 4096 (trim_space s) | _ \<Rightarrow> []))"

(* src/pkg/core/capability.go:688-695 artifactRevision *)
definition artifactRevision :: "provider option \<Rightarrow> string" where
  "artifactRevision p =
     (let label = artifactRevisionLabel p in if label = [] then [] else ''sha256:'' @ sha256_hex label)"

definition json_snapshot_capability :: "snapshot_capability \<Rightarrow> string option" where
  "json_snapshot_capability c = json_record
     [field ''manifest'' (json_manifest (sc_manifest c)), field ''source'' (json_scope (sc_source c)),
      string_field ''provider_revision'' (sc_revision c)]"

(* src/pkg/core/capability.go:787-802 snapshotDigest *)
definition snapshotDigest :: "scope_path \<Rightarrow> principal \<Rightarrow> snapshot_capability list \<Rightarrow> capability_error + string" where
  "snapshotDigest scope pr caps =
     (case json_record [field ''Scope'' (json_scope scope), field ''Subject'' (Some (json_string (pr_subject pr))),
        field ''Capabilities'' (map_option json_array_text (seq_opt (map json_snapshot_capability caps)))] of
        None \<Rightarrow> Inl CapNotSerializable
      | Some data \<Rightarrow> if length data > MaxCapabilitySnapshotBytes then Inl CapSnapshotTooLarge else Inr (sha256_hex data))"

definition snapshot_entry :: "resolved_entry \<Rightarrow> snapshot_capability" where
  "snapshot_entry e = \<lparr> sc_manifest = cloneManifest (re_manifest e), sc_source = re_scope e,
     sc_revision = artifactRevision (re_provider e) \<rparr>"

(* src/pkg/core/capability.go:309-347 resolve *)
definition resolveSnapshot :: "capability_registry \<Rightarrow> credential_resolver option \<Rightarrow> int \<Rightarrow> principal \<Rightarrow> scope_path \<Rightarrow> bool
    \<Rightarrow> capability_error + capability_snapshot" where
  "resolveSnapshot r creds now pr target filterPermissions =
     (if \<not> isAncestorOf (pr_scope pr) target then Inl CapScopeNotOwned
      else rbind (resolveEntries r target) (\<lambda>effective.
        let kept = filter (\<lambda>(_, e). \<not> (filterPermissions
                     \<and> \<not> permissionsAllow (pr_grants pr) (cm_requiredPermissions (re_manifest e)))) effective;
            entries = sort_key (cm_id \<circ> sc_manifest) (map (\<lambda>(_, e). snapshot_entry e) kept);
            providers = map (\<lambda>(name, e). (name, re_provider e)) kept
        in rbind (snapshotDigest target pr entries) (\<lambda>digest.
             Inr \<lparr> sn_id = digest, sn_createdAt = now, sn_scope = target, sn_capabilities = entries,
                   sn_providers = providers, sn_credentials = creds, sn_principal = clonePrincipal pr \<rparr>)))"

(* src/pkg/core/capability.go:387-409 Entries *)
definition registryEntries :: "capability_registry \<Rightarrow> scope_path \<Rightarrow> capability_error + snapshot_capability list" where
  "registryEntries r target =
     (if target = [] then Inl CapEmptyScope
      else rbind (resolveEntries r target) (\<lambda>effective.
        Inr (sort_key (cm_id \<circ> sc_manifest) (map (\<lambda>(_, e).
          \<lparr> sc_manifest = publicManifest (re_manifest e), sc_source = re_scope e,
             sc_revision = artifactRevision (re_provider e) \<rparr>) effective))))"

section \<open>Snapshot queries\<close>

definition public_capability :: "snapshot_capability \<Rightarrow> snapshot_capability" where
  "public_capability c = c\<lparr> sc_manifest := publicManifest (sc_manifest c) \<rparr>"

(* src/pkg/core/capability.go:455-465 Capabilities *)
definition snapshotCapabilities :: "capability_snapshot \<Rightarrow> snapshot_capability list" where
  "snapshotCapabilities s = map public_capability (sn_capabilities s)"

abbreviation snapshot_provider :: "capability_snapshot \<Rightarrow> string \<Rightarrow> provider option" where
  "snapshot_provider s name \<equiv> mget None (sn_providers s) name"

(* src/pkg/core/types.go:186-191 ToolSchema *)
record tool_schema =
  ts_name :: string
  ts_description :: string
  ts_parameters :: "json_object option"

(* src/pkg/core/capability.go:467-492 Schemas *)
definition snapshotSchemas :: "capability_snapshot \<Rightarrow> tool_schema list" where
  "snapshotSchemas s = List.map_filter (\<lambda>c.
     case cm_tool (sc_manifest c) of
       None \<Rightarrow> None
     | Some tool \<Rightarrow>
         if \<not> executable (snapshot_provider s (cm_id (sc_manifest c))) then None
         else let d1 = te_description tool;
                  d2 = (if d1 = [] then cm_description (sc_manifest c) else d1);
                  d3 = (if d2 = [] then cm_name (sc_manifest c) else d2);
                  p1 = cloneMap (te_parameters tool);
                  p2 = (if p1 = None then cloneMap (cm_inputSchema (sc_manifest c)) else p1)
              in Some \<lparr> ts_name = cm_id (sc_manifest c), ts_description = d3, ts_parameters = p2 \<rparr>)
     (sn_capabilities s)"

(* src/pkg/core/capability.go:494-502 Authorized *)
definition snapshotAuthorized :: "capability_snapshot \<Rightarrow> string \<Rightarrow> bool" where
  "snapshotAuthorized s name =
     (case map_of (sn_providers s) name of None \<Rightarrow> False | Some p \<Rightarrow> executable p)"

(* src/pkg/core/capability.go:504-517 MaxCallBudget *)
definition snapshotMaxCallBudget :: "capability_snapshot \<Rightarrow> int" where
  "snapshotMaxCallBudget s = foldl (\<lambda>budget c.
     if \<not> executable (snapshot_provider s (cm_id (sc_manifest c))) then budget
     else let candidate = cm_perTurnBudget (sc_manifest c) in
       if candidate > 0 \<and> candidate < budget then candidate else budget) 16 (sn_capabilities s)"

(* src/pkg/core/capability.go:635-642 manifestInternal *)
definition manifestInternal :: "capability_snapshot \<Rightarrow> string \<Rightarrow> capability_manifest option" where
  "manifestInternal s name =
     map_option (\<lambda>c. cloneManifest (sc_manifest c)) (find (\<lambda>c. cm_id (sc_manifest c) = name) (sn_capabilities s))"

(* src/pkg/core/capability.go:519-530 BudgetFor *)
definition snapshotBudgetFor :: "capability_snapshot \<Rightarrow> string \<Rightarrow> int" where
  "snapshotBudgetFor s name =
     (case manifestInternal s name of
        None \<Rightarrow> 0
      | Some m \<Rightarrow> if \<not> executable (snapshot_provider s name) then 0 else cm_perTurnBudget m)"

(* src/pkg/core/capability.go:644-651 ManifestFor *)
definition manifestFor :: "capability_snapshot \<Rightarrow> string \<Rightarrow> capability_manifest option" where
  "manifestFor s name = map_option publicManifest (manifestInternal s name)"

(* src/pkg/core/capability.go:653-664 Provider *)
definition snapshotProvider :: "capability_snapshot \<Rightarrow> string \<Rightarrow> provider option option" where
  "snapshotProvider s name =
     (case map_of (sn_providers s) name of
        None \<Rightarrow> None
      | Some p \<Rightarrow> if executable p then None else Some p)"

(* src/pkg/core/capability.go:666-682 Select *)
definition snapshotSelect :: "capability_snapshot \<Rightarrow> string \<Rightarrow> string \<Rightarrow> snapshot_capability list" where
  "snapshotSelect s kind contract =
     map public_capability (filter (\<lambda>c. cm_kind (sc_manifest c) = kind
       \<and> \<not> (contract \<noteq> [] \<and> cm_contract (sc_manifest c) \<noteq> contract)) (sn_capabilities s))"

section \<open>The registry contract\<close>

lemma mountCapability_eq:
  "mountCapability rx r b = Inr (h, r') \<longleftrightarrow>
     (\<exists>b1. prepareCapability rx b = Inr b1 \<and> registryPush (scopeString (bd_scope b1)) b1 r = Some (h, r'))"
  by (cases "prepareCapability rx b") (auto simp: mountCapability_def split: option.splits)

interpretation cap: mountable registry_inv "\<lambda>_ _. True" reg_view "\<lambda>k s. (k, snd s)" "mountCapability rx" registryUnmount for rx
  by (rule mountable_registryI) (auto simp: mountCapability_eq)

text \<open>
  What every stored contribution satisfies: a known mode, and the key it is stored under is its own
  rendered scope, which is a valid path.
\<close>

definition binding_ok :: "string \<Rightarrow> capability_binding \<Rightarrow> bool" where
  "binding_ok k b \<longleftrightarrow> bd_mode b \<in> {BindingProvide, BindingReplace, BindingDisable}
     \<and> scopeString (bd_scope b) = k \<and> scope_ok (bd_scope b)"

definition capability_registry_ok :: "capability_registry \<Rightarrow> bool" where
  "capability_registry_ok r \<longleftrightarrow> registry_inv r \<and> (\<forall>k s. s \<in> set (reg_view r k) \<longrightarrow> binding_ok k (fst s))"

lemma prepareCapability_result:
  assumes "prepareCapability rx b = Inr b1"
  shows "bd_mode b1 \<in> {BindingProvide, BindingReplace, BindingDisable}" "bd_scope b1 = bd_scope b"
    "cm_id (bd_manifest b1) = cm_id (bd_manifest b)"
  using assms by (auto simp: prepareCapability_def Let_def binding_mode_defs split: if_splits option.splits)

lemma capability_registry_ok_new: "capability_registry_ok newRegistry"
  by (simp add: capability_registry_ok_def) (simp add: newRegistry_def mget_def)

lemma capability_registry_ok_mount:
  assumes "capability_registry_ok r" "mountCapability rx r b = Inr (h, r')" "scope_ok (bd_scope b)"
  shows "capability_registry_ok r'"
proof -
  from assms(2) obtain b1 where b1: "prepareCapability rx b = Inr b1"
    "registryPush (scopeString (bd_scope b1)) b1 r = Some (h, r')"
    by (auto simp: mountCapability_eq)
  with assms(1,3) show ?thesis
    using prepareCapability_result[OF b1(1)] registryPush_inv[OF _ b1(2)] registryPush_view(1)[OF b1(2)]
    by (auto simp: capability_registry_ok_def binding_ok_def split: if_splits)
qed

lemma capability_registry_ok_unmount:
  "capability_registry_ok r \<Longrightarrow> capability_registry_ok (registryUnmount h r)"
  by (auto simp: capability_registry_ok_def registryUnmount_inv registryUnmount_view)

section \<open>Resolution follows the layering discipline\<close>

abbreviation binding_id :: "capability_binding \<times> nat \<Rightarrow> string" where
  "binding_id s \<equiv> cm_id (bd_manifest (fst s))"

definition capability_layer :: "capability_binding \<times> nat \<Rightarrow> resolved_entry layer" where
  "capability_layer s = \<lparr> la_mode =
       (if bd_mode (fst s) = BindingProvide then LProvide
        else if bd_mode (fst s) = BindingReplace then LReplace else LDisable),
     la_scope = bd_scope (fst s), la_value = entry_of (fst s) (snd s), la_protected = bd_protected (fst s) \<rparr>"

definition lift_entry :: "resolved_entry option \<Rightarrow> resolved_entry effective option" where
  "lift_entry = map_option (\<lambda>e. (e, re_scope e, re_protected e))"

lemma lift_entry_simps [simp]:
  "lift_entry None = None" "lift_entry (Some e) = Some (e, re_scope e, re_protected e)"
  "lift_entry x = None \<longleftrightarrow> x = None" "lift_entry x = lift_entry y \<longleftrightarrow> x = y"
  by (auto simp: lift_entry_def dest: option.inj_map_strong[rotated])

lemma layer_entry_capability [simp]: "layer_entry (capability_layer s) =
  (entry_of (fst s) (snd s), re_scope (entry_of (fst s) (snd s)), re_protected (entry_of (fst s) (snd s)))"
  by (simp add: layer_entry_def capability_layer_def entry_of_def)

lemma resolveStep_layer:
  assumes "resolveStep eff s = Inr eff'" "bd_mode (fst s) \<in> {BindingProvide, BindingReplace, BindingDisable}"
  shows "layer_step (lift_entry (map_of eff (binding_id s))) (capability_layer s) = Inr (lift_entry (map_of eff' (binding_id s)))"
    and "n \<noteq> binding_id s \<Longrightarrow> map_of eff' n = map_of eff n"
proof -
  obtain b ord where s: "s = (b, ord)" by force
  from assms(2) consider "bd_mode b = BindingProvide" | "bd_mode b = BindingReplace" | "bd_mode b = BindingDisable"
    by (auto simp: s)
  then have "layer_step (lift_entry (map_of eff (binding_id s))) (capability_layer s) = Inr (lift_entry (map_of eff' (binding_id s)))
      \<and> (n \<noteq> binding_id s \<longrightarrow> map_of eff' n = map_of eff n)"
    by cases (use assms(1) in \<open>auto simp: s resolveStep_def Let_def capability_layer_def layer_guard_def
        layer_entry_def entry_of_def binding_mode_defs split: option.splits if_splits\<close>)
  then show "layer_step (lift_entry (map_of eff (binding_id s))) (capability_layer s) = Inr (lift_entry (map_of eff' (binding_id s)))"
    "n \<noteq> binding_id s \<Longrightarrow> map_of eff' n = map_of eff n" by blast+
qed

lemma resolve_fold_layer:
  assumes "foldr_err resolveStep eff xs = Inr eff'"
    and "\<forall>s \<in> set xs. bd_mode (fst s) \<in> {BindingProvide, BindingReplace, BindingDisable}"
  shows "layer_run (lift_entry (map_of eff n)) (map capability_layer (filter (\<lambda>s. binding_id s = n) xs))
    = Inr (lift_entry (map_of eff' n))"
  using assms
proof (induction xs arbitrary: eff)
  case (Cons s xs)
  then obtain mid where mid: "resolveStep eff s = Inr mid" "foldr_err resolveStep mid xs = Inr eff'" by auto
  have m: "bd_mode (fst s) \<in> {BindingProvide, BindingReplace, BindingDisable}" using Cons.prems(2) by simp
  show ?case
    using Cons.IH[OF mid(2)] Cons.prems(2) resolveStep_layer[OF mid(1) m]
    by (auto simp del: layer_step.simps)
qed simp

lemma resolveEntries_walk: "resolveEntries r target = foldr_err resolveStep [] (registryWalk r target)"
  by (simp only: resolveEntries_def registryWalk_def foldr_err_concat)

lemma walk_binding_ok:
  assumes "capability_registry_ok r" "s \<in> set (registryWalk r target)"
  shows "\<exists>p \<in> set (scopePrefixes target). binding_ok (scopeString p) (fst s)"
  using assms by (cases s) (fastforce simp: registryWalk_def capability_registry_ok_def registryLayer_eq)

text \<open>The contributions to one capability on the path to the target, root first.\<close>

definition capability_chain :: "capability_registry \<Rightarrow> scope_path \<Rightarrow> string \<Rightarrow> (capability_binding \<times> nat) list" where
  "capability_chain r target n = filter (\<lambda>s. binding_id s = n) (registryWalk r target)"

lemma resolveEntries_layering:
  assumes "capability_registry_ok r" "resolveEntries r target = Inr eff"
  shows "layer_run None (map capability_layer (capability_chain r target n)) = Inr (lift_entry (map_of eff n))"
proof -
  have "\<forall>s \<in> set (registryWalk r target). bd_mode (fst s) \<in> {BindingProvide, BindingReplace, BindingDisable}"
    using walk_binding_ok[OF assms(1)] by (fastforce simp: binding_ok_def)
  from resolve_fold_layer[OF assms(2)[unfolded resolveEntries_walk] this, of n]
  show ?thesis by (simp add: capability_chain_def)
qed

lemma resolveStep_ok: "resolveStep eff s = Inr eff' \<Longrightarrow> gomap_ok eff \<Longrightarrow> gomap_ok eff'"
  by (cases s) (auto simp: resolveStep_def Let_def split: if_splits option.splits)

lemma resolveEntries_ok: "resolveEntries r target = Inr eff \<Longrightarrow> gomap_ok eff"
  unfolding resolveEntries_walk
  by (rule foldr_err_invariant[where P = gomap_ok]) (auto intro: resolveStep_ok)

lemma resolveEntries_origin:
  assumes "capability_registry_ok r" "resolveEntries r target = Inr eff" "map_of eff n = Some e"
  shows "\<exists>s \<in> set (registryWalk r target). binding_id s = n \<and> bd_mode (fst s) \<noteq> BindingDisable
    \<and> e = entry_of (fst s) (snd s)"
proof -
  have "layer_run None (map capability_layer (capability_chain r target n)) = Inr (Some (e, re_scope e, re_protected e))"
    using resolveEntries_layering[OF assms(1,2), of n] assms(3) by simp
  from layer_run_origin[OF this] obtain s where "s \<in> set (capability_chain r target n)"
    "la_mode (capability_layer s) \<noteq> LDisable" "e = entry_of (fst s) (snd s)" by auto
  then show ?thesis
    by (auto simp: capability_chain_def capability_layer_def binding_mode_defs split: if_splits)
qed

lemma resolveEntries_entry:
  assumes "capability_registry_ok r" "scope_ok target" "resolveEntries r target = Inr eff" "(n, e) \<in> set eff"
  shows "cm_id (re_manifest e) = n" "re_scope e \<in> set (scopePrefixes target)"
proof -
  have "map_of eff n = Some e" using assms(4) resolveEntries_ok[OF assms(3)] by simp
  from resolveEntries_origin[OF assms(1,3) this] obtain s where s: "s \<in> set (registryWalk r target)"
    "binding_id s = n" "e = entry_of (fst s) (snd s)" by blast
  from walk_binding_ok[OF assms(1) s(1)] obtain p where p: "p \<in> set (scopePrefixes target)"
    "binding_ok (scopeString p) (fst s)" by blast
  have "scope_ok p" using p(1) scope_ok_prefix[OF assms(2)]
    by (auto simp: in_scopePrefixes isAncestorOf_prefix)
  then have "bd_scope (fst s) = p" using p(2) scopeString_inj by (auto simp: binding_ok_def)
  with p(1) s show "cm_id (re_manifest e) = n" "re_scope e \<in> set (scopePrefixes target)"
    by (simp_all add: entry_of_def)
qed

lemma resolveSnapshot_eq:
  assumes "resolveSnapshot r creds now pr target fp = Inr s"
  obtains eff kept where "isAncestorOf (pr_scope pr) target" "resolveEntries r target = Inr eff"
    "kept = filter (\<lambda>(_, e). \<not> (fp \<and> \<not> permissionsAllow (pr_grants pr) (cm_requiredPermissions (re_manifest e)))) eff"
    "sn_capabilities s = sort_key (cm_id \<circ> sc_manifest) (map (\<lambda>(_, e). snapshot_entry e) kept)"
    "sn_providers s = map (\<lambda>(n, e). (n, re_provider e)) kept" "sn_scope s = target"
    "sn_principal s = clonePrincipal pr" "sn_credentials s = creds"
  using assms by (auto simp: resolveSnapshot_def Let_def split: if_splits)

text \<open>The shape every snapshot has: capability ids strictly ascending, one provider per capability.\<close>

definition snapshot_wf :: "capability_snapshot \<Rightarrow> bool" where
  "snapshot_wf s \<longleftrightarrow> sorted_wrt (<) (map (cm_id \<circ> sc_manifest) (sn_capabilities s))
     \<and> gomap_ok (sn_providers s)
     \<and> fst ` set (sn_providers s) = (cm_id \<circ> sc_manifest) ` set (sn_capabilities s)"

lemma resolveSnapshot_wf:
  assumes "capability_registry_ok r" "scope_ok target" "resolveSnapshot r creds now pr target fp = Inr s"
  shows "snapshot_wf s"
proof -
  from assms(3) obtain eff kept where eff: "resolveEntries r target = Inr eff"
    and kept: "kept = filter (\<lambda>(_, e). \<not> (fp \<and> \<not> permissionsAllow (pr_grants pr) (cm_requiredPermissions (re_manifest e)))) eff"
    and caps: "sn_capabilities s = sort_key (cm_id \<circ> sc_manifest) (map (\<lambda>(_, e). snapshot_entry e) kept)"
    and prov: "sn_providers s = map (\<lambda>(n, e). (n, re_provider e)) kept"
    by (rule resolveSnapshot_eq) blast
  have ids: "map (cm_id \<circ> sc_manifest) (map (\<lambda>(_, e). snapshot_entry e) kept) = map fst kept"
    using resolveEntries_entry(1)[OF assms(1,2) eff] kept
    by (auto simp: snapshot_entry_def)
  have dist: "distinct (map fst kept)"
    using resolveEntries_ok[OF eff] kept by (simp add: distinct_map_filter)
  have set_caps: "(cm_id \<circ> sc_manifest) ` set (sn_capabilities s) = fst ` set kept"
    unfolding caps by (metis ids list.set_map set_sort)
  have "mset (map (cm_id \<circ> sc_manifest) (sn_capabilities s)) = mset (map fst kept)"
    unfolding caps mset_map mset_sort by (metis ids mset_map)
  then have "distinct (map (cm_id \<circ> sc_manifest) (sn_capabilities s))"
    using dist mset_eq_imp_distinct_iff by blast
  moreover have "sorted (map (cm_id \<circ> sc_manifest) (sn_capabilities s))"
    unfolding caps by (rule sorted_sort_key)
  moreover have "map fst (sn_providers s) = map fst kept" unfolding prov by auto
  ultimately show ?thesis
    using dist set_caps by (simp add: snapshot_wf_def strict_sorted_iff) (metis list.set_map)
qed

text \<open>When resolution succeeds, without computing the digest.\<close>

definition digest_fits :: "scope_path \<Rightarrow> principal \<Rightarrow> snapshot_capability list \<Rightarrow> bool" where
  "digest_fits scope pr caps =
     (case json_record [field ''Scope'' (json_scope scope), field ''Subject'' (Some (json_string (pr_subject pr))),
        field ''Capabilities'' (map_option json_array_text (seq_opt (map json_snapshot_capability caps)))] of
        None \<Rightarrow> False | Some data \<Rightarrow> length data \<le> MaxCapabilitySnapshotBytes)"

lemma snapshotDigest_is_ok: "is_ok (snapshotDigest scope pr caps) \<longleftrightarrow> digest_fits scope pr caps"
  by (auto simp: snapshotDigest_def digest_fits_def split: option.splits)

lemma resolveSnapshot_is_ok:
  "is_ok (resolveSnapshot r creds now pr target fp) \<longleftrightarrow>
     isAncestorOf (pr_scope pr) target \<and>
     (case resolveEntries r target of
        Inl _ \<Rightarrow> False
      | Inr eff \<Rightarrow> digest_fits target pr (sort_key (cm_id \<circ> sc_manifest) (map (\<lambda>(_, e). snapshot_entry e)
          (filter (\<lambda>(_, e). \<not> (fp \<and> \<not> permissionsAllow (pr_grants pr) (cm_requiredPermissions (re_manifest e)))) eff))))"
proof -
  have bind: "is_ok (rbind x (\<lambda>d. Inr (f d))) \<longleftrightarrow> is_ok x" 
    for x :: "capability_error + string" and f :: "string \<Rightarrow> capability_snapshot"
    by (cases x) auto
  show ?thesis
    by (cases "resolveEntries r target") (simp_all add: resolveSnapshot_def Let_def bind snapshotDigest_is_ok)
qed

definition ex_provider :: provider where
  "ex_provider = \<lparr> pv_tool = Some (\<lambda>q. ExecReturn \<lparr> cr_content = ''ok'', cr_ok = True, cr_metadata = None \<rparr> None),
     pv_revision = None \<rparr>"

definition ex_capability :: "scope_path \<Rightarrow> string \<Rightarrow> capability_binding" where
  "ex_capability scope name = \<lparr> bd_scope = scope, bd_mode = [],
     bd_manifest = (ex_manifest name)\<lparr> cm_requiredPermissions := [''data.read''] \<rparr>,
     bd_provider = Some ex_provider, bd_protected = True \<rparr>"

definition ex_workspace :: scope_path where
  "ex_workspace = ex_tenant @ [\<lparr> sr_kind = ScopeWorkspace, sr_id = ''w1'' \<rparr>]"

definition ex_registry :: capability_registry where
  "ex_registry = snd (bindCapability (\<lambda>_. None)
     (snd (bindCapability (\<lambda>_. None) newRegistry (ex_capability ex_tenant ''a.b'')))
     (ex_capability ex_workspace ''c.d''))"

lemma capability_registry_ok_bind:
  "capability_registry_ok r \<Longrightarrow> scope_ok (bd_scope b) \<Longrightarrow> capability_registry_ok (snd (bindCapability rx r b))"
  by (auto simp: bindCapability_def intro: capability_registry_ok_mount split: sum.splits)

abbreviation ex_visible :: "(string, resolved_entry) gomap \<Rightarrow> (string, resolved_entry) gomap" where
  "ex_visible eff \<equiv> filter (\<lambda>(_, e). \<not> (True \<and> \<not> permissionsAllow (pr_grants ex_principal) (cm_requiredPermissions (re_manifest e)))) eff"

definition ex_walk_check :: "(capability_binding \<times> nat) list \<Rightarrow> bool" where
  "ex_walk_check w \<longleftrightarrow> map (\<lambda>s. binding_id s) w = [''a.b'', ''c.d''] \<and> map snd (take 1 w) = [1]
     \<and> list_all (\<lambda>(b, i). bd_protected b \<and> bd_mode b = BindingProvide) (take 1 w)"

definition ex_registry_check :: "capability_registry \<Rightarrow> bool" where
  "ex_registry_check r \<longleftrightarrow> scope_ok ex_workspace \<and> scope_ok ex_tenant \<and> isAncestorOf (pr_scope ex_principal) ex_workspace
     \<and> ex_walk_check (registryWalk r ex_workspace)
     \<and> (case resolveEntries r ex_workspace of
          Inl _ \<Rightarrow> False
        | Inr eff \<Rightarrow> ex_visible eff \<noteq> [] \<and> digest_fits ex_workspace ex_principal
            (sort_key (cm_id \<circ> sc_manifest) (map (\<lambda>(_, e). snapshot_entry e) (ex_visible eff))))"

lemma ex_registry_checked: "ex_registry_check ex_registry"
  by code_simp

lemma ex_registry_ok: "capability_registry_ok ex_registry" "scope_ok ex_workspace"
proof -
  have w: "scope_ok ex_workspace" and "scope_ok ex_tenant" using ex_registry_checked by (simp_all add: ex_registry_check_def)
  then show "capability_registry_ok ex_registry"
    by (simp add: ex_registry_def capability_registry_ok_bind capability_registry_ok_new ex_capability_def)
  show "scope_ok ex_workspace" by (rule w)
qed

section \<open>Properties\<close>

text \<open>C12: A protected capability cannot be displaced from another scope: if resolution succeeds and
  the walk contains a protected provide or replace after which only other scopes contribute, then no
  later contribution mentions that capability at all and the protected entry is the effective one.\<close>
theorem protected_capability_stands:
  assumes "capability_registry_ok r" "resolveEntries r target = Inr eff"
    and "registryWalk r target = xs @ (b, ord) # ys"
    and "bd_protected b" "bd_mode b \<noteq> BindingDisable"
    and "\<forall>s \<in> set ys. binding_id s = cm_id (bd_manifest b) \<longrightarrow> bd_scope (fst s) \<noteq> bd_scope b"
  shows "(\<forall>s \<in> set ys. binding_id s \<noteq> cm_id (bd_manifest b))
    \<and> map_of eff (cm_id (bd_manifest b)) = Some (entry_of b ord)"
proof -
  let ?n = "cm_id (bd_manifest b)"
  let ?pre = "map capability_layer (filter (\<lambda>s. binding_id s = ?n) xs)"
  let ?post = "map capability_layer (filter (\<lambda>s. binding_id s = ?n) ys)"
  have chain: "map capability_layer (capability_chain r target ?n) = (?pre @ [capability_layer (b, ord)]) @ ?post"
    by (simp add: capability_chain_def assms(3))
  obtain mid where mid: "layer_run None (?pre @ [capability_layer (b, ord)]) = Inr mid"
    and rest: "layer_run mid ?post = Inr (lift_entry (map_of eff ?n))"
    using resolveEntries_layering[OF assms(1,2), of ?n] unfolding chain foldr_err_append[of _ _ "_ @ [_]"] by blast
  have "(b, ord) \<in> set (registryWalk r target)" using assms(3) by simp
  from walk_binding_ok[OF assms(1) this] assms(5) have "la_mode (capability_layer (b, ord)) \<noteq> LDisable"
    by (auto simp: capability_layer_def binding_ok_def binding_mode_defs)
  then have eq: "mid = Some (entry_of b ord, bd_scope b, True)"
    using layer_run_nearest[OF mid] assms(4) by (simp add: entry_of_def)
  have "\<forall>l \<in> set ?post. la_scope l \<noteq> bd_scope b"
    using assms(6) by (auto simp: capability_layer_def)
  with rest[unfolded eq] have "?post = [] \<and> lift_entry (map_of eff ?n) = Some (entry_of b ord, bd_scope b, True)"
    by (rule layer_run_protected)
  then show ?thesis
    by (auto simp: filter_empty_conv lift_entry_def)
qed

theorem protected_capability_stands_witness:
  "\<exists>eff. resolveEntries ex_registry ex_workspace = Inr eff
     \<and> map_of eff ''a.b'' = Some (entry_of (fst (hd (registryWalk ex_registry ex_workspace))) 1)"
proof -
  let ?w = "registryWalk ex_registry ex_workspace"
  obtain eff where eff: "resolveEntries ex_registry ex_workspace = Inr eff"
    using ex_registry_checked by (auto simp: ex_registry_check_def split: sum.splits)
  obtain b s where w: "?w = [] @ (b, 1) # [s]" "bd_protected b" "bd_mode b = BindingProvide"
    "binding_id (b, 1) = ''a.b''" "binding_id s = ''c.d''"
    using ex_registry_checked by (auto simp: ex_registry_check_def ex_walk_check_def map_eq_Cons_conv)
  have "map_of eff ''a.b'' = Some (entry_of b 1)"
    using protected_capability_stands[OF ex_registry_ok(1) eff w(1,2)] w(3-5) by (auto simp: binding_mode_defs)
  with eff w(1) show ?thesis by simp
qed

text \<open>C10: A resolved snapshot lists each capability once, ordered by id; it offers exactly the ids it
  has providers for; every capability is permitted by the principal's grants, and it was contributed
  at the target scope or one of its ancestors.\<close>
theorem snapshot_sound:
  assumes "capability_registry_ok r" "scope_ok target"
    and "resolveSnapshot r creds now pr target True = Inr s" "c \<in> set (sn_capabilities s)"
  shows "snapshot_wf s \<and> permissionsAllow (pr_grants pr) (cm_requiredPermissions (sc_manifest c))
    \<and> sc_source c \<in> set (scopePrefixes target)"
proof -
  from assms(3) obtain eff kept where eff: "resolveEntries r target = Inr eff"
    and kept: "kept = filter (\<lambda>(_, e). \<not> (True \<and> \<not> permissionsAllow (pr_grants pr) (cm_requiredPermissions (re_manifest e)))) eff"
    and caps: "sn_capabilities s = sort_key (cm_id \<circ> sc_manifest) (map (\<lambda>(_, e). snapshot_entry e) kept)"
    by (rule resolveSnapshot_eq) blast
  from assms(4) obtain n e where e: "(n, e) \<in> set kept" "c = snapshot_entry e"
    by (auto simp: caps)
  then have "(n, e) \<in> set eff" "permissionsAllow (pr_grants pr) (cm_requiredPermissions (re_manifest e))"
    by (auto simp: kept)
  with resolveEntries_entry(2)[OF assms(1,2) eff] e(2) resolveSnapshot_wf[OF assms(1-3)] show ?thesis
    by (auto simp: snapshot_entry_def)
qed

theorem snapshot_sound_witness:
  "\<exists>s c. resolveSnapshot ex_registry None 0 ex_principal ex_workspace True = Inr s
     \<and> c \<in> set (sn_capabilities s) \<and> permissionsAllow (pr_grants ex_principal) (cm_requiredPermissions (sc_manifest c))"
proof -
  have "is_ok (resolveSnapshot ex_registry None 0 ex_principal ex_workspace True)"
    unfolding resolveSnapshot_is_ok using ex_registry_checked by (auto simp: ex_registry_check_def split: sum.splits)
  then obtain s where s: "resolveSnapshot ex_registry None 0 ex_principal ex_workspace True = Inr s"
    by (auto simp: is_ok_iff)
  from s obtain eff kept where eff: "resolveEntries ex_registry ex_workspace = Inr eff"
    and kept: "kept = filter (\<lambda>(_, e). \<not> (True \<and> \<not> permissionsAllow (pr_grants ex_principal) (cm_requiredPermissions (re_manifest e)))) eff"
    and caps: "sn_capabilities s = sort_key (cm_id \<circ> sc_manifest) (map (\<lambda>(_, e). snapshot_entry e) kept)"
    by (rule resolveSnapshot_eq) blast
  have "kept \<noteq> []" using ex_registry_checked unfolding kept by (simp add: ex_registry_check_def eff)
  then have "length (sn_capabilities s) \<noteq> 0" unfolding caps by simp
  then have "sn_capabilities s \<noteq> []" by simp
  then obtain c where "c \<in> set (sn_capabilities s)" by (meson list.set_sel(1))
  with snapshot_sound[OF ex_registry_ok s this] s show ?thesis by blast
qed

end
