(* ===== verification/Go_Time.thy ===== *)
theory Go_Time
  imports Go_Text
begin

text \<open>
  Instants as the code uses them: \<open>time.Time\<close> in UTC, counted in nanoseconds from Go's zero time
  (0001-01-01), so that \<open>IsZero\<close> is equality with 0; and the RFC 3339 text with nanoseconds that
  \<open>encoding/json\<close> prints. The conversion to a civil date counts days from 1 March of year 0 in
  400-year cycles.
\<close>

type_synonym gotime = int

definition civil_date :: "int \<Rightarrow> int \<times> int \<times> int" where
  "civil_date days =
     (let z = days + 306; era = z div 146097; doe = z mod 146097;
          yoe = (doe - doe div 1460 + doe div 36524 - doe div 146096) div 365;
          doy = doe - (365 * yoe + yoe div 4 - yoe div 100);
          mp = (5 * doy + 2) div 153;
          d = doy - (153 * mp + 2) div 5 + 1;
          m = (if mp < 10 then mp + 3 else mp - 9);
          y = yoe + era * 400 + (if m \<le> 2 then 1 else 0)
      in (y, m, d))"

definition pad_left :: "nat \<Rightarrow> string \<Rightarrow> string" where
  "pad_left n s = replicate (n - length s) (CHR ''0'') @ s"

definition fraction_text :: "int \<Rightarrow> string" where
  "fraction_text ns =
     (if ns = 0 then []
      else CHR ''.'' # rev (dropWhile (\<lambda>c. c = CHR ''0'') (rev (pad_left 9 (int_str ns)))))"

definition rfc3339 :: "gotime \<Rightarrow> string" where
  "rfc3339 t =
     (let secs = t div 1000000000; ns = t mod 1000000000;
          days = secs div 86400; sod = secs mod 86400;
          (y, m, d) = civil_date days
      in pad_left 4 (int_str y) @ ''-'' @ pad_left 2 (int_str m) @ ''-'' @ pad_left 2 (int_str d) @ ''T''
         @ pad_left 2 (int_str (sod div 3600)) @ '':'' @ pad_left 2 (int_str (sod mod 3600 div 60)) @ '':''
         @ pad_left 2 (int_str (sod mod 60)) @ fraction_text ns @ ''Z'')"

end
