(* ===== verification/Profile.thy ===== *)
theory Profile
  imports Capability Go_Time "HOL-Library.Product_Lexorder"
begin

text \<open>
  Layered agent profiles of \<open>src/pkg/core/profile.go\<close>: the registry with its two projections (by
  scope and profile, and flat in mount order), in-place replacement, resolution along the
  inheritance chain, and the filters a profile applies to a capability snapshot. Every copy the code
  makes of a layer is the layer itself here; only the rebuilding of the metadata map is written out.
\<close>

section \<open>Data\<close>

(* src/pkg/core/profile.go:29-32 promptSectionOrder *)
definition promptSectionOrder :: "(string, int) gomap" where
  "promptSectionOrder =
     [(''identity'', 10), (''traits'', 20), (''values'', 30), (''goals'', 40),
      (''style'', 50), (''boundaries'', 60), (''instructions'', 70)]"

(* src/pkg/core/profile.go:34-40 PromptFragment *)
record prompt_fragment =
  pf_id :: string
  pf_section :: string
  pf_content :: string
  pf_priority :: int

definition MaxProfileCapabilities :: nat where "MaxProfileCapabilities = 256"
definition MaxProfileFragments :: nat where "MaxProfileFragments = 512"
definition MaxPromptFragmentBytes :: nat where "MaxPromptFragmentBytes = 65536"
definition MaxSystemPromptBytes :: nat where "MaxSystemPromptBytes = 1048576"
definition MaxProfileMetadataItems :: nat where "MaxProfileMetadataItems = 256"

(* src/pkg/core/profile.go:56-73 AgentProfileLayer *)
record profile_layer =
  pl2_scope :: scope_path
  pl2_profileID :: string
  pl2_extends :: string
  pl2_name :: "string option"
  pl2_description :: "string option"
  pl2_model :: "model_selection option"
  pl2_maxSteps :: "int option"
  pl2_maxToolCalls :: "int option"
  pl2_addCapabilities :: "string list"
  pl2_removeCapabilities :: "string list"
  pl2_putFragments :: "prompt_fragment list"
  pl2_removeFragments :: "string list"
  pl2_metadata :: "(string, string) gomap"

(* src/pkg/core/profile.go:80-89 AgentProfileRegistry *)
record profile_registry =
  pg_layers :: "(string, (profile_layer \<times> nat) list) gomap"
  pg_flat :: "(profile_layer \<times> nat) list"
  pg_next :: nat
  pg_max :: int

(* src/pkg/core/profile.go:91-94 NewAgentProfileRegistry *)
definition newProfileRegistry :: profile_registry where
  "newProfileRegistry = \<lparr> pg_layers = [], pg_flat = [], pg_next = 0, pg_max = 0 \<rparr>"

datatype profile_error =
    ProfileEmptyScope
  | ProfileBadID
  | ProfileExtendsItself
  | ProfileTooManyCapabilities
  | ProfileTooManyFragments
  | ProfileTooMuchMetadata
  | ProfileBadCapability
  | ProfileBadFragment
  | ProfileFragmentTooLarge
  | ProfileUnknownSection
  | ProfileBadMetadata
  | ProfileRegistryFull
  | ProfileReplaceMismatch
  | ProfileReplaceAmbiguous
  | ProfileReplaceMissing
  | ProfileInconsistent
  | ProfileScopeNotOwned
  | ProfileCycle string
  | ProfileNotFound string
  | ProfileConflictingParents
  | ProfileBadSteps
  | ProfileBadToolCalls
  | ProfileBadModel
  | ProfilePromptTooLarge

section \<open>Validation and mounting\<close>

(* src/pkg/core/profile.go:617-624 ValidateProfileID *)
definition validateProfileID :: "string \<Rightarrow> bool" where
  "validateProfileID s = safe_id s"

(* src/pkg/core/profile.go:626-628 profileLayerKey *)
definition profileLayerKey :: "scope_path \<Rightarrow> string \<Rightarrow> string" where
  "profileLayerKey scope profileID = scopeString scope @ [CHR 0x00] @ profileID"

(* src/pkg/core/profile.go:642-673 cloneProfileLayer *)
definition cloneProfileLayer :: "profile_layer \<Rightarrow> profile_layer" where
  "cloneProfileLayer l = l\<lparr> pl2_metadata := fold (\<lambda>(k, v). mput k v) (pl2_metadata l) [] \<rparr>"

(* src/pkg/core/profile.go:263-304 validateProfileLayer *)
definition validateProfileLayer :: "profile_layer \<Rightarrow> profile_error option" where
  "validateProfileLayer l =
     (if pl2_scope l = [] then Some ProfileEmptyScope
      else if \<not> validateProfileID (pl2_profileID l) then Some ProfileBadID
      else if pl2_extends l = pl2_profileID l then Some ProfileExtendsItself
      else if length (pl2_addCapabilities l) + length (pl2_removeCapabilities l) > MaxProfileCapabilities
        then Some ProfileTooManyCapabilities
      else if length (pl2_putFragments l) + length (pl2_removeFragments l) > MaxProfileFragments
        then Some ProfileTooManyFragments
      else if length (pl2_metadata l) > MaxProfileMetadataItems then Some ProfileTooMuchMetadata
      else first_err
        (check_all (\<lambda>name. if \<not> validateNamespacedID name then Some ProfileBadCapability else None)
           (pl2_addCapabilities l @ pl2_removeCapabilities l))
        (first_err
          (check_all (\<lambda>f.
             if pf_id f = [] \<or> length (pf_id f) > 128 \<or> containsControl (pf_id f) \<or> blank (pf_content f)
               then Some ProfileBadFragment
             else if length (pf_content f) > MaxPromptFragmentBytes then Some ProfileFragmentTooLarge
             else if map_of promptSectionOrder (pf_section f) = None then Some ProfileUnknownSection
             else None) (pl2_putFragments l))
          (check_all (\<lambda>(k, v).
             if k = [] \<or> length k > 128 \<or> containsControl k \<or> length v > MaxPromptFragmentBytes \<or> containsControl v
               then Some ProfileBadMetadata else None) (pl2_metadata l))))"

(* src/pkg/core/profile.go:148-164 Mount *)
definition mountProfile :: "profile_registry \<Rightarrow> profile_layer \<Rightarrow> profile_error + mount_handle \<times> profile_registry" where
  "mountProfile r l =
     (case validateProfileLayer l of
        Some e \<Rightarrow> Inl e
      | None \<Rightarrow>
          if int (length (pg_flat r)) \<ge> registryCap (pg_max r) then Inl ProfileRegistryFull
          else let order = pg_next r + 1;
                   key = profileLayerKey (pl2_scope l) (pl2_profileID l);
                   stored = (cloneProfileLayer l, order)
               in Inr ((key, order),
                   r\<lparr> pg_next := order,
                      pg_layers := mput key (mget [] (pg_layers r) key @ [stored]) (pg_layers r),
                      pg_flat := pg_flat r @ [stored] \<rparr>))"

(* src/pkg/core/profile.go:142-146 Bind *)
definition bindProfile :: "profile_registry \<Rightarrow> profile_layer \<Rightarrow> profile_error option \<times> profile_registry" where
  "bindProfile r l = (case mountProfile r l of Inl e \<Rightarrow> (Some e, r) | Inr (_, r') \<Rightarrow> (None, r'))"

(* src/pkg/core/profile.go:165-185 Mount *)
definition unmountProfile :: "mount_handle \<Rightarrow> profile_registry \<Rightarrow> profile_registry" where
  "unmountProfile h r =
     (let (key, order) = h;
          r1 = (case remove_order order (mget [] (pg_layers r) key) of
                  None \<Rightarrow> r
                | Some rest \<Rightarrow> r\<lparr> pg_layers := mput key rest (pg_layers r) \<rparr>)
      in case remove_order order (pg_flat r1) of
           None \<Rightarrow> r1
         | Some rest \<Rightarrow> r1\<lparr> pg_flat := rest \<rparr>)"

section \<open>Resolution\<close>

(* src/pkg/core/profile.go:318-322 ResolvedPromptFragment *)
record resolved_fragment =
  rf_fragment :: prompt_fragment
  rf_source :: scope_path

(* src/pkg/core/profile.go:306-316 profileState *)
record profile_state =
  ps_id :: string
  ps_name :: string
  ps_description :: string
  ps_model :: model_selection
  ps_maxSteps :: int
  ps_maxToolCalls :: int
  ps_capabilities :: "(string, bool) gomap"
  ps_fragments :: "(string, resolved_fragment) gomap"
  ps_metadata :: "(string, string) gomap"

(* src/pkg/core/profile.go:481-489 layersForLocked *)
definition layersFor :: "profile_registry \<Rightarrow> scope_path \<Rightarrow> string \<Rightarrow> (profile_layer \<times> nat) list" where
  "layersFor r target profileID =
     concat (map (\<lambda>prefix. sort_key snd (mget [] (pg_layers r) (profileLayerKey prefix profileID)))
       (scopePrefixes target))"

(* src/pkg/core/profile.go:410-419 resolveLocked *)
fun commonParent :: "string \<Rightarrow> profile_layer list \<Rightarrow> profile_error + string" where
  "commonParent extends [] = Inr extends"
| "commonParent extends (l # ls) =
     (if pl2_extends l = [] then commonParent extends ls
      else if extends \<noteq> [] \<and> extends \<noteq> pl2_extends l then Inl ProfileConflictingParents
      else commonParent (pl2_extends l) ls)"

(* src/pkg/core/profile.go:421-424 resolveLocked *)
definition freshProfileState :: "string \<Rightarrow> profile_state" where
  "freshProfileState profileID =
     \<lparr> ps_id = profileID, ps_name = [], ps_description = [], ps_model = \<lparr> ms_provider = [], ms_model = [] \<rparr>,
       ps_maxSteps = 10, ps_maxToolCalls = 16, ps_capabilities = [], ps_fragments = [], ps_metadata = [] \<rparr>"

(* src/pkg/core/profile.go:434-471 resolveLocked *)
definition applyProfileLayer :: "profile_state \<Rightarrow> profile_layer \<Rightarrow> profile_error + profile_state" where
  "applyProfileLayer st l =
     (let st1 = st\<lparr> ps_name := (case pl2_name l of None \<Rightarrow> ps_name st | Some v \<Rightarrow> v),
                    ps_description := (case pl2_description l of None \<Rightarrow> ps_description st | Some v \<Rightarrow> v),
                    ps_model := (case pl2_model l of None \<Rightarrow> ps_model st | Some v \<Rightarrow> v) \<rparr>
      in if cap_out_of_range (pl2_maxSteps l) HardMaxSteps then Inl ProfileBadSteps
         else if cap_out_of_range (pl2_maxToolCalls l) HardMaxToolCalls then Inl ProfileBadToolCalls
         else Inr (st1\<lparr>
           ps_maxSteps := (case pl2_maxSteps l of None \<Rightarrow> ps_maxSteps st1 | Some v \<Rightarrow> v),
           ps_maxToolCalls := (case pl2_maxToolCalls l of None \<Rightarrow> ps_maxToolCalls st1 | Some v \<Rightarrow> v),
           ps_capabilities := fold mdel (pl2_removeCapabilities l)
             (fold (\<lambda>name. mput name True) (pl2_addCapabilities l) (ps_capabilities st1)),
           ps_fragments := fold (\<lambda>f. mput (pf_id f) \<lparr> rf_fragment = f, rf_source = pl2_scope l \<rparr>) (pl2_putFragments l)
             (fold mdel (pl2_removeFragments l) (ps_fragments st1)),
           ps_metadata := fold (\<lambda>(k, v). mput k v) (pl2_metadata l) (ps_metadata st1) \<rparr>))"

(* src/pkg/core/profile.go:434-478 resolveLocked *)
definition finishProfile :: "string \<Rightarrow> profile_layer list \<Rightarrow> profile_state \<Rightarrow> profile_error + profile_state" where
  "finishProfile profileID ls st0 =
     rbind (foldr_err applyProfileLayer st0 ls) (\<lambda>st.
       let st1 = (if ps_name st = [] then st\<lparr> ps_name := profileID \<rparr> else st) in
         if \<not> validateModelSelection (ps_model st1) then Inl ProfileBadModel else Inr st1)"

text \<open>The profiles that have a layer on the path: the recursion below only enters these.\<close>

definition profiles_on_path :: "profile_registry \<Rightarrow> scope_path \<Rightarrow> string set" where
  "profiles_on_path r target = {p. layersFor r target p \<noteq> []}"

lemma profiles_on_path_finite: "finite (profiles_on_path r target)"
proof -
  have "profiles_on_path r target \<subseteq>
      (\<Union>prefix \<in> set (scopePrefixes target). {p. profileLayerKey prefix p \<in> fst ` set (pg_layers r)})"
  proof
    fix p assume "p \<in> profiles_on_path r target"
    then obtain prefix where pr: "prefix \<in> set (scopePrefixes target)"
      "mget [] (pg_layers r) (profileLayerKey prefix p) \<noteq> []"
      by (auto simp: profiles_on_path_def layersFor_def) (metis length_0_conv length_sort)
    then have "map_of (pg_layers r) (profileLayerKey prefix p) \<noteq> None"
      by (auto simp: mget_def split: option.splits)
    then have "profileLayerKey prefix p \<in> fst ` set (pg_layers r)"
      by (simp add: map_of_eq_None_iff)
    with pr(1) show "p \<in> (\<Union>prefix \<in> set (scopePrefixes target). {p. profileLayerKey prefix p \<in> fst ` set (pg_layers r)})"
      by blast
  qed
  moreover have "finite {p. profileLayerKey prefix p \<in> fst ` set (pg_layers r)}" for prefix
    by (rule finite_vimageI[of "fst ` set (pg_layers r)" "profileLayerKey prefix", unfolded vimage_def])
      (auto simp: inj_def profileLayerKey_def)
  ultimately show ?thesis by (meson finite_UN finite_set finite_subset)
qed

(* src/pkg/core/profile.go:398-479 resolveLocked *)
function resolveProfileState :: "profile_registry \<Rightarrow> scope_path \<Rightarrow> string \<Rightarrow> string list \<Rightarrow> profile_error + profile_state" where
  "resolveProfileState r target profileID visiting =
     (if profileID \<in> set visiting then Inl (ProfileCycle profileID)
      else let layers = layersFor r target profileID in
        if layers = [] then Inl (ProfileNotFound profileID)
        else (case commonParent [] (map fst layers) of
                Inl e \<Rightarrow> Inl e
              | Inr extends \<Rightarrow>
                  if extends = [] then finishProfile profileID (map fst layers) (freshProfileState profileID)
                  else (case resolveProfileState r target extends (profileID # visiting) of
                          Inl e \<Rightarrow> Inl e
                        | Inr parent \<Rightarrow> finishProfile profileID (map fst layers) (parent\<lparr> ps_id := profileID \<rparr>))))"
  by pat_completeness auto
termination
proof (relation "measure (\<lambda>(r, target, p, visiting). card (profiles_on_path r target - set visiting))")
  fix r :: profile_registry and target p visiting layers extends
  assume "p \<notin> set visiting" "layers = layersFor r target p" "layers \<noteq> []"
  then have "profiles_on_path r target - set (p # visiting) \<subset> profiles_on_path r target - set visiting"
    by (auto simp: profiles_on_path_def)
  then show "((r, target, extends, p # visiting), (r, target, p, visiting))
      \<in> measure (\<lambda>(r, target, p, visiting). card (profiles_on_path r target - set visiting))"
    using profiles_on_path_finite[of r target] by (auto intro: psubset_card_mono)
qed simp

declare resolveProfileState.simps [simp del]

(* src/pkg/core/profile.go:324-338 AgentProfileSnapshot *)
record profile_snapshot =
  as_id :: string
  as_profileID :: string
  as_createdAt :: gotime
  as_scope :: scope_path
  as_name :: string
  as_description :: string
  as_model :: model_selection
  as_maxSteps :: int
  as_maxToolCalls :: int
  as_capabilities :: "string list"
  as_fragments :: "resolved_fragment list"
  as_metadata :: "(string, string) gomap"

(* src/pkg/core/profile.go:364-373 Resolve *)
definition fragment_key :: "resolved_fragment \<Rightarrow> int \<times> int \<times> string" where
  "fragment_key f = (mget 0 promptSectionOrder (pf_section (rf_fragment f)), pf_priority (rf_fragment f), pf_id (rf_fragment f))"

(* src/pkg/core/profile.go:516-529 SystemPrompt *)
fun renderFragments :: "string \<Rightarrow> string \<Rightarrow> resolved_fragment list \<Rightarrow> string" where
  "renderFragments out current [] = out"
| "renderFragments out current (f # fs) =
     (let section = pf_section (rf_fragment f);
          out1 = (if section \<noteq> current
                  then (if out \<noteq> [] then out @ [CHR 0x0A, CHR 0x0A] else out) @ ''## '' @ section @ [CHR 0x0A]
                  else out)
      in renderFragments (out1 @ ''- '' @ pf_content (rf_fragment f) @ [CHR 0x0A]) section fs)"

(* src/pkg/core/profile.go:512-531 SystemPrompt *)
definition systemPrompt :: "profile_snapshot \<Rightarrow> string" where
  "systemPrompt s = trim_space (renderFragments [] [] (as_fragments s))"

definition json_model :: "model_selection \<Rightarrow> string" where
  "json_model m = json_struct [(''provider'', json_string (ms_provider m)), (''model'', json_string (ms_model m))]"

definition json_fragment :: "resolved_fragment \<Rightarrow> string option" where
  "json_fragment f = json_record
     [field ''id'' (Some (json_string (pf_id (rf_fragment f)))),
      field ''section'' (Some (json_string (pf_section (rf_fragment f)))),
      field ''content'' (Some (json_string (pf_content (rf_fragment f)))),
      int_field ''priority'' (pf_priority (rf_fragment f)),
      field ''source'' (json_scope (rf_source f))]"

definition json_profile :: "profile_snapshot \<Rightarrow> string option" where
  "json_profile s = json_record
     [field ''id'' (Some (json_string (as_id s))),
      field ''profile_id'' (Some (json_string (as_profileID s))),
      field ''created_at'' (Some (json_string (rfc3339 (as_createdAt s)))),
      field ''scope'' (json_scope (as_scope s)),
      field ''name'' (Some (json_string (as_name s))),
      string_field ''description'' (as_description s),
      field ''model'' (Some (json_model (as_model s))),
      field ''max_steps'' (Some (int_str (as_maxSteps s))),
      int_field ''max_tool_calls'' (as_maxToolCalls s),
      field ''capabilities'' (json_strings (as_capabilities s)),
      field ''fragments'' (map_option json_array_text (seq_opt (map json_fragment (as_fragments s)))),
      omit_if (as_metadata s = []) (field ''metadata'' (json_string_map (as_metadata s)))]"

text \<open>The snapshot has no dynamic values, so its encoding never fails.\<close>

(* src/pkg/core/profile.go:630-640 profileDigest *)
definition profileDigest :: "profile_snapshot \<Rightarrow> string" where
  "profileDigest s = sha256_hex (the (json_profile (s\<lparr> as_id := [], as_createdAt := 0 \<rparr>)))"

(* src/pkg/core/profile.go:352-380 Resolve *)
definition assembleProfile :: "gotime \<Rightarrow> scope_path \<Rightarrow> string \<Rightarrow> profile_state \<Rightarrow> profile_snapshot" where
  "assembleProfile now target profileID st =
     \<lparr> as_id = [], as_profileID = profileID, as_createdAt = now, as_scope = target,
       as_name = ps_name st, as_description = ps_description st, as_model = ps_model st,
       as_maxSteps = ps_maxSteps st, as_maxToolCalls = ps_maxToolCalls st,
       as_capabilities = sort (map fst (filter snd (ps_capabilities st))),
       as_fragments = sort_key fragment_key (map snd (ps_fragments st)),
       as_metadata = ps_metadata st \<rparr>"

(* src/pkg/core/profile.go:340-396 Resolve *)
definition resolveProfile :: "profile_registry \<Rightarrow> gotime \<Rightarrow> scope_path \<Rightarrow> scope_path \<Rightarrow> string \<Rightarrow> profile_error + profile_snapshot" where
  "resolveProfile r now owner target profileID =
     (if \<not> isAncestorOf owner target then Inl ProfileScopeNotOwned
      else rbind (resolveProfileState r target profileID []) (\<lambda>st.
        let snapshot = assembleProfile now target profileID st in
          if length (as_capabilities snapshot) > MaxProfileCapabilities then Inl ProfileTooManyCapabilities
          else if length (as_fragments snapshot) > MaxProfileFragments then Inl ProfileTooManyFragments
          else if length (systemPrompt snapshot) > MaxSystemPromptBytes then Inl ProfilePromptTooLarge
          else Inr (snapshot\<lparr> as_id := profileDigest snapshot \<rparr>)))"

(* src/pkg/core/profile.go:491-510 ListProfiles *)
definition listProfiles :: "profile_registry \<Rightarrow> scope_path \<Rightarrow> profile_error + string list" where
  "listProfiles r target =
     (if target = [] then Inl ProfileEmptyScope
      else Inr (sort (foldl (\<lambda>out (l, _).
             if isAncestorOf (pl2_scope l) target \<and> pl2_profileID l \<notin> set out then out @ [pl2_profileID l] else out)
             [] (pg_flat r))))"

section \<open>Replacement\<close>

(* src/pkg/core/profile.go:108-122 cloneLocked *)
definition cloneProfileRegistry :: "profile_registry \<Rightarrow> profile_registry" where
  "cloneProfileRegistry r = r\<lparr>
     pg_layers := map (\<lambda>(k, ls). (k, map (\<lambda>(l, ord). (cloneProfileLayer l, ord)) ls)) (pg_layers r),
     pg_flat := map (\<lambda>(l, ord). (cloneProfileLayer l, ord)) (pg_flat r) \<rparr>"

(* src/pkg/core/profile.go:242-253 profileLayerEqual *)
definition profileLayerEqual :: "profile_layer \<Rightarrow> profile_layer \<Rightarrow> bool" where
  "profileLayerEqual a b \<longleftrightarrow>
     scopeEqual (pl2_scope a) (pl2_scope b) \<and> pl2_profileID a = pl2_profileID b \<and> pl2_extends a = pl2_extends b
     \<and> pl2_name a = pl2_name b \<and> pl2_description a = pl2_description b \<and> pl2_model a = pl2_model b
     \<and> pl2_maxSteps a = pl2_maxSteps b \<and> pl2_maxToolCalls a = pl2_maxToolCalls b
     \<and> pl2_addCapabilities a = pl2_addCapabilities b \<and> pl2_removeCapabilities a = pl2_removeCapabilities b
     \<and> pl2_putFragments a = pl2_putFragments b \<and> pl2_removeFragments a = pl2_removeFragments b
     \<and> length (pl2_metadata a) = length (pl2_metadata b)
     \<and> list_all (\<lambda>(k, v). map_of (pl2_metadata b) k = Some v) (pl2_metadata a)"

(* src/pkg/core/profile.go:204-228 ReplaceExact *)
definition replaceTarget :: "profile_registry \<Rightarrow> profile_layer \<Rightarrow> profile_error + nat \<times> nat \<times> nat" where
  "replaceTarget r old =
     (let ls = mget [] (pg_layers r) (profileLayerKey (pl2_scope old) (pl2_profileID old));
          matches = filter (\<lambda>i. profileLayerEqual (fst (ls ! i)) old) [0..<length ls]
      in case matches of
           [] \<Rightarrow> Inl ProfileReplaceMissing
         | [m] \<Rightarrow>
             (let order = snd (ls ! m);
                  flats = filter (\<lambda>i. snd (pg_flat r ! i) = order) [0..<length (pg_flat r)]
              in case flats of
                   [f] \<Rightarrow> if profileLayerEqual (fst (pg_flat r ! f)) old then Inr (m, f, order) else Inl ProfileInconsistent
                 | _ \<Rightarrow> Inl ProfileInconsistent)
         | _ \<Rightarrow> Inl ProfileReplaceAmbiguous)"

definition putLayer :: "profile_registry \<Rightarrow> string \<Rightarrow> nat \<Rightarrow> nat \<Rightarrow> profile_layer \<times> nat \<Rightarrow> profile_registry" where
  "putLayer r key m f stored = r\<lparr>
     pg_layers := mput key ((mget [] (pg_layers r) key)[m := stored]) (pg_layers r),
     pg_flat := (pg_flat r)[f := stored] \<rparr>"

(* src/pkg/core/profile.go:187-240 ReplaceExact *)
definition replaceExact :: "profile_registry \<Rightarrow> gotime \<Rightarrow> profile_layer \<Rightarrow> profile_layer \<Rightarrow> profile_error option \<times> profile_registry" where
  "replaceExact r now old nxt =
     (case first_err (validateProfileLayer old) (validateProfileLayer nxt) of
        Some e \<Rightarrow> (Some e, r)
      | None \<Rightarrow>
          if pl2_profileID old \<noteq> pl2_profileID nxt \<or> \<not> scopeEqual (pl2_scope old) (pl2_scope nxt)
          then (Some ProfileReplaceMismatch, r)
          else (case replaceTarget r old of
                 Inl e \<Rightarrow> (Some e, r)
               | Inr (m, f, order) \<Rightarrow>
                   let key = profileLayerKey (pl2_scope old) (pl2_profileID old);
                       stored = (cloneProfileLayer nxt, order);
                       candidate = putLayer (cloneProfileRegistry r) key m f stored
                   in (case resolveProfile candidate now (pl2_scope nxt) (pl2_scope nxt) (pl2_profileID nxt) of
                         Inl e \<Rightarrow> (Some e, r)
                       | Inr _ \<Rightarrow> (None, putLayer r key m f stored))))"

section \<open>Snapshot filters\<close>

(* src/pkg/core/profile.go:601-615 rebuild *)
definition rebuildSnapshot :: "capability_snapshot \<Rightarrow> gotime \<Rightarrow> snapshot_capability list \<Rightarrow> (string, provider option) gomap
    \<Rightarrow> capability_snapshot" where
  "rebuildSnapshot s now entries providers =
     (let (digest, entries1, providers1) =
            (case snapshotDigest (sn_scope s) (sn_principal s) entries of
               Inl _ \<Rightarrow> ([], [], [])
             | Inr d \<Rightarrow> (d, entries, providers))
      in \<lparr> sn_id = digest, sn_createdAt = now, sn_scope = sn_scope s, sn_capabilities = entries1,
           sn_providers = providers1, sn_credentials = sn_credentials s, sn_principal = clonePrincipal (sn_principal s) \<rparr>)"

definition keptProviders :: "capability_snapshot \<Rightarrow> snapshot_capability list \<Rightarrow> (string, provider option) gomap" where
  "keptProviders s entries =
     fold (\<lambda>c. mput (cm_id (sc_manifest c)) (snapshot_provider s (cm_id (sc_manifest c)))) entries []"

(* src/pkg/core/profile.go:538-560 Filter *)
definition filterSnapshot :: "capability_snapshot \<Rightarrow> gotime \<Rightarrow> string list \<Rightarrow> string + capability_snapshot" where
  "filterSnapshot s now ids =
     (let entries = filter (\<lambda>c. cm_id (sc_manifest c) \<in> set ids) (sn_capabilities s);
          providers = keptProviders s entries
      in case find (\<lambda>n. map_of providers n = None) (remdups ids) of
           Some n \<Rightarrow> Inl n
         | None \<Rightarrow> Inr (rebuildSnapshot s now entries providers))"

(* src/pkg/core/profile.go:533-536 FilterCapabilities *)
definition filterCapabilities :: "profile_snapshot \<Rightarrow> gotime \<Rightarrow> capability_snapshot \<Rightarrow> string + capability_snapshot" where
  "filterCapabilities p now s = filterSnapshot s now (as_capabilities p)"

(* src/pkg/core/profile.go:562-576 FilterByPermissions *)
definition filterByPermissions :: "capability_snapshot \<Rightarrow> gotime \<Rightarrow> permission_set \<Rightarrow> capability_snapshot" where
  "filterByPermissions s now permissions =
     (let entries = filter (\<lambda>c. permissionsAllow permissions (cm_requiredPermissions (sc_manifest c))) (sn_capabilities s)
      in rebuildSnapshot s now entries (keptProviders s entries))"

text \<open>A run-local filter answers true, false or panics (\<open>None\<close>); a panic counts as false.\<close>

(* src/pkg/core/profile.go:578-599 FilterByPredicate *)
definition filterByPredicate :: "capability_snapshot \<Rightarrow> gotime \<Rightarrow> (capability_manifest \<Rightarrow> bool option) option \<Rightarrow> capability_snapshot" where
  "filterByPredicate s now allow =
     (case allow of
        None \<Rightarrow> s
      | Some f \<Rightarrow>
          let entries = filter (\<lambda>c. f (publicManifest (sc_manifest c)) = Some True) (sn_capabilities s)
          in rebuildSnapshot s now entries (keptProviders s entries))"

section \<open>The registry contract\<close>

abbreviation pg_view :: "profile_registry \<Rightarrow> string \<Rightarrow> (profile_layer \<times> nat) list" where
  "pg_view r k \<equiv> mget [] (pg_layers r) k"

abbreviation layer_key :: "profile_layer \<Rightarrow> string" where
  "layer_key l \<equiv> profileLayerKey (pl2_scope l) (pl2_profileID l)"

text \<open>
  The two projections agree: a key holds exactly the flat entries of that key, in the same order;
  the flat list is strictly ordered by mount order, below the counter and within the cap.
\<close>

definition profile_registry_ok :: "profile_registry \<Rightarrow> bool" where
  "profile_registry_ok r \<longleftrightarrow> gomap_ok (pg_layers r)
     \<and> (\<forall>k. pg_view r k = filter (\<lambda>s. layer_key (fst s) = k) (pg_flat r))
     \<and> sorted_wrt (<) (map snd (pg_flat r))
     \<and> (\<forall>s \<in> set (pg_flat r). snd s \<le> pg_next r \<and> gomap_ok (pl2_metadata (fst s)))
     \<and> int (length (pg_flat r)) \<le> registryCap (pg_max r)"

definition profile_issued :: "profile_registry \<Rightarrow> mount_handle \<Rightarrow> bool" where
  "profile_issued r h \<longleftrightarrow> snd h \<le> pg_next r \<and> (\<forall>s \<in> set (pg_flat r). snd s = snd h \<longrightarrow> layer_key (fst s) = fst h)"

lemma cloneProfileLayer_simps [simp]:
  "pl2_scope (cloneProfileLayer l) = pl2_scope l" "pl2_profileID (cloneProfileLayer l) = pl2_profileID l"
  "pl2_extends (cloneProfileLayer l) = pl2_extends l"
  "gomap_ok (pl2_metadata (cloneProfileLayer l))"
proof -
  have "gomap_ok (fold (\<lambda>(k, v) out. if True then mput k v out else out) (pl2_metadata l) [])"
    by (rule fold_mput_ok) simp
  then show "gomap_ok (pl2_metadata (cloneProfileLayer l))" by (simp add: cloneProfileLayer_def)
qed (simp_all add: cloneProfileLayer_def)

lemma cloneProfileLayer_id: "gomap_ok (pl2_metadata l) \<Longrightarrow> cloneProfileLayer l = l"
  by (simp add: cloneProfileLayer_def fold_mput_id)

lemma profile_registry_ok_new: "profile_registry_ok newProfileRegistry"
  by (simp add: profile_registry_ok_def newProfileRegistry_def mget_def registryCap_def MaxRegistryBindings_def)

lemma mountProfile_eq:
  assumes "mountProfile r l = Inr (h, r')"
  shows "h = (layer_key l, pg_next r + 1)" "pg_next r' = pg_next r + 1" "pg_max r' = pg_max r"
    "pg_flat r' = pg_flat r @ [(cloneProfileLayer l, pg_next r + 1)]"
    "pg_layers r' = mput (layer_key l) (pg_view r (layer_key l) @ [(cloneProfileLayer l, pg_next r + 1)]) (pg_layers r)"
    "int (length (pg_flat r)) < registryCap (pg_max r)" "validateProfileLayer l = None"
  using assms by (auto simp: mountProfile_def Let_def split: option.splits if_splits)

lemma profile_registry_ok_mount:
  assumes "profile_registry_ok r" "mountProfile r l = Inr (h, r')"
  shows "profile_registry_ok r'"
proof -
  note m = mountProfile_eq[OF assms(2)]
  have "sorted_wrt (<) (map snd (pg_flat r'))"
    using assms(1) by (auto simp: m profile_registry_ok_def sorted_wrt_append less_Suc_eq_le)
  then show ?thesis
    using assms(1) m(6) by (auto simp: m(2-5) profile_registry_ok_def mget_mput)
qed

lemma remove_order_flat:
  assumes "profile_registry_ok r"
  shows "remove_order ord (pg_flat r) = (if ord \<in> snd ` set (pg_flat r) then Some (filter (\<lambda>s. snd s \<noteq> ord) (pg_flat r)) else None)"
    and "remove_order ord (pg_view r k) = (if ord \<in> snd ` set (pg_view r k) then Some (filter (\<lambda>s. snd s \<noteq> ord) (pg_view r k)) else None)"
proof -
  have s: "sorted_wrt (<) (map snd (pg_flat r))"
    using assms by (simp add: profile_registry_ok_def)
  then have v: "sorted_wrt (<) (map snd (pg_view r k))"
    using assms by (simp add: profile_registry_ok_def sorted_wrt_map sorted_wrt_filter)
  show "remove_order ord (pg_flat r) = (if ord \<in> snd ` set (pg_flat r) then Some (filter (\<lambda>s. snd s \<noteq> ord) (pg_flat r)) else None)"
    by (rule remove_order_filter[OF s])
  show "remove_order ord (pg_view r k) = (if ord \<in> snd ` set (pg_view r k) then Some (filter (\<lambda>s. snd s \<noteq> ord) (pg_view r k)) else None)"
    by (rule remove_order_filter[OF v])
qed

lemma unmountProfile_eq:
  assumes "profile_registry_ok r"
  shows "pg_flat (unmountProfile h r) = filter (\<lambda>s. snd s \<noteq> snd h) (pg_flat r)"
    and "pg_view (unmountProfile h r) k = filter (\<lambda>s. (k, snd s) \<noteq> h) (pg_view r k)"
    and "pg_next (unmountProfile h r) = pg_next r" and "pg_max (unmountProfile h r) = pg_max r"
    and "gomap_ok (pg_layers (unmountProfile h r))"
proof -
  obtain key ord where h: "h = (key, ord)" by force
  have id: "ord \<notin> snd ` set xs \<Longrightarrow> filter (\<lambda>s. snd s \<noteq> ord) xs = xs" for xs :: "(profile_layer \<times> nat) list"
    by (auto simp: filter_id_conv)
  note rm = remove_order_flat[OF assms, of ord]
  show "pg_flat (unmountProfile h r) = filter (\<lambda>s. snd s \<noteq> snd h) (pg_flat r)"
    by (simp add: unmountProfile_def h rm id)
  show "pg_view (unmountProfile h r) k = filter (\<lambda>s. (k, snd s) \<noteq> h) (pg_view r k)"
    by (auto simp: unmountProfile_def h rm id mget_mput)
  show "pg_next (unmountProfile h r) = pg_next r" "pg_max (unmountProfile h r) = pg_max r"
    by (simp_all add: unmountProfile_def h rm)
  show "gomap_ok (pg_layers (unmountProfile h r))"
    using assms unfolding profile_registry_ok_def by (simp add: unmountProfile_def h Let_def split: option.split)
qed

lemma profile_registry_ok_unmount:
  assumes "profile_registry_ok r" "profile_issued r h"
  shows "profile_registry_ok (unmountProfile h r)"
proof -
  note u = unmountProfile_eq[OF assms(1), of h]
  have "filter (\<lambda>s. (k, snd s) \<noteq> h) (filter (\<lambda>s. layer_key (fst s) = k) (pg_flat r))
      = filter (\<lambda>s. layer_key (fst s) = k) (filter (\<lambda>s. snd s \<noteq> snd h) (pg_flat r))" for k
    unfolding filter_filter using assms(2) by (intro filter_cong) (auto simp: profile_issued_def)
  then have "pg_view (unmountProfile h r) k = filter (\<lambda>s. layer_key (fst s) = k) (pg_flat (unmountProfile h r))" for k
    using assms(1) unfolding u(1,2) by (simp add: profile_registry_ok_def)
  moreover have "length (filter (\<lambda>s. snd s \<noteq> snd h) (pg_flat r)) \<le> length (pg_flat r)" by (rule length_filter_le)
  ultimately show ?thesis
    using assms(1) u(5) by (auto simp: u(1,3,4) profile_registry_ok_def sorted_wrt_map sorted_wrt_filter simp del: length_filter_le)
qed

interpretation prof: mountable profile_registry_ok profile_issued pg_view "\<lambda>k s. (k, snd s)" mountProfile unmountProfile
proof unfold_locales
  fix r l h r' assume ok: "profile_registry_ok r" and m: "mountProfile r l = Inr (h, r')"
  note e = mountProfile_eq[OF m]
  have old: "snd s \<le> pg_next r" if "s \<in> set (pg_flat r)" for s
    using ok that by (auto simp: profile_registry_ok_def)
  show "profile_issued r' h" using old by (fastforce simp: profile_issued_def e)
  show "profile_issued r' g" if "profile_issued r g" for g
    using that by (auto simp: profile_issued_def e)
  show "\<exists>key s. (key, snd s) = h \<and> (\<forall>k. pg_view r' k = (if k = key then pg_view r k @ [s] else pg_view r k))"
    by (intro exI[of _ "layer_key l"] exI[of _ "(cloneProfileLayer l, pg_next r + 1)"]) (simp add: e mget_mput)
  show "(k, snd s) \<noteq> h" if "s \<in> set (pg_view r k)" for s k
  proof -
    have "s \<in> set (pg_flat r)" using ok that by (auto simp: profile_registry_ok_def)
    then show ?thesis using old by (fastforce simp: e)
  qed
next
  fix r g h assume "profile_registry_ok r" "profile_issued r g" "profile_issued r h"
  then show "profile_issued (unmountProfile h r) g"
    by (auto simp: profile_issued_def unmountProfile_eq)
qed (auto intro: profile_registry_ok_mount profile_registry_ok_unmount simp: unmountProfile_eq)

section \<open>Replacement keeps the order\<close>

lemma list_update_by_order:
  assumes "distinct (map snd xs)" "i < length xs"
  shows "xs[i := y] = map (\<lambda>s. if snd s = snd (xs ! i) then y else s) xs"
  using assms by (auto simp: list_eq_iff_nth_eq nth_list_update distinct_conv_nth)

lemma filter_unique_index:
  assumes "filter P [0..<n] = [i]"
  shows "i < n \<and> P i"
proof -
  have "i \<in> set (filter P [0..<n])" using assms by simp
  then show ?thesis by auto
qed

lemma replaceTarget_eq:
  assumes "replaceTarget r old = Inr (m, f, ord)"
  shows "m < length (pg_view r (layer_key old))" "snd (pg_view r (layer_key old) ! m) = ord"
    "profileLayerEqual (fst (pg_view r (layer_key old) ! m)) old"
    "f < length (pg_flat r)" "snd (pg_flat r ! f) = ord"
  using assms by (auto simp: replaceTarget_def Let_def split: list.splits if_splits dest!: filter_unique_index)

definition swap_order :: "nat \<Rightarrow> profile_layer \<times> nat \<Rightarrow> (profile_layer \<times> nat) list \<Rightarrow> (profile_layer \<times> nat) list" where
  "swap_order ord y xs = map (\<lambda>s. if snd s = ord then y else s) xs"

lemma putLayer_swap:
  assumes "profile_registry_ok r" "replaceTarget r old = Inr (m, f, ord)"
  shows "pg_flat (putLayer r (layer_key old) m f y) = swap_order ord y (pg_flat r)"
    and "pg_view (putLayer r (layer_key old) m f y) k
      = (if k = layer_key old then swap_order ord y (pg_view r k) else pg_view r k)"
proof -
  note t = replaceTarget_eq[OF assms(2)]
  have "distinct (map snd (pg_flat r))"
    using assms(1) by (auto simp: profile_registry_ok_def strict_sorted_iff)
  moreover from this have "distinct (map snd (pg_view r (layer_key old)))"
    using assms(1) by (simp add: profile_registry_ok_def distinct_map_filter)
  ultimately show "pg_flat (putLayer r (layer_key old) m f y) = swap_order ord y (pg_flat r)"
    "pg_view (putLayer r (layer_key old) m f y) k
      = (if k = layer_key old then swap_order ord y (pg_view r k) else pg_view r k)"
    using t by (simp_all add: putLayer_def swap_order_def list_update_by_order mget_mput)
qed

end
