(* ===== verification/Profile_Facts.thy ===== *)
theory Profile_Facts
  imports Profile
begin

text \<open>
  What profile resolution promises: bounds of every resolved profile, termination of the inheritance
  chain with cycles reported, replacement in place, and mounts that leave no trace when undone.
\<close>

section \<open>Bounds\<close>

definition profile_limits_ok :: "profile_state \<Rightarrow> bool" where
  "profile_limits_ok st \<longleftrightarrow> 1 \<le> ps_maxSteps st \<and> ps_maxSteps st \<le> HardMaxSteps
     \<and> 1 \<le> ps_maxToolCalls st \<and> ps_maxToolCalls st \<le> HardMaxToolCalls
     \<and> gomap_ok (ps_capabilities st)"

lemma gomap_ok_fold_mput: "gomap_ok m \<Longrightarrow> gomap_ok (fold (\<lambda>x. mput (f x) (g x)) xs m)"
  by (induction xs arbitrary: m) simp_all

lemma gomap_ok_fold_mdel: "gomap_ok m \<Longrightarrow> gomap_ok (fold mdel xs m)"
  by (induction xs arbitrary: m) simp_all

lemma applyProfileLayer_limits:
  "profile_limits_ok st \<Longrightarrow> applyProfileLayer st l = Inr st' \<Longrightarrow> profile_limits_ok st'"
  by (auto simp: applyProfileLayer_def profile_limits_ok_def Let_def cap_out_of_range_def
      gomap_ok_fold_mdel gomap_ok_fold_mput split: if_splits option.splits)

lemma finishProfile_limits:
  assumes "finishProfile p ls st0 = Inr st" "profile_limits_ok st0"
  shows "profile_limits_ok st \<and> validateModelSelection (ps_model st)"
proof -
  from assms(1) obtain st1 where st1: "foldr_err applyProfileLayer st0 ls = Inr st1"
    "(let st2 = (if ps_name st1 = [] then st1\<lparr> ps_name := p \<rparr> else st1) in
         if \<not> validateModelSelection (ps_model st2) then Inl ProfileBadModel else Inr st2) = Inr st"
    unfolding finishProfile_def by blast
  have "profile_limits_ok st1"
    by (rule foldr_err_invariant[OF st1(1), where P = profile_limits_ok])
      (use assms(2) in \<open>auto intro: applyProfileLayer_limits\<close>)
  with st1(2) show ?thesis
    by (auto simp: Let_def profile_limits_ok_def split: if_splits)
qed

lemma resolveProfileState_InrE:
  assumes "resolveProfileState r target p visiting = Inr st"
  obtains (root) "finishProfile p (map fst (layersFor r target p)) (freshProfileState p) = Inr st"
      "commonParent [] (map fst (layersFor r target p)) = Inr []"
  | (child) q parent where "p \<notin> set visiting" "layersFor r target p \<noteq> []"
      "commonParent [] (map fst (layersFor r target p)) = Inr q" "q \<noteq> []"
      "resolveProfileState r target q (p # visiting) = Inr parent"
      "finishProfile p (map fst (layersFor r target p)) (parent\<lparr> ps_id := p \<rparr>) = Inr st"
  using assms
  by (subst (asm) resolveProfileState.simps) (auto simp: Let_def split: if_splits sum.splits)

lemma resolveProfileState_limits:
  "resolveProfileState r target p visiting = Inr st \<Longrightarrow> profile_limits_ok st \<and> validateModelSelection (ps_model st)"
proof (induction r target p visiting arbitrary: st rule: resolveProfileState.induct)
  case (1 r target p visiting)
  from "1.prems" show ?case
  proof (cases rule: resolveProfileState_InrE)
    case root
    from root(1) show ?thesis
      by (rule finishProfile_limits)
        (simp add: profile_limits_ok_def freshProfileState_def HardMaxSteps_def HardMaxToolCalls_def)
  next
    case (child q parent)
    then have "profile_limits_ok parent" using "1.IH"[OF child(1) refl child(2-4)] by blast
    then show ?thesis
      by (intro finishProfile_limits[OF child(6)]) (simp add: profile_limits_ok_def)
  qed
qed

section \<open>Inheritance\<close>

inductive inherits :: "profile_registry \<Rightarrow> scope_path \<Rightarrow> string \<Rightarrow> string \<Rightarrow> bool" for r target where
  "layersFor r target p \<noteq> [] \<Longrightarrow> commonParent [] (map fst (layersFor r target p)) = Inr q \<Longrightarrow> q \<noteq> []
    \<Longrightarrow> inherits r target p q"

inductive_cases inheritsE: "inherits r target p q"

lemma resolved_chain_ends:
  "resolveProfileState r target p visiting = Inr st \<Longrightarrow> Wellfounded.accp (\<lambda>q p. inherits r target p q) p"
proof (induction r target p visiting arbitrary: st rule: resolveProfileState.induct)
  case (1 r target p visiting)
  from "1.prems" show ?case
  proof (cases rule: resolveProfileState_InrE)
    case root
    then have "\<not> inherits r target p q" for q by (auto elim: inheritsE)
    then show ?thesis by (blast intro: accpI)
  next
    case (child q parent)
    have "q' = q" if "inherits r target p q'" for q' using that child(3) by (auto elim: inheritsE)
    with "1.IH"[OF child(1) refl child(2-5)] show ?thesis by (blast intro: accpI)
  qed
qed

lemma accp_no_cycle: "Wellfounded.accp R x \<Longrightarrow> \<not> R\<^sup>+\<^sup>+ x x"
proof (induction rule: accp.induct)
  case (accI x)
  show ?case
  proof
    assume c: "R\<^sup>+\<^sup>+ x x"
    then obtain y where y: "R y x" "R\<^sup>*\<^sup>* x y" by (metis tranclp.cases rtranclp.rtrancl_refl tranclp_into_rtranclp)
    then have "R\<^sup>+\<^sup>+ y y" by simp
    with accI y(1) show False by blast
  qed
qed

text \<open>C27: A profile that inherits, directly or through other profiles, from a profile on an inheritance
  cycle does not resolve: resolution always terminates and such a chain ends in an error.\<close>
theorem profile_cycle_rejected:
  assumes "(inherits r target)\<^sup>*\<^sup>* p q" "(inherits r target)\<^sup>+\<^sup>+ q q"
  shows "\<exists>e. resolveProfile r now owner target p = Inl e"
proof (cases "resolveProfileState r target p []")
  case (Inl e)
  then show ?thesis by (simp add: resolveProfile_def)
next
  case (Inr st)
  let ?R = "\<lambda>q p. inherits r target p q"
  have conv: "?R = (inherits r target)\<inverse>\<inverse>" by (simp add: fun_eq_iff)
  have "Wellfounded.accp ?R p" using Inr by (rule resolved_chain_ends)
  moreover have "?R\<^sup>*\<^sup>* q p" using assms(1) unfolding conv by (simp add: rtranclp_conversep)
  ultimately have "Wellfounded.accp ?R q" by (rule accp_downwards)
  then have "\<not> ?R\<^sup>+\<^sup>+ q q" by (rule accp_no_cycle)
  then show ?thesis using assms(2) unfolding conv by (simp add: tranclp_converse)
qed


section \<open>Resolved snapshots\<close>

text \<open>C28: Every resolved profile is bounded whatever its layers say: 1 to 128 steps and 1 to 1024 tool
  calls, at most 256 capabilities listed once each in order, at most 512 fragments in section,
  priority and id order, a system prompt of at most 1 MiB, and a well-formed model selection.\<close>
theorem resolved_profile_bounded:
  assumes "resolveProfile r now owner target profileID = Inr s"
  shows "1 \<le> as_maxSteps s \<and> as_maxSteps s \<le> 128 \<and> 1 \<le> as_maxToolCalls s \<and> as_maxToolCalls s \<le> 1024
    \<and> sorted (as_capabilities s) \<and> distinct (as_capabilities s) \<and> length (as_capabilities s) \<le> 256
    \<and> sorted (map fragment_key (as_fragments s)) \<and> length (as_fragments s) \<le> 512
    \<and> length (systemPrompt s) \<le> 1048576 \<and> validateModelSelection (as_model s)"
proof -
  from assms obtain st where st: "resolveProfileState r target profileID [] = Inr st"
    and s: "s = (assembleProfile now target profileID st)\<lparr> as_id := profileDigest (assembleProfile now target profileID st) \<rparr>"
    and lim: "length (as_capabilities (assembleProfile now target profileID st)) \<le> MaxProfileCapabilities"
      "length (as_fragments (assembleProfile now target profileID st)) \<le> MaxProfileFragments"
      "length (systemPrompt (assembleProfile now target profileID st)) \<le> MaxSystemPromptBytes"
    unfolding resolveProfile_def by (auto simp: Let_def split: if_splits)
  have prompt: "systemPrompt s = systemPrompt (assembleProfile now target profileID st)"
    by (simp add: s systemPrompt_def)
  have "distinct (map fst (filter snd (ps_capabilities st)))"
    using resolveProfileState_limits[OF st] by (simp add: profile_limits_ok_def distinct_map_filter)
  then show ?thesis
    using lim resolveProfileState_limits[OF st] unfolding prompt
    by (simp add: s assembleProfile_def profile_limits_ok_def MaxProfileCapabilities_def MaxProfileFragments_def
        MaxSystemPromptBytes_def HardMaxSteps_def HardMaxToolCalls_def)
qed

section \<open>Replacement\<close>

lemma cloneProfileRegistry_id: "profile_registry_ok r \<Longrightarrow> cloneProfileRegistry r = r"
proof -
  assume ok: "profile_registry_ok r"
  have flat: "map (\<lambda>(l, ord). (cloneProfileLayer l, ord)) xs = xs" if "set xs \<subseteq> set (pg_flat r)" for xs
    using that ok by (intro map_idI) (fastforce simp: profile_registry_ok_def intro!: cloneProfileLayer_id)
  have "set ls \<subseteq> set (pg_flat r)" if "(k, ls) \<in> set (pg_layers r)" for k ls
  proof -
    have "pg_view r k = ls" using that ok by (simp add: mget_def profile_registry_ok_def)
    then show ?thesis using ok by (auto simp: profile_registry_ok_def)
  qed
  then have "map (\<lambda>(k, ls). (k, map (\<lambda>(l, ord). (cloneProfileLayer l, ord)) ls)) (pg_layers r) = pg_layers r"
    by (intro map_idI) (auto simp: flat)
  then show ?thesis by (simp add: cloneProfileRegistry_def flat)
qed

lemma profileLayerEqual_key: "profileLayerEqual a b \<Longrightarrow> layer_key a = layer_key b"
  by (simp add: profileLayerEqual_def)

lemma filter_swap_order:
  assumes "\<forall>s \<in> set xs. snd s = ord \<longrightarrow> P s \<longleftrightarrow> P y"
  shows "filter P (swap_order ord y xs) = swap_order ord y (filter P xs)"
  using assms by (induction xs) (auto simp: swap_order_def)

lemma map_snd_swap_order: "snd y = ord \<Longrightarrow> map snd (swap_order ord y xs) = map snd xs"
  by (induction xs) (auto simp: swap_order_def)

lemma length_swap_order [simp]: "length (swap_order ord y xs) = length xs"
  by (simp add: swap_order_def)

lemma set_swap_order: "set (swap_order ord y xs) \<subseteq> insert y (set xs)"
  by (auto simp: swap_order_def)

lemma replaceTarget_only_old:
  assumes "profile_registry_ok r" "replaceTarget r old = Inr (m, f, ord)" "s \<in> set (pg_flat r)" "snd s = ord"
  shows "profileLayerEqual (fst s) old"
proof -
  note t = replaceTarget_eq[OF assms(2)]
  have "pg_view r (layer_key old) ! m \<in> set (pg_view r (layer_key old))" using t(1) by simp
  then have "pg_view r (layer_key old) ! m \<in> set (pg_flat r)"
    using assms(1) by (simp add: profile_registry_ok_def)
  moreover have "inj_on snd (set (pg_flat r))"
    using assms(1) by (simp add: profile_registry_ok_def strict_sorted_iff distinct_map)
  ultimately have "s = pg_view r (layer_key old) ! m" using assms(3,4) t(2) by (auto dest: inj_onD)
  with t(3) show ?thesis by simp
qed

lemma putLayer_ok:
  assumes "profile_registry_ok r" "replaceTarget r old = Inr (m, f, ord)" "layer_key nxt = layer_key old"
  defines "r' \<equiv> putLayer r (layer_key old) m f (cloneProfileLayer nxt, ord)"
  shows "profile_registry_ok r'"
proof -
  let ?y = "(cloneProfileLayer nxt, ord)"
  note flat = putLayer_swap(1)[OF assms(1,2), of ?y, folded r'_def]
    and view = putLayer_swap(2)[OF assms(1,2), of ?y, folded r'_def]
  note old = replaceTarget_only_old[OF assms(1,2), THEN profileLayerEqual_key]
  have f: "f < length (pg_flat r)" "snd (pg_flat r ! f) = ord" using replaceTarget_eq(4,5)[OF assms(2)] .
  have "pg_view r' k = filter (\<lambda>s. layer_key (fst s) = k) (pg_flat r')" for k
  proof (cases "k = layer_key old")
    case True
    have "filter (\<lambda>s. layer_key (fst s) = k) (pg_flat r') = swap_order ord ?y (filter (\<lambda>s. layer_key (fst s) = k) (pg_flat r))"
      unfolding flat by (rule filter_swap_order) (use old assms(3) in auto)
    then show ?thesis using True assms(1) by (simp add: view profile_registry_ok_def)
  next
    case False
    have "filter (\<lambda>s. layer_key (fst s) = k) (pg_flat r') = swap_order ord ?y (filter (\<lambda>s. layer_key (fst s) = k) (pg_flat r))"
      unfolding flat by (rule filter_swap_order) (use old assms(3) in auto)
    also have "\<dots> = filter (\<lambda>s. layer_key (fst s) = k) (pg_flat r)"
      using False old unfolding swap_order_def by (intro map_idI) auto
    finally show ?thesis using False assms(1) by (simp add: view profile_registry_ok_def)
  qed
  moreover have "\<forall>s \<in> set (pg_flat r'). snd s \<le> pg_next r' \<and> gomap_ok (pl2_metadata (fst s))"
  proof
    fix s assume "s \<in> set (pg_flat r')"
    then consider "s = ?y" | "s \<in> set (pg_flat r)" using set_swap_order[of ord ?y "pg_flat r"] by (auto simp: flat)
    moreover have "pg_flat r ! f \<in> set (pg_flat r)" "pg_next r' = pg_next r" using f by (simp_all add: r'_def putLayer_def)
    ultimately show "snd s \<le> pg_next r' \<and> gomap_ok (pl2_metadata (fst s))"
      using assms(1) f(2) by cases (auto simp: profile_registry_ok_def)
  qed
  moreover have "gomap_ok (pg_layers r')" "pg_max r' = pg_max r"
    using assms(1) by (simp_all add: r'_def putLayer_def profile_registry_ok_def)
  ultimately show ?thesis
    using assms(1) by (simp add: profile_registry_ok_def flat map_snd_swap_order)
qed

lemma replaceTarget_consistent:
  assumes "profile_registry_ok r"
  shows "replaceTarget r old \<noteq> Inl ProfileInconsistent"
proof
  assume inc: "replaceTarget r old = Inl ProfileInconsistent"
  let ?ls = "pg_view r (layer_key old)"
  have single: "xs = [f]" if "distinct xs" "set xs = {f}" for xs and f :: nat
    using that by (cases xs) (auto simp: subset_singleton_iff)
  from inc obtain m where m: "filter (\<lambda>i. profileLayerEqual (fst (?ls ! i)) old) [0..<length ?ls] = [m]"
    by (auto simp: replaceTarget_def Let_def split: list.splits)
  then have m': "m < length ?ls" "profileLayerEqual (fst (?ls ! m)) old" by (auto dest: filter_unique_index)
  then have "?ls ! m \<in> set (pg_flat r)"
    using assms nth_mem[OF m'(1)] by (simp add: profile_registry_ok_def)
  then obtain f where f: "f < length (pg_flat r)" "pg_flat r ! f = ?ls ! m" by (auto simp: in_set_conv_nth)
  have "distinct (map snd (pg_flat r))" using assms by (simp add: profile_registry_ok_def strict_sorted_iff)
  then have "snd (pg_flat r ! i) = snd (?ls ! m) \<Longrightarrow> i < length (pg_flat r) \<Longrightarrow> i = f" for i
    using f nth_eq_iff_index_eq[of "map snd (pg_flat r)" i f] by simp
  with f have "filter (\<lambda>i. snd (pg_flat r ! i) = snd (?ls ! m)) [0..<length (pg_flat r)] = [f]"
    by (intro single) auto
  with inc m m'(2) f(2) show False by (simp add: replaceTarget_def Let_def)
qed

lemma replaceExact_eq:
  assumes "profile_registry_ok r" "validateProfileLayer old = None" "validateProfileLayer nxt = None"
    "pl2_profileID old = pl2_profileID nxt" "pl2_scope old = pl2_scope nxt" "replaceTarget r old = Inr (m, f, ord)"
  defines "r' \<equiv> putLayer r (layer_key old) m f (cloneProfileLayer nxt, ord)"
  shows "replaceExact r now old nxt
      = (case resolveProfile r' now (pl2_scope nxt) (pl2_scope nxt) (pl2_profileID nxt) of
           Inl e \<Rightarrow> (Some e, r) | Inr _ \<Rightarrow> (None, r'))"
  unfolding r'_def using assms(1-6) by (simp add: replaceExact_def Let_def cloneProfileRegistry_id split: sum.split)

lemma replaceExact_cases:
  assumes ok: "profile_registry_ok r" and run: "replaceExact r now old nxt = (err, r')"
  obtains (fail) e where "err = Some e" "r' = r"
    | (swap) m f ord where "err = None" "replaceTarget r old = Inr (m, f, ord)" "layer_key nxt = layer_key old"
        "r' = putLayer r (layer_key old) m f (cloneProfileLayer nxt, ord)"
        "is_ok (resolveProfile r' now (pl2_scope nxt) (pl2_scope nxt) (pl2_profileID nxt))"
proof (cases "first_err (validateProfileLayer old) (validateProfileLayer nxt) = None
    \<and> pl2_profileID old = pl2_profileID nxt \<and> pl2_scope old = pl2_scope nxt \<and> is_ok (replaceTarget r old)")
  case False
  have "err \<noteq> None \<and> r' = r"
  proof (cases "first_err (validateProfileLayer old) (validateProfileLayer nxt)")
    case (Some e)
    with run have "(err, r') = (Some e, r)" by (simp add: replaceExact_def)
    then show ?thesis by simp
  next
    case None
    with run False show ?thesis
      by (cases "replaceTarget r old") (auto simp: replaceExact_def split: if_splits)
  qed
  then show ?thesis using fail by blast
next
  case True
  then obtain m f ord where t: "replaceTarget r old = Inr (m, f, ord)" by (auto simp: is_ok_iff)
  let ?r = "putLayer r (layer_key old) m f (cloneProfileLayer nxt, ord)"
  from True have v: "validateProfileLayer old = None" "validateProfileLayer nxt = None"
    "pl2_profileID old = pl2_profileID nxt" "pl2_scope old = pl2_scope nxt" by simp_all
  note eq = replaceExact_eq[OF ok v t, of now]
  show ?thesis
  proof (cases "resolveProfile ?r now (pl2_scope nxt) (pl2_scope nxt) (pl2_profileID nxt)")
    case (Inl e)
    with run eq have "err = Some e" "r' = r" by simp_all
    then show ?thesis by (rule fail)
  next
    case (Inr s)
    with run eq have "err = None" "r' = ?r" by simp_all
    with Inr True show ?thesis by (intro swap[OF _ t]) simp_all
  qed
qed


section \<open>Mounts leave no trace\<close>

lemma layersFor_cong: "pg_view r = pg_view r' \<Longrightarrow> layersFor r = layersFor r'"
  by (auto simp: layersFor_def fun_eq_iff)

lemma resolveProfileState_cong:
  "layersFor r = layersFor r' \<Longrightarrow> resolveProfileState r target p visiting = resolveProfileState r' target p visiting"
proof (induction r target p visiting rule: resolveProfileState.induct)
  case (1 r target p visiting)
  have "resolveProfileState r target q (p # visiting) = resolveProfileState r' target q (p # visiting)"
    if "p \<notin> set visiting" "layersFor r' target p \<noteq> []"
      "commonParent [] (map fst (layersFor r' target p)) = Inr q" "q \<noteq> []" for q
    using "1.IH"[OF that(1) refl] that "1.prems" by simp
  then show ?case
    by (subst (1 2) resolveProfileState.simps) (auto simp: "1.prems" Let_def split: sum.splits)
qed

lemma resolveProfile_cong: "pg_view r = pg_view r' \<Longrightarrow> resolveProfile r = resolveProfile r'"
  by (intro ext) (simp add: resolveProfile_def resolveProfileState_cong[OF layersFor_cong, of r r'])

text \<open>C30: Mounting profile layers and then running their unmount closures, in any order and more than
  once if need be, restores every layer list and every resolution.\<close>
theorem profile_unmount_restores:
  assumes "profile_registry_ok r" "prof.mounts r hs r'" "set hs = set hs'"
  shows "pg_view (fold unmountProfile hs' r') = pg_view r
    \<and> resolveProfile (fold unmountProfile hs' r') = resolveProfile r"
  using prof.unmount_after_mounts[OF assms] resolveProfile_cong[OF prof.unmount_after_mounts[OF assms]] by (rule conjI)

section \<open>Witnesses\<close>

lemma resolveProfile_is_ok:
  "is_ok (resolveProfile r now owner target p) \<longleftrightarrow> isAncestorOf owner target
     \<and> (case resolveProfileState r target p [] of Inl _ \<Rightarrow> False
        | Inr st \<Rightarrow> let s = assembleProfile now target p st in
            length (as_capabilities s) \<le> MaxProfileCapabilities \<and> length (as_fragments s) \<le> MaxProfileFragments
            \<and> length (systemPrompt s) \<le> MaxSystemPromptBytes)"
  by (cases "resolveProfileState r target p []") (simp_all add: resolveProfile_def Let_def not_less)

definition ex_profile :: "string \<Rightarrow> string \<Rightarrow> int \<Rightarrow> profile_layer" where
  "ex_profile p parent steps = \<lparr> pl2_scope = ex_tenant, pl2_profileID = p, pl2_extends = parent, pl2_name = None,
     pl2_description = None, pl2_model = Some \<lparr> ms_provider = ''acme'', ms_model = ''m1'' \<rparr>,
     pl2_maxSteps = Some steps, pl2_maxToolCalls = None, pl2_addCapabilities = [''c.d'', ''a.b''],
     pl2_removeCapabilities = [],
     pl2_putFragments = [\<lparr> pf_id = ''f1'', pf_section = ''goals'', pf_content = ''help'', pf_priority = 0 \<rparr>],
     pl2_removeFragments = [], pl2_metadata = [] \<rparr>"

definition ex_profiles :: profile_registry where
  "ex_profiles = snd (bindProfile (snd (bindProfile newProfileRegistry (ex_profile ''base'' [] 5)))
     (ex_profile ''child'' ''base'' 7))"

definition ex_cycle :: profile_registry where
  "ex_cycle = snd (bindProfile (snd (bindProfile newProfileRegistry (ex_profile ''p'' ''q'' 5))) (ex_profile ''q'' ''p'' 7))"

lemma bindProfile_ok: "profile_registry_ok r \<Longrightarrow> profile_registry_ok (snd (bindProfile r l))"
  by (auto simp: bindProfile_def split: sum.splits intro: profile_registry_ok_mount)

lemma ex_profiles_ok: "profile_registry_ok ex_profiles"
  by (simp add: ex_profiles_def bindProfile_ok profile_registry_ok_new)

theorem resolved_profile_bounded_witness:
  "\<exists>s. resolveProfile ex_profiles 0 ex_tenant ex_tenant ''child'' = Inr s
     \<and> 1 \<le> as_maxSteps s \<and> as_maxSteps s \<le> 128 \<and> sorted (as_capabilities s)"
proof -
  have "is_ok (resolveProfile ex_profiles 0 ex_tenant ex_tenant ''child'')"
    unfolding resolveProfile_is_ok by code_simp
  then obtain s where s: "resolveProfile ex_profiles 0 ex_tenant ex_tenant ''child'' = Inr s"
    by (auto simp: is_ok_iff)
  with resolved_profile_bounded[OF s] show ?thesis by blast
qed

lemma ex_cycle_steps: "inherits ex_cycle ex_tenant ''p'' ''q''" "inherits ex_cycle ex_tenant ''q'' ''p''"
proof -
  have "layersFor ex_cycle ex_tenant ''p'' \<noteq> [] \<and> commonParent [] (map fst (layersFor ex_cycle ex_tenant ''p'')) = Inr ''q''"
    by code_simp
  then show "inherits ex_cycle ex_tenant ''p'' ''q''" by (auto intro: inherits.intros)
  have "layersFor ex_cycle ex_tenant ''q'' \<noteq> [] \<and> commonParent [] (map fst (layersFor ex_cycle ex_tenant ''q'')) = Inr ''p''"
    by code_simp
  then show "inherits ex_cycle ex_tenant ''q'' ''p''" by (auto intro: inherits.intros)
qed

theorem profile_cycle_rejected_witness:
  "\<exists>e. resolveProfile ex_cycle 0 ex_tenant ex_tenant ''p'' = Inl e"
proof (rule profile_cycle_rejected)
  show "(inherits ex_cycle ex_tenant)\<^sup>*\<^sup>* ''p'' ''p''" by (rule rtranclp.rtrancl_refl)
  show "(inherits ex_cycle ex_tenant)\<^sup>+\<^sup>+ ''p'' ''p''" using ex_cycle_steps by (blast intro: tranclp.intros)
qed


theorem profile_unmount_restores_witness:
  "\<exists>h r'. mountProfile ex_profiles (ex_profile ''p'' [] 3) = Inr (h, r')
     \<and> resolveProfile (unmountProfile h r') = resolveProfile ex_profiles"
proof -
  have "is_ok (mountProfile ex_profiles (ex_profile ''p'' [] 3))" by code_simp
  then obtain h r' where m: "mountProfile ex_profiles (ex_profile ''p'' [] 3) = Inr (h, r')" by (auto simp: is_ok_iff)
  then have "prof.mounts ex_profiles [h] r'" by (blast intro: prof.mounts.intros)
  from profile_unmount_restores[OF ex_profiles_ok this refl] m show ?thesis by simp
qed

end
