(* ===== verification/Event_Data.thy ===== *)
theory Event_Data
  imports Profile
begin

text \<open>
  The durable facts of a session (\<open>src/pkg/core/session.go\<close>): the payload of every event type, its
  JSON text (the size limit and the composition digest are computed on it), and what decoding that
  text into the payload's own type gives back.

  A stored payload is a \<^emph>\<open>raw\<close> JSON text. The code only ever decodes it into the one type its
  event type is registered with, so a raw payload is modelled by its length and the outcome of that
  decoding (\<open>None\<close> for a decoding error). A payload encoded from a Go value decodes to the value
  with ill-formed strings repaired, numbers of dynamic values as float64 and empty optional members
  absent; it fails to decode when it is nested too deeply or carries a scope that does not parse.
\<close>

section \<open>Payloads\<close>

(* src/pkg/core/session.go:59-67 RunStatus *)
type_synonym run_status = string

definition RunCompleted :: run_status where "RunCompleted = ''completed''"
definition RunLimited :: run_status where "RunLimited = ''limited''"
definition RunFailed :: run_status where "RunFailed = ''failed''"
definition RunCancelled :: run_status where "RunCancelled = ''cancelled''"
definition RunWaitingApproval :: run_status where "RunWaitingApproval = ''waiting_approval''"

lemmas run_status_defs = RunCompleted_def RunLimited_def RunFailed_def RunCancelled_def RunWaitingApproval_def

(* src/pkg/core/session.go:70-80 RunCompositionData *)
record run_composition =
  rc_profile :: profile_snapshot
  rc_capabilities :: "snapshot_capability list"
  rc_permissions :: permission_set
  rc_model :: model_selection
  rc_resolvedProvider :: string
  rc_modelRevision :: string
  rc_maxSteps :: int
  rc_maxToolCalls :: int
  rc_metadata :: "(string, string) gomap"

text \<open>\<open>RunStartData\<close> and \<open>RunResumeData\<close> have the same fields.\<close>

(* src/pkg/core/session.go:82-96 RunStartData *)
record run_start_data =
  sd_profileSnapshotID :: string
  sd_capabilitySnapshotID :: string
  sd_compositionRevision :: string
  sd_assignmentRevision :: string
  sd_composition :: "run_composition option"

(* src/pkg/core/session.go:107-111 RuntimeErrorData *)
record runtime_error_data =
  re_code :: string
  re_message :: string
  re_retryable :: bool

(* src/pkg/core/session.go:137-141 AssistantMessageData *)
record assistant_message_data =
  am_text :: string
  am_toolCall :: "tool_call option"
  am_toolCalls :: "tool_call list"

(* src/pkg/core/session.go:149-153 RunUsageData *)
record run_usage_data =
  ru_input :: int
  ru_output :: int
  ru_invocationID :: string

(* src/pkg/core/session.go:155-160 ContextSummaryData *)
record context_summary_data =
  cs_op :: string
  cs_start :: int
  cs_end :: int
  cs_summary :: string

(* src/pkg/core/session.go:162-166 ToolCallData *)
record tool_call_data =
  td_callID :: string
  td_name :: string
  td_args :: "json_object option"

(* src/pkg/core/session.go:168-173 ToolResultData *)
record tool_result_data =
  tr_callID :: string
  tr_content :: string
  tr_ok :: bool
  tr_metadata :: "json_object option"

(* src/pkg/core/session.go:175-183 ApprovalRequestedData *)
record approval_requested_data =
  aq_approvalID :: string
  aq_toolCall :: tool_call
  aq_resumeCall :: tool_call
  aq_remainingCalls :: "tool_call list"
  aq_step :: int
  aq_fast :: bool
  aq_expiresAt :: gotime

(* src/pkg/core/hooks.go:89-96 ApprovalDecision *)
type_synonym approval_decision = string

definition ApprovalApproved :: approval_decision where "ApprovalApproved = ''approved''"
definition ApprovalDenied :: approval_decision where "ApprovalDenied = ''denied''"
definition ApprovalPending :: approval_decision where "ApprovalPending = ''pending''"
definition ApprovalExpired :: approval_decision where "ApprovalExpired = ''expired''"

lemmas approval_decision_defs =
  ApprovalApproved_def ApprovalDenied_def ApprovalPending_def ApprovalExpired_def

(* src/pkg/core/session.go:185-191 ApprovalResolvedData *)
record approval_resolved_data =
  av_approvalID :: string
  av_callID :: string
  av_decision :: approval_decision
  av_resolvedAt :: gotime
  av_resolvedBy :: string

text \<open>\<open>EvOther\<close> is any type string that is not one of the sixteen constants.\<close>

(* src/pkg/core/session.go:37-56 SessionEventType *)
datatype event_type =
    EvRunStart | EvRunResume | EvRunEnd | EvRunError | EvRunUsage | EvStepStart | EvStepEnd | EvStepError
  | EvUserMessage | EvAssistantMessage | EvAssistantChunk | EvToolCall | EvToolResult
  | EvApprovalRequested | EvApprovalResolved | EvContextSummary | EvOther string

text \<open>
  One constructor per registered event type, carrying that type's payload; \<open>RunEndData\<close>,
  \<open>StepData\<close>, \<open>UserMessageData\<close> and \<open>AssistantChunkData\<close> have a single field.
\<close>

(* src/pkg/core/session.go:793-799 sessionEventValidators *)
datatype event_data =
    DRunStart run_start_data | DRunResume run_start_data | DRunEnd run_status
  | DRunError runtime_error_data | DRunUsage run_usage_data
  | DStepStart int | DStepEnd int | DStepError runtime_error_data
  | DUserMessage string | DAssistantMessage assistant_message_data | DAssistantChunk string
  | DToolCall tool_call_data | DToolResult tool_result_data
  | DApprovalRequested approval_requested_data | DApprovalResolved approval_resolved_data
  | DContextSummary context_summary_data

fun kind_of :: "event_data \<Rightarrow> event_type" where
  "kind_of (DRunStart _) = EvRunStart"
| "kind_of (DRunResume _) = EvRunResume"
| "kind_of (DRunEnd _) = EvRunEnd"
| "kind_of (DRunError _) = EvRunError"
| "kind_of (DRunUsage _) = EvRunUsage"
| "kind_of (DStepStart _) = EvStepStart"
| "kind_of (DStepEnd _) = EvStepEnd"
| "kind_of (DStepError _) = EvStepError"
| "kind_of (DUserMessage _) = EvUserMessage"
| "kind_of (DAssistantMessage _) = EvAssistantMessage"
| "kind_of (DAssistantChunk _) = EvAssistantChunk"
| "kind_of (DToolCall _) = EvToolCall"
| "kind_of (DToolResult _) = EvToolResult"
| "kind_of (DApprovalRequested _) = EvApprovalRequested"
| "kind_of (DApprovalResolved _) = EvApprovalResolved"
| "kind_of (DContextSummary _) = EvContextSummary"

record raw_payload =
  raw_len :: nat
  raw_val :: "event_data option"

definition nilRaw :: raw_payload where
  "nilRaw = \<lparr> raw_len = 0, raw_val = None \<rparr>"

(* src/pkg/core/session.go:193-199 SessionEvent *)
record session_event =
  ev_seq :: int
  ev_time :: gotime
  ev_runID :: string
  ev_type :: event_type
  ev_data :: raw_payload

section \<open>Text\<close>

definition json_calls :: "tool_call list \<Rightarrow> (tool_call \<Rightarrow> string option) \<Rightarrow> string option" where
  "json_calls cs f = map_option json_array_text (seq_opt (map f cs))"

(* src/pkg/core/types.go:156-164 ToolCall *)
definition json_tool_call :: "tool_call \<Rightarrow> string option" where
  "json_tool_call c = json_record
     [field ''id'' (Some (json_string (tc_id c))), field ''name'' (Some (json_string (tc_name c))),
      schema_field ''args'' (tc_args c), string_field ''continuation'' (tc_continuation c)]"

text \<open>\<open>time.Time\<close> encodes only years 0 to 9999.\<close>

definition json_time :: "gotime \<Rightarrow> string option" where
  "json_time t =
     (let (y, _, _) = civil_date (t div 1000000000 div 86400)
      in if 0 \<le> y \<and> y \<le> 9999 then Some (json_string (rfc3339 t)) else None)"

text \<open>
  The profile of a composition went through \<open>cloneRunCompositionData\<close>, which turns empty slices
  into nil slices, encoded as null.
\<close>

definition json_list :: "string list \<Rightarrow> string" where
  "json_list xs = (if xs = [] then ''null'' else json_array_text xs)"

definition json_composition_profile :: "profile_snapshot \<Rightarrow> string option" where
  "json_composition_profile s = json_record
     [field ''id'' (Some (json_string (as_id s))),
      field ''profile_id'' (Some (json_string (as_profileID s))),
      field ''created_at'' (json_time (as_createdAt s)),
      field ''scope'' (json_scope (as_scope s)),
      field ''name'' (Some (json_string (as_name s))),
      string_field ''description'' (as_description s),
      field ''model'' (Some (json_model (as_model s))),
      field ''max_steps'' (Some (int_str (as_maxSteps s))),
      int_field ''max_tool_calls'' (as_maxToolCalls s),
      field ''capabilities'' (Some (json_list (map json_string (as_capabilities s)))),
      field ''fragments'' (map_option json_list (seq_opt (map json_fragment (as_fragments s)))),
      omit_if (as_metadata s = []) (field ''metadata'' (json_string_map (as_metadata s)))]"

(* src/pkg/core/session.go:70-80 RunCompositionData *)
definition json_composition :: "run_composition \<Rightarrow> string option" where
  "json_composition c = json_record
     [field ''profile'' (json_composition_profile (rc_profile c)),
      field ''capabilities'' (map_option json_array_text (seq_opt (map json_snapshot_capability (rc_capabilities c)))),
      omit_if (rc_permissions c = []) (field ''effective_permissions''
        (Some (json_map_text (map (\<lambda>(p, b). (p, if b then ''true'' else ''false'')) (rc_permissions c))))),
      field ''model'' (Some (json_model (rc_model c))),
      string_field ''resolved_provider'' (rc_resolvedProvider c),
      string_field ''model_revision'' (rc_modelRevision c),
      field ''max_steps'' (Some (int_str (rc_maxSteps c))),
      field ''max_tool_calls'' (Some (int_str (rc_maxToolCalls c))),
      omit_if (rc_metadata c = []) (field ''metadata'' (json_string_map (rc_metadata c)))]"

definition json_run_start :: "run_start_data \<Rightarrow> string option" where
  "json_run_start d = json_record
     [string_field ''profile_snapshot_id'' (sd_profileSnapshotID d),
      string_field ''capability_snapshot_id'' (sd_capabilitySnapshotID d),
      string_field ''composition_revision'' (sd_compositionRevision d),
      string_field ''assignment_revision'' (sd_assignmentRevision d),
      (case sd_composition d of None \<Rightarrow> [] | Some c \<Rightarrow> field ''composition'' (json_composition c))]"

definition json_runtime_error :: "runtime_error_data \<Rightarrow> string option" where
  "json_runtime_error d = json_record
     [field ''code'' (Some (json_string (re_code d))), field ''message'' (Some (json_string (re_message d))),
      field ''retryable'' (json_bool (re_retryable d))]"

text \<open>\<open>json.Marshal\<close> on each payload type; the field names and omissions are those of the struct tags.\<close>

(* src/pkg/core/session.go:82-191 RunStartData *)
fun json_event :: "event_data \<Rightarrow> string option" where
  "json_event (DRunStart d) = json_run_start d"
| "json_event (DRunResume d) = json_run_start d"
| "json_event (DRunEnd s) = json_record [field ''status'' (Some (json_string s))]"
| "json_event (DRunError d) = json_runtime_error d"
| "json_event (DStepError d) = json_runtime_error d"
| "json_event (DRunUsage d) = json_record
     [field ''input_tokens'' (Some (int_str (ru_input d))), field ''output_tokens'' (Some (int_str (ru_output d))),
      string_field ''invocation_id'' (ru_invocationID d)]"
| "json_event (DStepStart n) = json_record [field ''index'' (Some (int_str n))]"
| "json_event (DStepEnd n) = json_record [field ''index'' (Some (int_str n))]"
| "json_event (DUserMessage s) = json_record [field ''text'' (Some (json_string s))]"
| "json_event (DAssistantChunk s) = json_record [field ''text'' (Some (json_string s))]"
| "json_event (DAssistantMessage d) = json_record
     [field ''text'' (Some (json_string (am_text d))),
      (case am_toolCall d of None \<Rightarrow> [] | Some c \<Rightarrow> field ''tool_call'' (json_tool_call c)),
      omit_if (am_toolCalls d = []) (field ''tool_calls'' (json_calls (am_toolCalls d) json_tool_call))]"
| "json_event (DToolCall d) = json_record
     [field ''call_id'' (Some (json_string (td_callID d))), field ''name'' (Some (json_string (td_name d))),
      schema_field ''args'' (td_args d)]"
| "json_event (DToolResult d) = json_record
     [field ''call_id'' (Some (json_string (tr_callID d))), field ''content'' (Some (json_string (tr_content d))),
      field ''ok'' (json_bool (tr_ok d)), schema_field ''metadata'' (tr_metadata d)]"
| "json_event (DApprovalRequested d) = json_record
     [field ''approval_id'' (Some (json_string (aq_approvalID d))),
      field ''tool_call'' (json_tool_call (aq_toolCall d)),
      field ''resume_call'' (json_tool_call (aq_resumeCall d)),
      omit_if (aq_remainingCalls d = []) (field ''remaining_calls'' (json_calls (aq_remainingCalls d) json_tool_call)),
      field ''step'' (Some (int_str (aq_step d))),
      flag_field ''fast'' (aq_fast d),
      field ''expires_at'' (json_time (aq_expiresAt d))]"
| "json_event (DApprovalResolved d) = json_record
     [field ''approval_id'' (Some (json_string (av_approvalID d))), field ''call_id'' (Some (json_string (av_callID d))),
      field ''decision'' (Some (json_string (av_decision d))),
      field ''resolved_at'' (json_time (av_resolvedAt d)),
      string_field ''resolved_by'' (av_resolvedBy d)]"
| "json_event (DContextSummary d) = json_record
     [field ''op'' (Some (json_string (cs_op d))), field ''start'' (Some (int_str (cs_start d))),
      field ''end'' (Some (int_str (cs_end d))), field ''summary'' (Some (json_string (cs_summary d)))]"

section \<open>Decoding what was encoded\<close>

abbreviation utf8 :: "string \<Rightarrow> string" where
  "utf8 \<equiv> to_valid_utf8"

definition norm_string_map :: "(string, string) gomap \<Rightarrow> (string, string) gomap" where
  "norm_string_map m = fold (\<lambda>(k, v). mput (utf8 k) (utf8 v)) (sort_key fst m) []"

text \<open>A dynamic map inside \<open>d\<close> enclosing objects and arrays; an empty one is not encoded at all.\<close>

definition norm_object :: "nat \<Rightarrow> json_object option \<Rightarrow> json_object option option" where
  "norm_object d m =
     (case m of
        None \<Rightarrow> Some None
      | Some fs \<Rightarrow>
          if fs = [] then Some None
          else if d + json_depth (JObj fs) > max_decode_depth then None
          else (case json_norm (JObj fs) of Some (JObj gs) \<Rightarrow> Some (Some gs) | _ \<Rightarrow> None))"

definition norm_call :: "nat \<Rightarrow> tool_call \<Rightarrow> tool_call option" where
  "norm_call d c = map_option
     (\<lambda>args. \<lparr> tc_id = utf8 (tc_id c), tc_name = utf8 (tc_name c), tc_args = args, tc_continuation = utf8 (tc_continuation c) \<rparr>)
     (norm_object (d + 1) (tc_args c))"

fun norm_some :: "('a \<Rightarrow> 'b option) \<Rightarrow> 'a option \<Rightarrow> 'b option option" where
  "norm_some f None = Some None"
| "norm_some f (Some x) = map_option Some (f x)"

definition norm_scope :: "scope_path \<Rightarrow> scope_path option" where
  "norm_scope p = (case newScopePath (map (\<lambda>s. \<lparr> sr_kind = utf8 (sr_kind s), sr_id = utf8 (sr_id s) \<rparr>) p) of
     Inl _ \<Rightarrow> None | Inr q \<Rightarrow> Some q)"

definition norm_model :: "model_selection \<Rightarrow> model_selection" where
  "norm_model m = \<lparr> ms_provider = utf8 (ms_provider m), ms_model = utf8 (ms_model m) \<rparr>"

definition norm_fragment :: "resolved_fragment \<Rightarrow> resolved_fragment option" where
  "norm_fragment f = map_option
     (\<lambda>p. \<lparr> rf_fragment = \<lparr> pf_id = utf8 (pf_id (rf_fragment f)), pf_section = utf8 (pf_section (rf_fragment f)),
              pf_content = utf8 (pf_content (rf_fragment f)), pf_priority = pf_priority (rf_fragment f) \<rparr>,
            rf_source = p \<rparr>)
     (norm_scope (rf_source f))"

definition norm_profile :: "profile_snapshot \<Rightarrow> profile_snapshot option" where
  "norm_profile s =
     (case (norm_scope (as_scope s), seq_opt (map norm_fragment (as_fragments s))) of
        (Some scope, Some fragments) \<Rightarrow>
          Some (s\<lparr> as_id := utf8 (as_id s), as_profileID := utf8 (as_profileID s), as_scope := scope,
                   as_name := utf8 (as_name s), as_description := utf8 (as_description s), as_model := norm_model (as_model s),
                   as_capabilities := map utf8 (as_capabilities s), as_fragments := fragments,
                   as_metadata := norm_string_map (as_metadata s) \<rparr>)
      | _ \<Rightarrow> None)"

definition norm_tool :: "nat \<Rightarrow> tool_exposure \<Rightarrow> tool_exposure option" where
  "norm_tool d t = map_option (\<lambda>p. \<lparr> te_description = utf8 (te_description t), te_parameters = p \<rparr>)
     (norm_object (d + 1) (te_parameters t))"

definition norm_execution :: "execution_spec \<Rightarrow> execution_spec" where
  "norm_execution e = \<lparr> ex_runtime = utf8 (ex_runtime e), ex_entrypoint = utf8 (ex_entrypoint e),
     ex_workdir = utf8 (ex_workdir e), ex_sandbox = utf8 (ex_sandbox e), ex_writes = ex_writes e,
     ex_method = utf8 (ex_method e), ex_headers = norm_string_map (ex_headers e) \<rparr>"

definition norm_manifest :: "nat \<Rightarrow> capability_manifest \<Rightarrow> capability_manifest option" where
  "norm_manifest d m =
     (case (norm_object (d + 1) (cm_inputSchema m), norm_object (d + 1) (cm_outputSchema m),
            norm_some (norm_tool (d + 1)) (cm_tool m)) of
        (Some input, Some output, Some tool) \<Rightarrow>
          Some (m\<lparr> cm_id := utf8 (cm_id m), cm_version := utf8 (cm_version m), cm_name := utf8 (cm_name m),
                   cm_description := utf8 (cm_description m), cm_kind := utf8 (cm_kind m), cm_contract := utf8 (cm_contract m),
                   cm_requiredPermissions := map utf8 (cm_requiredPermissions m),
                   cm_requiredCredentials := map utf8 (cm_requiredCredentials m),
                   cm_inputSchema := input, cm_outputSchema := output, cm_tool := tool,
                   cm_execution := map_option norm_execution (cm_execution m),
                   cm_metadata := norm_string_map (cm_metadata m) \<rparr>)
      | _ \<Rightarrow> None)"

definition norm_snapshot_capability :: "nat \<Rightarrow> snapshot_capability \<Rightarrow> snapshot_capability option" where
  "norm_snapshot_capability d c =
     (case (norm_manifest (d + 1) (sc_manifest c), norm_scope (sc_source c)) of
        (Some m, Some p) \<Rightarrow> Some \<lparr> sc_manifest = m, sc_source = p, sc_revision = utf8 (sc_revision c) \<rparr>
      | _ \<Rightarrow> None)"

definition norm_composition :: "run_composition \<Rightarrow> run_composition option" where
  "norm_composition c =
     (case (norm_profile (rc_profile c), seq_opt (map (norm_snapshot_capability 3) (rc_capabilities c))) of
        (Some profile, Some capabilities) \<Rightarrow>
          Some \<lparr> rc_profile = profile, rc_capabilities = capabilities,
            rc_permissions = fold (\<lambda>(p, b). mput (utf8 p) b) (sort_key fst (rc_permissions c)) [],
            rc_model = norm_model (rc_model c), rc_resolvedProvider = utf8 (rc_resolvedProvider c),
            rc_modelRevision = utf8 (rc_modelRevision c), rc_maxSteps = rc_maxSteps c,
            rc_maxToolCalls = rc_maxToolCalls c, rc_metadata = norm_string_map (rc_metadata c) \<rparr>
      | _ \<Rightarrow> None)"

definition norm_run_start :: "run_start_data \<Rightarrow> run_start_data option" where
  "norm_run_start d = map_option
     (\<lambda>c. \<lparr> sd_profileSnapshotID = utf8 (sd_profileSnapshotID d), sd_capabilitySnapshotID = utf8 (sd_capabilitySnapshotID d),
            sd_compositionRevision = utf8 (sd_compositionRevision d), sd_assignmentRevision = utf8 (sd_assignmentRevision d),
            sd_composition = c \<rparr>)
     (norm_some norm_composition (sd_composition d))"

definition norm_runtime_error :: "runtime_error_data \<Rightarrow> runtime_error_data" where
  "norm_runtime_error d = \<lparr> re_code = utf8 (re_code d), re_message = utf8 (re_message d), re_retryable = re_retryable d \<rparr>"

fun norm_event :: "event_data \<Rightarrow> event_data option" where
  "norm_event (DRunStart d) = map_option DRunStart (norm_run_start d)"
| "norm_event (DRunResume d) = map_option DRunResume (norm_run_start d)"
| "norm_event (DRunEnd s) = Some (DRunEnd (utf8 s))"
| "norm_event (DRunError d) = Some (DRunError (norm_runtime_error d))"
| "norm_event (DStepError d) = Some (DStepError (norm_runtime_error d))"
| "norm_event (DRunUsage d) = Some (DRunUsage (d\<lparr> ru_invocationID := utf8 (ru_invocationID d) \<rparr>))"
| "norm_event (DStepStart n) = Some (DStepStart n)"
| "norm_event (DStepEnd n) = Some (DStepEnd n)"
| "norm_event (DUserMessage s) = Some (DUserMessage (utf8 s))"
| "norm_event (DAssistantChunk s) = Some (DAssistantChunk (utf8 s))"
| "norm_event (DAssistantMessage d) =
     (case (norm_some (norm_call 1) (am_toolCall d), seq_opt (map (norm_call 2) (am_toolCalls d))) of
        (Some c, Some cs) \<Rightarrow> Some (DAssistantMessage \<lparr> am_text = utf8 (am_text d), am_toolCall = c, am_toolCalls = cs \<rparr>)
      | _ \<Rightarrow> None)"
| "norm_event (DToolCall d) = map_option
     (\<lambda>args. DToolCall \<lparr> td_callID = utf8 (td_callID d), td_name = utf8 (td_name d), td_args = args \<rparr>)
     (norm_object 1 (td_args d))"
| "norm_event (DToolResult d) = map_option
     (\<lambda>m. DToolResult \<lparr> tr_callID = utf8 (tr_callID d), tr_content = utf8 (tr_content d), tr_ok = tr_ok d, tr_metadata = m \<rparr>)
     (norm_object 1 (tr_metadata d))"
| "norm_event (DApprovalRequested d) =
     (case (norm_call 1 (aq_toolCall d), norm_call 1 (aq_resumeCall d), seq_opt (map (norm_call 2) (aq_remainingCalls d))) of
        (Some c, Some r, Some cs) \<Rightarrow>
          Some (DApprovalRequested (d\<lparr> aq_approvalID := utf8 (aq_approvalID d), aq_toolCall := c, aq_resumeCall := r, aq_remainingCalls := cs \<rparr>))
      | _ \<Rightarrow> None)"
| "norm_event (DApprovalResolved d) = Some (DApprovalResolved (d\<lparr> av_approvalID := utf8 (av_approvalID d),
     av_callID := utf8 (av_callID d), av_decision := utf8 (av_decision d), av_resolvedBy := utf8 (av_resolvedBy d) \<rparr>))"
| "norm_event (DContextSummary d) = Some (DContextSummary (d\<lparr> cs_op := utf8 (cs_op d), cs_summary := utf8 (cs_summary d) \<rparr>))"

text \<open>\<open>json.Marshal\<close> of a payload, as the raw text it produces.\<close>

definition encode_event :: "event_data \<Rightarrow> raw_payload option" where
  "encode_event d = map_option (\<lambda>text. \<lparr> raw_len = length text, raw_val = norm_event d \<rparr>) (json_event d)"

lemma norm_event_kind: "norm_event d = Some d' \<Longrightarrow> kind_of d' = kind_of d"
  by (cases d) (auto split: option.splits)

lemma json_record_nonempty: "json_record fs = Some t \<Longrightarrow> t \<noteq> []"
  by (auto simp: json_record_def json_struct_def)

lemma encode_event_nonempty: "encode_event d = Some raw \<Longrightarrow> raw_len raw \<noteq> 0"
  by (cases d) (auto simp: encode_event_def json_run_start_def json_runtime_error_def dest!: json_record_nonempty)

end
