(* ===== verification/Event_Validation.thy ===== *)
theory Event_Validation
  imports Event_Data
begin

text \<open>
  The checks every session event passes before it is stored (\<open>src/pkg/core/session.go\<close>): one
  validator per payload type, run composition evidence with its SHA-256 revisions, and the check of a
  raw event as it comes back from storage.
\<close>

section \<open>Limits and errors\<close>

(* src/pkg/core/session.go:19-19 MaxSessionEventDataBytes *)
definition MaxSessionEventDataBytes :: nat where "MaxSessionEventDataBytes = 16777216"

(* src/pkg/core/session.go:25-25 MaxRuntimeErrorMessageBytes *)
definition MaxRuntimeErrorMessageBytes :: nat where "MaxRuntimeErrorMessageBytes = 16384"

(* src/pkg/core/session.go:27-27 maxRunUsageInvocationIDBytes *)
definition maxRunUsageInvocationIDBytes :: nat where "maxRunUsageInvocationIDBytes = 96"

(* src/pkg/core/session.go:29-34 MaxRunCompositionMetadataItems *)
definition composition_metadata_limits :: "nat \<times> nat \<times> nat \<times> nat" where
  "composition_metadata_limits = (32, 128, 1024, 16384)"

(* src/pkg/core/llm.go:20-20 MaxReportedTokensPerCall *)
definition MaxReportedTokensPerCall :: int where "MaxReportedTokensPerCall = 1000000000000"

datatype composition_error =
    CompositionTooManyItems | CompositionBadKey | CompositionBadValue | CompositionTooLarge
  | CompositionRevisionMalformed | AssignmentRevisionMalformed | RevisionWithoutComposition
  | CompositionNotEncodable | CompositionRevisionMismatch | AssignmentRevisionMismatch

datatype payload_error =
    BadComposition composition_error | RunStatusInvalid | ErrorIncomplete
  | UsageNegative | UsageInvocationInvalid | UsageOverLimit | StepInvalid | ChunkEmpty
  | CallInvalid | CallMismatch | CallRepeated | MessageEmpty | CallIDInvalid | ResultMetadataInvalid | SummaryInvalid
  | ApprovalIDInvalid | ApprovalStepInvalid | ApprovalTimeZero | ApprovalDecisionInvalid

datatype event_error =
    RunIDInvalid | PayloadNotEncodable | PayloadTooLarge | PayloadMissing | PayloadUndecodable
  | EventTypeUnknown | PayloadRejected payload_error

definition reject_if :: "bool \<Rightarrow> 'e \<Rightarrow> 'e option" where
  "reject_if b e = (if b then Some e else None)"

(* src/pkg/core/session.go:121-126 boundedText *)
definition boundedText :: "string \<Rightarrow> nat \<Rightarrow> string" where
  "boundedText v limit = (if limit = 0 \<or> length v \<le> limit then v else take limit v @ ''...[truncated]'')"

(* src/pkg/core/session.go:113-119 NewRuntimeErrorData *)
definition newRuntimeErrorData :: "string \<Rightarrow> string option \<Rightarrow> bool \<Rightarrow> runtime_error_data" where
  "newRuntimeErrorData code cause retryable =
     \<lparr> re_code = code,
       re_message = (case cause of None \<Rightarrow> ''unknown runtime error'' | Some m \<Rightarrow> boundedText m MaxRuntimeErrorMessageBytes),
       re_retryable = retryable \<rparr>"

section \<open>Compositions\<close>

(* src/pkg/core/session.go:842-862 ValidateRunCompositionMetadata *)
definition validateRunCompositionMetadata :: "(string, string) gomap \<Rightarrow> composition_error option" where
  "validateRunCompositionMetadata m =
     (case composition_metadata_limits of (items, keyBytes, valueBytes, limit) \<Rightarrow>
        if length m > items then Some CompositionTooManyItems
        else first_err
          (check_all (\<lambda>(k, v).
             if blank k \<or> length k > keyBytes \<or> containsControl k then Some CompositionBadKey
             else if length v > valueBytes \<or> containsControl v then Some CompositionBadValue
             else None) m)
          (case json_string_map m of
             None \<Rightarrow> Some CompositionNotEncodable
           | Some encoded \<Rightarrow> reject_if (length encoded > limit) CompositionTooLarge))"

(* src/pkg/core/session.go:865-878 CompositionMetadataRevision *)
definition compositionMetadataRevision :: "(string, string) gomap \<Rightarrow> composition_error + string" where
  "compositionMetadataRevision m =
     (if m = [] then Inr []
      else case validateRunCompositionMetadata m of
             Some e \<Rightarrow> Inl e
           | None \<Rightarrow> (case json_string_map m of
                       None \<Rightarrow> Inl CompositionNotEncodable
                     | Some encoded \<Rightarrow> Inr (sha256_hex encoded)))"

(* src/pkg/core/session.go:967-976 cloneRunCompositionMetadata *)
definition cloneRunCompositionMetadata :: "(string, string) gomap \<Rightarrow> (string, string) gomap" where
  "cloneRunCompositionMetadata m = fold (\<lambda>(k, v). mput k v) m []"

(* src/pkg/core/agent.go:458-478 cloneRunCompositionData *)
definition cloneRunCompositionData :: "run_composition \<Rightarrow> run_composition" where
  "cloneRunCompositionData c = c\<lparr>
     rc_profile := (rc_profile c)\<lparr> as_metadata := cloneRunCompositionMetadata (as_metadata (rc_profile c)) \<rparr>,
     rc_capabilities := map (\<lambda>s. s\<lparr> sc_manifest := cloneManifest (sc_manifest s) \<rparr>) (rc_capabilities c),
     rc_permissions := clonePermissions (rc_permissions c),
     rc_metadata := cloneRunCompositionMetadata (rc_metadata c) \<rparr>"

(* src/pkg/core/session.go:881-896 CompositionRevision *)
definition compositionRevision :: "run_composition option \<Rightarrow> composition_error + string" where
  "compositionRevision composition =
     (case composition of
        None \<Rightarrow> Inr []
      | Some c \<Rightarrow>
          (case validateRunCompositionMetadata (rc_metadata c) of
             Some e \<Rightarrow> Inl e
           | None \<Rightarrow>
               let copyOf = cloneRunCompositionData c;
                   copyOf' = copyOf\<lparr> rc_profile := (rc_profile copyOf)\<lparr> as_createdAt := 0 \<rparr> \<rparr>
               in (case json_composition copyOf' of
                     None \<Rightarrow> Inl CompositionNotEncodable
                   | Some encoded \<Rightarrow> Inr (sha256_hex encoded))))"

(* src/pkg/core/session.go:954-965 validateRevision *)
definition validateRevision :: "string \<Rightarrow> bool" where
  "validateRevision v \<longleftrightarrow> v = [] \<or> length v = 64 \<and> hex_decodable v"

(* src/pkg/core/session.go:801-806 validateRunComposition *)
definition validateRunComposition :: "run_composition option \<Rightarrow> composition_error option" where
  "validateRunComposition composition =
     (case composition of None \<Rightarrow> None | Some c \<Rightarrow> validateRunCompositionMetadata (rc_metadata c))"

(* src/pkg/core/session.go:808-839 validateRunCompositionEvidence *)
definition validateRunCompositionEvidence :: "run_composition option \<Rightarrow> string \<Rightarrow> string \<Rightarrow> composition_error option" where
  "validateRunCompositionEvidence composition revision assignment =
     first_err (validateRunComposition composition)
       (first_err (reject_if (\<not> validateRevision revision) CompositionRevisionMalformed)
         (first_err (reject_if (\<not> validateRevision assignment) AssignmentRevisionMalformed)
           (case composition of
              None \<Rightarrow> reject_if (revision \<noteq> [] \<or> assignment \<noteq> []) RevisionWithoutComposition
            | Some c \<Rightarrow>
                (case compositionRevision composition of
                   Inl e \<Rightarrow> Some e
                 | Inr calculated \<Rightarrow>
                     if revision \<noteq> [] \<and> revision \<noteq> calculated then Some CompositionRevisionMismatch
                     else (case compositionMetadataRevision (rc_metadata c) of
                             Inl e \<Rightarrow> Some e
                           | Inr calculated' \<Rightarrow>
                               reject_if (assignment \<noteq> [] \<and> assignment \<noteq> calculated') AssignmentRevisionMismatch)))))"

section \<open>Payload validators\<close>

(* src/pkg/core/session.go:612-614 validRunStatus *)
definition validRunStatus :: "run_status \<Rightarrow> bool" where
  "validRunStatus s \<longleftrightarrow> s = RunCompleted \<or> s = RunLimited \<or> s = RunFailed \<or> s = RunCancelled"

definition digits_value :: "string \<Rightarrow> int" where
  "digits_value s = foldl (\<lambda>n c. 10 * n + (of_char c - 48)) 0 s"

(* src/pkg/core/session.go:643-654 validRunUsageInvocationID *)
definition invocation_part_ok :: "string \<Rightarrow> bool" where
  "invocation_part_ok part \<longleftrightarrow>
     \<not> (part = [] \<or> length part > 1 \<and> hd part = CHR ''0'') \<and> list_all is_digit part \<and> digits_value part \<le> max_int64"

(* src/pkg/core/session.go:634-668 validRunUsageInvocationID *)
definition validRunUsageInvocationID :: "string \<Rightarrow> bool" where
  "validRunUsageInvocationID v =
     (let parts = split_on (CHR '':'') v in
        if hd parts = ''summary''
        then length parts = 4 \<and> list_all invocation_part_ok (tl parts) \<and> digits_value (parts ! 1) \<le> digits_value (parts ! 2)
        else if hd parts = ''model'' then length parts = 2 \<and> list_all invocation_part_ok (tl parts)
        else False)"

(* src/pkg/core/session.go:621-632 validateRunUsageData *)
definition validateRunUsageData :: "run_usage_data \<Rightarrow> payload_error option" where
  "validateRunUsageData d =
     (if ru_input d < 0 \<or> ru_output d < 0 then Some UsageNegative
      else if ru_invocationID d = [] then None
      else if length (ru_invocationID d) > maxRunUsageInvocationIDBytes \<or> \<not> validRunUsageInvocationID (ru_invocationID d)
        then Some UsageInvocationInvalid
      else reject_if (ru_input d > MaxReportedTokensPerCall \<or> ru_output d > MaxReportedTokensPerCall) UsageOverLimit)"

(* src/pkg/core/session.go:717-737 validateToolCallList *)
fun validateToolCallList :: "tool_call list \<Rightarrow> bool \<Rightarrow> string list \<Rightarrow> payload_error option" where
  "validateToolCallList [] rejectDuplicate seen = None"
| "validateToolCallList (c # cs) rejectDuplicate seen =
     (if \<not> validateToolCall c then Some CallInvalid
      else if rejectDuplicate \<and> tc_id c \<in> set seen then Some CallRepeated
      else validateToolCallList cs rejectDuplicate (tc_id c # seen))"

(* src/pkg/core/session.go:697-715 validateAssistantMessageData *)
definition validateAssistantMessageData :: "assistant_message_data \<Rightarrow> payload_error option" where
  "validateAssistantMessageData d =
     (let mismatch = (case am_toolCall d of
            None \<Rightarrow> False
          | Some c \<Rightarrow> am_toolCalls d \<noteq> [] \<and> (tc_id (hd (am_toolCalls d)) \<noteq> tc_id c \<or> tc_name (hd (am_toolCalls d)) \<noteq> tc_name c));
          calls = (if am_toolCalls d = [] then (case am_toolCall d of None \<Rightarrow> [] | Some c \<Rightarrow> [c]) else am_toolCalls d)
      in if mismatch then Some CallMismatch
         else first_err (validateToolCallList calls True [])
           (reject_if (am_text d = [] \<and> calls = []) MessageEmpty))"

(* src/pkg/core/session.go:739-756 validateApprovalRequestedData *)
definition validateApprovalRequestedData :: "approval_requested_data \<Rightarrow> payload_error option" where
  "validateApprovalRequestedData d =
     (if \<not> validateApprovalID (aq_approvalID d) then Some ApprovalIDInvalid
      else if \<not> validateToolCall (aq_toolCall d) then Some CallInvalid
      else if \<not> validateToolCall (aq_resumeCall d) then Some CallInvalid
      else first_err (validateToolCallList (aq_remainingCalls d) False []) (reject_if (aq_step d < 0) ApprovalStepInvalid))"

(* src/pkg/core/session.go:758-769 validateApprovalResolvedData *)
definition validateApprovalResolvedData :: "approval_resolved_data \<Rightarrow> payload_error option" where
  "validateApprovalResolvedData d =
     (if \<not> validateApprovalID (av_approvalID d) then Some ApprovalIDInvalid
      else if \<not> validateToolCallID (av_callID d) then Some CallIDInvalid
      else if av_resolvedAt d = 0 then Some ApprovalTimeZero
      else reject_if (av_decision d \<noteq> ApprovalApproved \<and> av_decision d \<noteq> ApprovalDenied \<and> av_decision d \<noteq> ApprovalExpired)
        ApprovalDecisionInvalid)"

(* src/pkg/core/session.go:590-696 validateSessionEventValue *)
fun validateEventData :: "event_data \<Rightarrow> payload_error option" where
  "validateEventData (DRunStart d) =
     map_option BadComposition
       (validateRunCompositionEvidence (sd_composition d) (sd_compositionRevision d) (sd_assignmentRevision d))"
| "validateEventData (DRunResume d) =
     map_option BadComposition
       (validateRunCompositionEvidence (sd_composition d) (sd_compositionRevision d) (sd_assignmentRevision d))"
| "validateEventData (DRunEnd s) = reject_if (\<not> validRunStatus s) RunStatusInvalid"
| "validateEventData (DRunError d) = reject_if (blank (re_code d) \<or> blank (re_message d)) ErrorIncomplete"
| "validateEventData (DStepError d) = reject_if (blank (re_code d) \<or> blank (re_message d)) ErrorIncomplete"
| "validateEventData (DRunUsage d) = validateRunUsageData d"
| "validateEventData (DStepStart n) = reject_if (n < -1) StepInvalid"
| "validateEventData (DStepEnd n) = reject_if (n < -1) StepInvalid"
| "validateEventData (DUserMessage s) = None"
| "validateEventData (DAssistantChunk s) = reject_if (s = []) ChunkEmpty"
| "validateEventData (DAssistantMessage d) = validateAssistantMessageData d"
| "validateEventData (DToolCall d) =
     reject_if (\<not> validateToolCall \<lparr> tc_id = td_callID d, tc_name = td_name d, tc_args = td_args d, tc_continuation = [] \<rparr>) CallInvalid"
| "validateEventData (DToolResult d) =
     (if \<not> validateToolCallID (tr_callID d) then Some CallIDInvalid
      else reject_if (\<not> is_ok (validateResultMetadata (tr_metadata d))) ResultMetadataInvalid)"
| "validateEventData (DApprovalRequested d) = validateApprovalRequestedData d"
| "validateEventData (DApprovalResolved d) = validateApprovalResolvedData d"
| "validateEventData (DContextSummary d) =
     reject_if (cs_op d \<noteq> ''replace'' \<or> cs_start d < 0 \<or> cs_end d < cs_start d \<or> blank (cs_summary d)) SummaryInvalid"

section \<open>Raw events\<close>

(* src/pkg/core/session.go:979-984 ValidateRunID *)
definition validateRunID :: "string \<Rightarrow> bool" where
  "validateRunID s = safe_id s"

(* src/pkg/core/session.go:987-992 ValidateSessionID *)
definition validateSessionID :: "string \<Rightarrow> bool" where
  "validateSessionID s = safe_id s"

text \<open>Decoding a raw payload into the type registered for its event type.\<close>

definition decoded :: "event_type \<Rightarrow> raw_payload \<Rightarrow> event_data option" where
  "decoded kind raw = (case raw_val raw of None \<Rightarrow> None | Some d \<Rightarrow> if kind_of d = kind then Some d else None)"

(* src/pkg/core/session.go:777-780 validateSessionEvent *)
fun registered :: "event_type \<Rightarrow> bool" where
  "registered (EvOther _) = False"
| "registered _ = True"

(* src/pkg/core/session.go:771-791 validateSessionEvent *)
definition validateSessionEvent :: "session_event \<Rightarrow> event_error option" where
  "validateSessionEvent e =
     (if \<not> validateRunID (ev_runID e) then Some RunIDInvalid
      else if raw_len (ev_data e) > MaxSessionEventDataBytes then Some PayloadTooLarge
      else if \<not> registered (ev_type e) then Some EventTypeUnknown
      else if raw_len (ev_data e) = 0 then Some PayloadMissing
      else (case decoded (ev_type e) (ev_data e) of
              None \<Rightarrow> Some PayloadUndecodable
            | Some d \<Rightarrow> map_option PayloadRejected (validateEventData d)))"

lemma reject_if_None [simp]: "reject_if b e = None \<longleftrightarrow> \<not> b"
  by (simp add: reject_if_def)

lemma decoded_kind: "decoded kind raw = Some d \<Longrightarrow> kind_of d = kind"
  by (auto simp: decoded_def split: option.splits if_splits)

lemma encode_decoded: "encode_event d = Some raw \<Longrightarrow> decoded (kind_of d) raw = norm_event d"
  by (auto simp: encode_event_def decoded_def dest: norm_event_kind split: option.splits)

end
