(* ===== verification/Session.thy ===== *)
theory Session
  imports Event_Validation
begin

text \<open>
  The session aggregate of \<open>src/pkg/core/session.go\<close>: an append-only event log with the indexes
  derived from it (started runs, per-run status, approvals, tool calls and usage) and the projection
  cache kept up to date by appends. A handler is a function from the session to an error or to its
  result and the session after it. Locking is not modelled: every exported method runs under the
  session's mutex, so its effect is one step of the state.
\<close>

section \<open>State\<close>

(* src/pkg/core/session.go:21-21 MaxSessionEvents *)
definition MaxSessionEvents :: int where "MaxSessionEvents = 16384"

(* src/pkg/core/llm.go:35-38 TokenUsage *)
record token_usage =
  tu_input :: int
  tu_output :: int

definition noUsage :: token_usage where
  "noUsage = \<lparr> tu_input = 0, tu_output = 0 \<rparr>"

(* src/pkg/core/types.go:194-200 ChatRole *)
type_synonym chat_role = string

definition RoleUser :: chat_role where "RoleUser = ''user''"
definition RoleAssistant :: chat_role where "RoleAssistant = ''assistant''"
definition RoleTool :: chat_role where "RoleTool = ''tool''"

lemmas role_defs = RoleUser_def RoleAssistant_def RoleTool_def

(* src/pkg/core/types.go:204-209 ContextProvenance *)
record context_provenance =
  cp_kind :: string
  cp_start :: int
  cp_end :: int
  cp_revision :: string

(* src/pkg/core/types.go:214-222 ChatMessage *)
record chat_message =
  ch_role :: chat_role
  ch_content :: string
  ch_toolCall :: "tool_call option"
  ch_toolCalls :: "tool_call list"
  ch_toolCallID :: string
  ch_sourceSeq :: int
  ch_provenance :: "context_provenance option"

(* src/pkg/core/session.go:219-228 runIndexEntry *)
record run_index_entry =
  ri_started :: bool
  ri_status :: run_status
  ri_ended :: bool
  ri_pending :: "(string, int) gomap"
  ri_toolCalls :: "(string, int) gomap"
  ri_toolResults :: "(string, int) gomap"
  ri_usage :: token_usage
  ri_usageIDs :: "string list"

definition emptyEntry :: run_index_entry where
  "emptyEntry = \<lparr> ri_started = False, ri_status = [], ri_ended = False, ri_pending = [], ri_toolCalls = [],
     ri_toolResults = [], ri_usage = noUsage, ri_usageIDs = [] \<rparr>"

(* src/pkg/core/session.go:201-217 Session *)
record session =
  se_id :: string
  se_profileID :: string
  se_principal :: principal
  se_scope :: scope_path
  se_metadata :: "(string, string) gomap"
  se_events :: "session_event list"
  se_runStarts :: "string list"
  se_runIndex :: "(string, run_index_entry) gomap"
  se_maxEvents :: int
  se_summaryEvents :: nat
  se_projCount :: nat
  se_projSummaries :: nat
  se_projCache :: "chat_message list"
  se_projValid :: bool

(* src/pkg/core/session.go:242-248 SessionOptions *)
record session_options =
  so_id :: string
  so_profileID :: string
  so_principal :: principal
  so_scope :: scope_path
  so_metadata :: "(string, string) gomap"

datatype session_error =
    SessionBadID | SessionBadProfile | SessionEmptyScope | SessionScopeMismatch | SessionBadPrincipal
  | SessionNotOwned | SessionFull | SessionDiscontinuous nat | SessionEmptyBatch
  | EventRejected event_error | RunAlreadyStarted | RunNotStarted
  | UsageUndecodable | UsageRepeated | UsageOverflow | PendingIndexCorrupt | QueryInvalid

(* src/pkg/core/session.go:250-280 NewSession *)
definition newSession :: "session_options \<Rightarrow> session_error + session" where
  "newSession opts =
     (if \<not> validateSessionID (so_id opts) then Inl SessionBadID
      else if \<not> validateProfileID (so_profileID opts) then Inl SessionBadProfile
      else if so_scope opts = [] then Inl SessionEmptyScope
      else if sr_kind (last (so_scope opts)) \<noteq> ScopeSession \<or> sr_id (last (so_scope opts)) \<noteq> so_id opts
        then Inl SessionScopeMismatch
      else if blank (pr_subject (so_principal opts)) \<or> blank (pr_tenant (so_principal opts)) then Inl SessionBadPrincipal
      else if \<not> isAncestorOf (pr_scope (so_principal opts)) (so_scope opts) then Inl SessionNotOwned
      else Inr \<lparr> se_id = so_id opts, se_profileID = so_profileID opts, se_principal = clonePrincipal (so_principal opts),
                 se_scope = so_scope opts, se_metadata = fold (\<lambda>(k, v). mput k v) (so_metadata opts) [],
                 se_events = [], se_runStarts = [], se_runIndex = [], se_maxEvents = 0, se_summaryEvents = 0,
                 se_projCount = 0, se_projSummaries = 0, se_projCache = [], se_projValid = True \<rparr>)"

(* src/pkg/core/session.go:546-551 eventCap *)
definition eventCap :: "session \<Rightarrow> int" where
  "eventCap s = (if se_maxEvents s > 0 then se_maxEvents s else MaxSessionEvents)"

section \<open>Validation of a batch\<close>

text \<open>
  What \<open>Append\<close> is given: a value (or non-nil pointer) of the payload type registered for the event
  type, any other value with the outcome of encoding it, or nil.
\<close>

datatype append_data = Typed event_data | Untyped event_type "raw_payload option" | NoData event_type

fun append_kind :: "append_data \<Rightarrow> event_type" where
  "append_kind (Typed d) = kind_of d"
| "append_kind (Untyped k _) = k"
| "append_kind (NoData k) = k"

fun append_typed :: "append_data \<Rightarrow> event_data option" where
  "append_typed (Typed d) = Some d"
| "append_typed _ = None"

(* src/pkg/core/session.go:230-235 sessionAppendEntry *)
record append_entry =
  ae_runID :: string
  ae_kind :: event_type
  ae_typed :: "event_data option"
  ae_raw :: raw_payload

(* src/pkg/core/session.go:371-378 appendBatch *)
definition marshalPayload :: "append_data \<Rightarrow> event_error + raw_payload" where
  "marshalPayload data =
     (let sized = (\<lambda>encoded. case encoded of
                     None \<Rightarrow> Inl PayloadNotEncodable
                   | Some raw \<Rightarrow> if raw_len raw > MaxSessionEventDataBytes then Inl PayloadTooLarge else Inr raw)
      in case data of NoData _ \<Rightarrow> Inr nilRaw | Typed d \<Rightarrow> sized (encode_event d) | Untyped _ encoded \<Rightarrow> sized encoded)"

(* src/pkg/core/session.go:366-389 appendBatch *)
definition prepareEntry :: "string \<times> append_data \<Rightarrow> event_error + append_entry" where
  "prepareEntry e =
     (let (runID, data) = e in
        if \<not> validateRunID runID then Inl RunIDInvalid
        else rbind (marshalPayload data) (\<lambda>raw.
          let rejected = (case append_typed data of
                Some d \<Rightarrow> map_option PayloadRejected (validateEventData d)
              | None \<Rightarrow> validateSessionEvent
                  \<lparr> ev_seq = 0, ev_time = 0, ev_runID = runID, ev_type = append_kind data, ev_data = raw \<rparr>)
          in case rejected of
               Some err \<Rightarrow> Inl err
             | None \<Rightarrow> Inr \<lparr> ae_runID = runID, ae_kind = append_kind data, ae_typed = append_typed data, ae_raw = raw \<rparr>))"

text \<open>The typed value when there is one, the decoded raw text otherwise.\<close>

(* src/pkg/core/session.go:553-573 eventData *)
definition eventData :: "event_data option \<Rightarrow> event_type \<Rightarrow> raw_payload \<Rightarrow> event_data option" where
  "eventData typed kind raw = (case typed of Some d \<Rightarrow> Some d | None \<Rightarrow> decoded kind raw)"

(* src/pkg/core/session.go:670-678 addUsageTotal *)
definition addUsageTotal :: "token_usage \<Rightarrow> int \<Rightarrow> int \<Rightarrow> token_usage option" where
  "addUsageTotal acc input output =
     (if input < 0 \<or> output < 0 \<or> input > max_int64 - tu_input acc \<or> output > max_int64 - tu_output acc then None
      else Some \<lparr> tu_input = tu_input acc + input, tu_output = tu_output acc + output \<rparr>)"

(* src/pkg/core/session.go:237-240 usageIndexState *)
record usage_state =
  us_total :: token_usage
  us_ids :: "string list"

(* src/pkg/core/session.go:449-475 validateRunUsageLocked *)
definition validateRunUsage :: "session \<Rightarrow> string \<Rightarrow> run_usage_data \<Rightarrow> (string, usage_state) gomap
    \<Rightarrow> session_error + (string, usage_state) gomap" where
  "validateRunUsage s runID d pending =
     (let entry = map_of (se_runIndex s) runID;
          state = (case map_of pending runID of
                     Some st \<Rightarrow> st
                   | None \<Rightarrow> \<lparr> us_total = (case entry of None \<Rightarrow> noUsage | Some e \<Rightarrow> ri_usage e), us_ids = [] \<rparr>);
          inv = ru_invocationID d;
          repeated = (inv \<noteq> [] \<and> ((case entry of None \<Rightarrow> False | Some e \<Rightarrow> inv \<in> set (ri_usageIDs e)) \<or> inv \<in> set (us_ids state)));
          ids = (if inv \<noteq> [] then inv # us_ids state else us_ids state)
      in if repeated then Inl UsageRepeated
         else (case addUsageTotal (us_total state) (ru_input d) (ru_output d) of
                 None \<Rightarrow> Inl UsageOverflow
               | Some acc \<Rightarrow> Inr (mput runID \<lparr> us_total = acc, us_ids = ids \<rparr> pending)))"

(* src/pkg/core/session.go:427-445 validateAppendLocked *)
definition validateAppendStep :: "session \<Rightarrow> string list \<times> (string, usage_state) gomap \<Rightarrow> append_entry
    \<Rightarrow> session_error + string list \<times> (string, usage_state) gomap" where
  "validateAppendStep s st e =
     (let (starts, usage) = st;
          started = (ae_runID e \<in> set (se_runStarts s) \<or> ae_runID e \<in> set starts)
      in if ae_kind e = EvRunStart \<and> started then Inl RunAlreadyStarted
         else if ae_kind e = EvRunResume \<and> \<not> started then Inl RunNotStarted
         else let starts' = (if ae_kind e = EvRunStart then ae_runID e # starts else starts) in
           if ae_kind e = EvRunUsage
           then (case eventData (ae_typed e) (ae_kind e) (ae_raw e) of
                   Some (DRunUsage d) \<Rightarrow> rbind (validateRunUsage s (ae_runID e) d usage) (\<lambda>usage'. Inr (starts', usage'))
                 | _ \<Rightarrow> Inl UsageUndecodable)
           else Inr (starts', usage))"

(* src/pkg/core/session.go:422-447 validateAppendLocked *)
definition validateAppend :: "session \<Rightarrow> append_entry list \<Rightarrow> session_error option" where
  "validateAppend s es =
     (if int (length (se_events s)) + int (length es) > eventCap s then Some SessionFull
      else case foldr_err (validateAppendStep s) ([], []) es of Inl e \<Rightarrow> Some e | Inr _ \<Rightarrow> None)"

section \<open>Indexing\<close>

definition addUsage :: "token_usage \<Rightarrow> run_usage_data \<Rightarrow> token_usage" where
  "addUsage u d = \<lparr> tu_input = wrap64 (tu_input u + ru_input d), tu_output = wrap64 (tu_output u + ru_output d) \<rparr>"

definition insert_id :: "string \<Rightarrow> string list \<Rightarrow> string list" where
  "insert_id x xs = (if x \<in> set xs then xs else x # xs)"

text \<open>The effect of one event, with its payload already decoded, on the entry of its run.\<close>

(* src/pkg/core/session.go:483-534 indexEvent *)
fun indexData :: "int \<Rightarrow> event_data \<Rightarrow> run_index_entry \<Rightarrow> run_index_entry" where
  "indexData seq (DRunStart _) e = e\<lparr> ri_started := True, ri_status := [] \<rparr>"
| "indexData seq (DRunEnd status) e = (if ri_ended e then e else e\<lparr> ri_status := status, ri_ended := True \<rparr>)"
| "indexData seq (DApprovalRequested d) e = e\<lparr> ri_pending := mput (aq_approvalID d) seq (ri_pending e) \<rparr>"
| "indexData seq (DApprovalResolved d) e = e\<lparr> ri_pending := mdel (av_approvalID d) (ri_pending e) \<rparr>"
| "indexData seq (DToolCall d) e = e\<lparr> ri_toolCalls := mput (td_callID d) seq (ri_toolCalls e) \<rparr>"
| "indexData seq (DToolResult d) e =
     (if map_of (ri_toolResults e) (tr_callID d) = None
      then e\<lparr> ri_toolResults := mput (tr_callID d) seq (ri_toolResults e) \<rparr> else e)"
| "indexData seq (DRunUsage d) e = e\<lparr> ri_usage := addUsage (ri_usage e) d,
     ri_usageIDs := (if ru_invocationID d = [] then ri_usageIDs e else insert_id (ru_invocationID d) (ri_usageIDs e)) \<rparr>"
| "indexData seq _ e = e"

text \<open>Run starts are indexed by their type alone, whatever the payload.\<close>

(* src/pkg/core/session.go:477-535 indexEvent *)
definition indexEvent :: "session_event \<Rightarrow> event_data option \<Rightarrow> (string, run_index_entry) gomap
    \<Rightarrow> (string, run_index_entry) gomap" where
  "indexEvent ev typed index =
     (let entry = mget emptyEntry index (ev_runID ev);
          entry' = (if ev_type ev = EvRunStart then entry\<lparr> ri_started := True, ri_status := [] \<rparr>
                    else case eventData typed (ev_type ev) (ev_data ev) of
                           None \<Rightarrow> entry
                         | Some d \<Rightarrow> indexData (ev_seq ev) d entry)
      in mput (ev_runID ev) entry' index)"

section \<open>Append\<close>

definition cloneToolCall :: "tool_call \<Rightarrow> tool_call" where
  "cloneToolCall c = c\<lparr> tc_args := cloneMap (tc_args c) \<rparr>"

definition plain_message :: "chat_role \<Rightarrow> string \<Rightarrow> int \<Rightarrow> chat_message" where
  "plain_message role content seq = \<lparr> ch_role = role, ch_content = content, ch_toolCall = None, ch_toolCalls = [],
     ch_toolCallID = [], ch_sourceSeq = seq, ch_provenance = None \<rparr>"

text \<open>The message of a payload and whether the event type has one at all.\<close>

(* src/pkg/core/session.go:1254-1303 projectCommittedData *)
definition projectCommittedData :: "event_type \<Rightarrow> event_data option \<Rightarrow> int \<Rightarrow> chat_message option \<times> bool" where
  "projectCommittedData kind data seq =
     (case kind of
        EvUserMessage \<Rightarrow>
          (case data of Some (DUserMessage t) \<Rightarrow> (Some (plain_message RoleUser t seq), True) | _ \<Rightarrow> (None, True))
      | EvAssistantMessage \<Rightarrow>
          (case data of
             Some (DAssistantMessage v) \<Rightarrow>
               (let calls = map cloneToolCall (am_toolCalls v);
                    first = map_option cloneToolCall (am_toolCall v);
                    calls' = (case first of None \<Rightarrow> calls | Some c \<Rightarrow> if calls = [] then [c] else calls)
                in (Some ((plain_message RoleAssistant (am_text v) seq)\<lparr> ch_toolCall := first, ch_toolCalls := calls' \<rparr>), True))
           | _ \<Rightarrow> (None, True))
      | EvToolResult \<Rightarrow>
          (case data of
             Some (DToolResult v) \<Rightarrow> (Some ((plain_message RoleTool (tr_content v) seq)\<lparr> ch_toolCallID := tr_callID v \<rparr>), True)
           | _ \<Rightarrow> (None, True))
      | _ \<Rightarrow> (None, False))"

definition invalidateProjection :: "session \<Rightarrow> session" where
  "invalidateProjection s = s\<lparr> se_projValid := False, se_projCache := [], se_projCount := 0 \<rparr>"

(* src/pkg/core/session.go:407-417 appendBatch *)
definition updateProjection :: "session_event \<Rightarrow> event_data option \<Rightarrow> session \<Rightarrow> session" where
  "updateProjection ev typed s =
     (if ev_type ev = EvContextSummary then (invalidateProjection s)\<lparr> se_summaryEvents := se_summaryEvents s + 1 \<rparr>
      else if se_projValid s
        then (case projectCommittedData (ev_type ev) typed (ev_seq ev) of
                (Some m, _) \<Rightarrow> s\<lparr> se_projCache := se_projCache s @ [m], se_projCount := length (se_events s) \<rparr>
              | (None, True) \<Rightarrow> (invalidateProjection s)\<lparr> se_projCount := length (se_events s) \<rparr>
              | (None, False) \<Rightarrow> s\<lparr> se_projCount := length (se_events s) \<rparr>)
      else s)"

(* src/pkg/core/session.go:396-418 appendBatch *)
definition commitEntry :: "(nat \<Rightarrow> gotime) \<Rightarrow> session \<Rightarrow> append_entry \<Rightarrow> session_event \<times> session" where
  "commitEntry clock s e =
     (let n = length (se_events s);
          ev = \<lparr> ev_seq = int n, ev_time = clock n, ev_runID = ae_runID e, ev_type = ae_kind e, ev_data = ae_raw e \<rparr>;
          s1 = (if ae_kind e = EvRunStart then s\<lparr> se_runStarts := insert_id (ae_runID e) (se_runStarts s) \<rparr> else s);
          s2 = s1\<lparr> se_events := se_events s1 @ [ev], se_runIndex := indexEvent ev (ae_typed e) (se_runIndex s1) \<rparr>
      in (ev, updateProjection ev (ae_typed e) s2))"

definition commitAll :: "(nat \<Rightarrow> gotime) \<Rightarrow> session \<Rightarrow> append_entry list \<Rightarrow> session_event list \<times> session" where
  "commitAll clock s es = fold (\<lambda>e (out, s). let (ev, s') = commitEntry clock s e in (out @ [ev], s')) es ([], s)"

(* src/pkg/core/session.go:361-420 appendBatch *)
definition appendBatch :: "(nat \<Rightarrow> gotime) \<Rightarrow> session \<Rightarrow> (string \<times> append_data) list
    \<Rightarrow> session_error + session_event list \<times> session" where
  "appendBatch clock s entries =
     (if entries = [] then Inl SessionEmptyBatch
      else case foldr_err (\<lambda>out e. rbind (prepareEntry e) (\<lambda>p. Inr (out @ [p]))) [] entries of
             Inl e \<Rightarrow> Inl (EventRejected e)
           | Inr prepared \<Rightarrow>
               (case validateAppend s prepared of
                  Some e \<Rightarrow> Inl e
                | None \<Rightarrow> Inr (commitAll clock s prepared)))"

(* src/pkg/core/session.go:353-359 Append *)
definition appendEvent :: "(nat \<Rightarrow> gotime) \<Rightarrow> session \<Rightarrow> string \<Rightarrow> append_data \<Rightarrow> session_error + session_event \<times> session" where
  "appendEvent clock s runID data =
     rbind (appendBatch clock s [(runID, data)]) (\<lambda>(evs, s'). Inr (hd evs, s'))"

section \<open>Restore\<close>

definition stored_entry :: "session_event \<Rightarrow> append_entry" where
  "stored_entry ev = \<lparr> ae_runID = ev_runID ev, ae_kind = ev_type ev, ae_typed = None, ae_raw = ev_data ev \<rparr>"

(* src/pkg/core/session.go:291-316 RestoreSession *)
definition restoreStep :: "session \<Rightarrow> nat \<times> session_event \<Rightarrow> session_error + session" where
  "restoreStep s iev =
     (let (i, ev) = iev in
        if ev_seq ev \<noteq> int i then Inl (SessionDiscontinuous i)
        else (case validateSessionEvent ev of
                Some e \<Rightarrow> Inl (EventRejected e)
              | None \<Rightarrow>
                  (case validateAppend s [stored_entry ev] of
                     Some e \<Rightarrow> Inl e
                   | None \<Rightarrow>
                       let s1 = s\<lparr> se_events := se_events s @ [ev], se_runIndex := indexEvent ev None (se_runIndex s),
                                   se_summaryEvents := se_summaryEvents s + (if ev_type ev = EvContextSummary then 1 else 0) \<rparr>
                       in if ev_type ev = EvRunStart
                          then (if ev_runID ev \<in> set (se_runStarts s1) then Inl RunAlreadyStarted
                                else Inr (s1\<lparr> se_runStarts := insert_id (ev_runID ev) (se_runStarts s1) \<rparr>))
                          else if ev_type ev = EvRunResume \<and> ev_runID ev \<notin> set (se_runStarts s1) then Inl RunNotStarted
                          else Inr s1)))"

(* src/pkg/core/session.go:282-318 RestoreSession *)
definition restoreSession :: "session_options \<Rightarrow> session_event list \<Rightarrow> session_error + session" where
  "restoreSession opts events =
     rbind (newSession opts) (\<lambda>s.
       if int (length events) > eventCap s then Inl SessionFull
       else foldr_err restoreStep (s\<lparr> se_projValid := (events = []) \<rparr>) (enumerate 0 events))"

definition session_options_of :: "session \<Rightarrow> session_options" where
  "session_options_of s = \<lparr> so_id = se_id s, so_profileID = se_profileID s, so_principal = se_principal s,
     so_scope = se_scope s, so_metadata = se_metadata s \<rparr>"

(* src/pkg/core/session.go:1478-1482 Clone *)
definition cloneSession :: "session \<Rightarrow> session_error + session" where
  "cloneSession s = restoreSession (session_options_of s) (se_events s)"

section \<open>Queries\<close>

(* src/pkg/core/session.go:336-340 Version *)
definition sessionVersion :: "session \<Rightarrow> int" where
  "sessionVersion s = int (length (se_events s))"

(* src/pkg/core/session.go:1344-1356 EventsFrom *)
definition eventsFrom :: "session \<Rightarrow> int \<Rightarrow> session_event list option" where
  "eventsFrom s version =
     (if version < 0 \<or> version > int (length (se_events s)) then None else Some (drop (nat version) (se_events s)))"

(* src/pkg/core/session.go:1358-1372 LastAssistantText *)
fun lastAssistantText :: "session_event list \<Rightarrow> string \<Rightarrow> string" where
  "lastAssistantText [] runID = []"
| "lastAssistantText (ev # newestFirst) runID =
     (if ev_runID ev \<noteq> runID \<or> ev_type ev \<noteq> EvAssistantMessage then lastAssistantText newestFirst runID
      else case decoded (ev_type ev) (ev_data ev) of
             Some (DAssistantMessage d) \<Rightarrow> if am_text d \<noteq> [] then am_text d else lastAssistantText newestFirst runID
           | _ \<Rightarrow> lastAssistantText newestFirst runID)"

(* src/pkg/core/session.go:537-544 runUsageTotal *)
definition runUsageTotal :: "session \<Rightarrow> string \<Rightarrow> token_usage" where
  "runUsageTotal s runID = (case map_of (se_runIndex s) runID of None \<Rightarrow> noUsage | Some e \<Rightarrow> ri_usage e)"

(* src/pkg/core/session.go:1375-1392 RunStatus *)
definition runStatus :: "session \<Rightarrow> string \<Rightarrow> run_status \<times> bool" where
  "runStatus s runID =
     (if \<not> validateRunID runID then ([], False)
      else case map_of (se_runIndex s) runID of
             None \<Rightarrow> ([], False)
           | Some e \<Rightarrow> if ri_ended e then (ri_status e, True)
                       else if ri_pending e \<noteq> [] then (RunWaitingApproval, True)
                       else ([], ri_started e))"

(* src/pkg/core/session.go:1397-1424 PendingApproval *)
definition pendingApproval :: "session \<Rightarrow> string \<Rightarrow> session_error + approval_requested_data option" where
  "pendingApproval s runID =
     (if \<not> validateRunID runID then Inl QueryInvalid
      else case map_of (se_runIndex s) runID of
             None \<Rightarrow> Inr None
           | Some e \<Rightarrow>
               if ri_pending e = [] then Inr None
               else let latest = fold (\<lambda>(_, seq) m. if seq > m then seq else m) (ri_pending e) (-1) in
                 if latest < 0 \<or> latest \<ge> int (length (se_events s)) then Inl PendingIndexCorrupt
                 else (case decoded EvApprovalRequested (ev_data (se_events s ! nat latest)) of
                         Some (DApprovalRequested d) \<Rightarrow>
                           Inr (Some (d\<lparr> aq_toolCall := cloneToolCall (aq_toolCall d), aq_resumeCall := cloneToolCall (aq_resumeCall d),
                                         aq_remainingCalls := map cloneToolCall (aq_remainingCalls d) \<rparr>))
                       | _ \<Rightarrow> Inl (EventRejected PayloadUndecodable)))"

(* src/pkg/core/session.go:1427-1438 HasToolCall *)
definition hasToolCall :: "session \<Rightarrow> string \<Rightarrow> string \<Rightarrow> session_error + bool" where
  "hasToolCall s runID callID =
     (if \<not> validateRunID runID \<or> \<not> validateToolCallID callID then Inl QueryInvalid
      else Inr (case map_of (se_runIndex s) runID of None \<Rightarrow> False | Some e \<Rightarrow> map_of (ri_toolCalls e) callID \<noteq> None))"

(* src/pkg/core/tool_journal.go:148-157 cloneCapabilityResult *)
definition cloneCapabilityResult :: "capability_result \<Rightarrow> capability_result" where
  "cloneCapabilityResult r = r\<lparr> cr_metadata := (case cr_metadata r of
       None \<Rightarrow> None
     | Some m \<Rightarrow> (case json_roundtrip (JObj m) of Some (JObj c) \<Rightarrow> Some c | _ \<Rightarrow> None)) \<rparr>"

(* src/pkg/core/session.go:1441-1463 ToolResult *)
definition toolResult :: "session \<Rightarrow> string \<Rightarrow> string \<Rightarrow> session_error + capability_result option" where
  "toolResult s runID callID =
     (if \<not> validateRunID runID \<or> \<not> validateToolCallID callID then Inl QueryInvalid
      else case map_of (se_runIndex s) runID of
             None \<Rightarrow> Inr None
           | Some e \<Rightarrow>
               (case map_of (ri_toolResults e) callID of
                  None \<Rightarrow> Inr None
                | Some seq \<Rightarrow>
                    if seq < 0 \<or> seq \<ge> int (length (se_events s)) then Inr None
                    else (case decoded EvToolResult (ev_data (se_events s ! nat seq)) of
                            Some (DToolResult d) \<Rightarrow> Inr (Some (cloneCapabilityResult
                              \<lparr> cr_content = tr_content d, cr_ok = tr_ok d, cr_metadata = tr_metadata d \<rparr>))
                          | _ \<Rightarrow> Inl (EventRejected PayloadUndecodable))))"

section \<open>Shared facts\<close>

abbreviation run_entry :: "session \<Rightarrow> string \<Rightarrow> run_index_entry" where
  "run_entry s r \<equiv> mget emptyEntry (se_runIndex s) r"

lemma insert_id_set [simp]: "set (insert_id x xs) = insert x (set xs)"
  by (auto simp: insert_id_def)

lemma emptyEntry_simps [simp]:
  "ri_started emptyEntry = False" "ri_ended emptyEntry = False" "ri_pending emptyEntry = []" "ri_toolCalls emptyEntry = []"
  "ri_toolResults emptyEntry = []" "ri_usage emptyEntry = noUsage" "ri_usageIDs emptyEntry = []" "ri_status emptyEntry = []"
  by (simp_all add: emptyEntry_def)

lemma updateProjection_simps [simp]:
  "se_events (updateProjection ev t s) = se_events s" "se_runStarts (updateProjection ev t s) = se_runStarts s"
  "se_runIndex (updateProjection ev t s) = se_runIndex s" "se_maxEvents (updateProjection ev t s) = se_maxEvents s"
  "se_summaryEvents (updateProjection ev t s) = se_summaryEvents s + (if ev_type ev = EvContextSummary then 1 else 0)"
  "se_id (updateProjection ev t s) = se_id s" "se_profileID (updateProjection ev t s) = se_profileID s"
  "se_principal (updateProjection ev t s) = se_principal s" "se_scope (updateProjection ev t s) = se_scope s"
  "se_metadata (updateProjection ev t s) = se_metadata s"
  by (simp_all add: updateProjection_def invalidateProjection_def split: prod.split option.split bool.split)

lemma runUsageTotal_entry: "runUsageTotal s r = ri_usage (run_entry s r)"
  by (simp add: runUsageTotal_def mget_def split: option.split)

definition event_of :: "(nat \<Rightarrow> gotime) \<Rightarrow> session \<Rightarrow> append_entry \<Rightarrow> session_event" where
  "event_of clock s e = \<lparr> ev_seq = int (length (se_events s)), ev_time = clock (length (se_events s)),
     ev_runID = ae_runID e, ev_type = ae_kind e, ev_data = ae_raw e \<rparr>"

lemma commitEntry_simps:
  defines "s' \<equiv> \<lambda>clock s e. snd (commitEntry clock s e)"
  shows "fst (commitEntry clock s e) = event_of clock s e"
    "se_events (s' clock s e) = se_events s @ [event_of clock s e]"
    "se_runStarts (s' clock s e) = (if ae_kind e = EvRunStart then insert_id (ae_runID e) (se_runStarts s) else se_runStarts s)"
    "se_runIndex (s' clock s e) = indexEvent (event_of clock s e) (ae_typed e) (se_runIndex s)"
    "se_maxEvents (s' clock s e) = se_maxEvents s"
    "se_summaryEvents (s' clock s e) = se_summaryEvents s + (if ae_kind e = EvContextSummary then 1 else 0)"
    "session_options_of (s' clock s e) = session_options_of s"
  by (simp_all add: s'_def commitEntry_def event_of_def Let_def session_options_of_def)

end
