(* ===== verification/Session_Log.thy ===== *)
theory Session_Log
  imports Session
begin

text \<open>
  The session log keeps its promises: sequence numbers are positions, a run starts once and resumes
  only after its start, totals never overflow, a batch is all or nothing and equals its events
  appended one by one, and a stored log restores to the same indexes.
\<close>

section \<open>The invariant\<close>

definition started_runs :: "session_event list \<Rightarrow> string set" where
  "started_runs evs = ev_runID ` {e \<in> set evs. ev_type e = EvRunStart}"

definition log_ok :: "session_event list \<Rightarrow> bool" where
  "log_ok evs \<longleftrightarrow> (\<forall>i < length evs. ev_seq (evs ! i) = int i
     \<and> (ev_type (evs ! i) = EvRunStart \<longrightarrow> ev_runID (evs ! i) \<notin> started_runs (take i evs))
     \<and> (ev_type (evs ! i) = EvRunResume \<longrightarrow> ev_runID (evs ! i) \<in> started_runs (take i evs)))"

definition event_fits :: "session_event \<Rightarrow> bool" where
  "event_fits e \<longleftrightarrow> validateRunID (ev_runID e) \<and> registered (ev_type e)
     \<and> 0 < raw_len (ev_data e) \<and> raw_len (ev_data e) \<le> MaxSessionEventDataBytes"

definition usage_ok :: "token_usage \<Rightarrow> bool" where
  "usage_ok u \<longleftrightarrow> 0 \<le> tu_input u \<and> tu_input u \<le> max_int64 \<and> 0 \<le> tu_output u \<and> tu_output u \<le> max_int64"

definition session_ok :: "session \<Rightarrow> bool" where
  "session_ok s \<longleftrightarrow> log_ok (se_events s) \<and> list_all event_fits (se_events s)
     \<and> int (length (se_events s)) \<le> eventCap s
     \<and> set (se_runStarts s) = started_runs (se_events s)
     \<and> se_summaryEvents s = length (filter (\<lambda>e. ev_type e = EvContextSummary) (se_events s))
     \<and> (\<forall>r. usage_ok (ri_usage (run_entry s r)))"

lemma started_runs_snoc:
  "started_runs (evs @ [e]) = started_runs evs \<union> (if ev_type e = EvRunStart then {ev_runID e} else {})"
  by (auto simp: started_runs_def)

lemma log_ok_snoc:
  "log_ok (evs @ [e]) \<longleftrightarrow> log_ok evs \<and> ev_seq e = int (length evs)
     \<and> (ev_type e = EvRunStart \<longrightarrow> ev_runID e \<notin> started_runs evs)
     \<and> (ev_type e = EvRunResume \<longrightarrow> ev_runID e \<in> started_runs evs)"
  by (auto simp: log_ok_def nth_append less_Suc_eq)

lemma usage_ok_noUsage [simp]: "usage_ok noUsage"
  by (simp add: usage_ok_def noUsage_def max_int64_def)

section \<open>One entry\<close>

definition entry_fits :: "append_entry \<Rightarrow> bool" where
  "entry_fits e \<longleftrightarrow> validateRunID (ae_runID e) \<and> registered (ae_kind e)
     \<and> 0 < raw_len (ae_raw e) \<and> raw_len (ae_raw e) \<le> MaxSessionEventDataBytes
     \<and> (\<forall>d. ae_typed e = Some d \<longrightarrow> kind_of d = ae_kind e)"

lemma registered_kind_of [simp]: "registered (kind_of d)"
  by (cases d) simp_all

lemma prepareEntry_fits: "prepareEntry x = Inr p \<Longrightarrow> entry_fits p"
proof -
  assume p: "prepareEntry x = Inr p"
  obtain r d where x: "x = (r, d)" by force
  from p obtain raw where m: "marshalPayload d = Inr raw" and r: "validateRunID r" "ae_runID p = r"
    "ae_kind p = append_kind d" "ae_typed p = append_typed d" "ae_raw p = raw"
    and v: "append_typed d = None \<Longrightarrow> validateSessionEvent
      \<lparr> ev_seq = 0, ev_time = 0, ev_runID = r, ev_type = append_kind d, ev_data = raw \<rparr> = None"
    by (auto simp: prepareEntry_def x Let_def split: if_splits option.splits)
  show ?thesis
  proof (cases d)
    case (Typed t)
    with m have "encode_event t = Some raw" "raw_len raw \<le> MaxSessionEventDataBytes"
      by (auto simp: marshalPayload_def split: option.splits if_splits)
    with encode_event_nonempty[of t raw] r Typed show ?thesis by (simp add: entry_fits_def)
  qed (use v r in \<open>auto simp: entry_fits_def validateSessionEvent_def split: if_splits\<close>)
qed

lemma eventData_kind: "entry_fits e \<Longrightarrow> eventData (ae_typed e) (ae_kind e) raw = Some d \<Longrightarrow> kind_of d = ae_kind e"
  by (auto simp: eventData_def entry_fits_def dest: decoded_kind split: option.splits)

text \<open>How one event changes the entry of its run.\<close>

definition entryStep :: "session_event \<Rightarrow> event_data option \<Rightarrow> run_index_entry \<Rightarrow> run_index_entry" where
  "entryStep ev typed entry =
     (if ev_type ev = EvRunStart then entry\<lparr> ri_started := True, ri_status := [] \<rparr>
      else case eventData typed (ev_type ev) (ev_data ev) of
             None \<Rightarrow> entry
           | Some d \<Rightarrow> indexData (ev_seq ev) d entry)"

lemma mget_indexEvent:
  "mget emptyEntry (indexEvent ev typed index) r
     = (if r = ev_runID ev then entryStep ev typed (mget emptyEntry index r) else mget emptyEntry index r)"
  by (auto simp: indexEvent_def entryStep_def Let_def mget_mput)

lemma indexData_usage:
  "kind_of d \<noteq> EvRunUsage \<Longrightarrow> ri_usage (indexData seq d e) = ri_usage e \<and> ri_usageIDs (indexData seq d e) = ri_usageIDs e"
  by (cases d) auto

lemma entryStep_usage_other:
  assumes "ev_type ev \<noteq> EvRunUsage" "\<And>d. typed = Some d \<Longrightarrow> kind_of d = ev_type ev"
  shows "ri_usage (entryStep ev typed e) = ri_usage e \<and> ri_usageIDs (entryStep ev typed e) = ri_usageIDs e"
proof -
  have "kind_of d \<noteq> EvRunUsage" if "eventData typed (ev_type ev) (ev_data ev) = Some d" for d
    using that assms by (auto simp: eventData_def dest: decoded_kind split: option.splits)
  then show ?thesis by (auto simp: entryStep_def indexData_usage split: option.split)
qed

lemma entryStep_usage:
  assumes "ev_type ev = EvRunUsage" "eventData typed EvRunUsage (ev_data ev) = Some (DRunUsage d)"
  shows "ri_usage (entryStep ev typed e) = addUsage (ri_usage e) d"
    and "set (ri_usageIDs (entryStep ev typed e)) = set (ri_usageIDs e) \<union> (if ru_invocationID d = [] then {} else {ru_invocationID d})"
  using assms by (auto simp: entryStep_def)

lemma addUsage_exact:
  assumes "usage_ok u" "addUsageTotal u (ru_input d) (ru_output d) = Some u'"
  shows "addUsage u d = u' \<and> usage_ok u'"
  using assms by (auto simp: addUsageTotal_def addUsage_def usage_ok_def wrap64_id max_int64_def split: if_splits)

section \<open>Batches\<close>

definition pending_state :: "session \<Rightarrow> (string, usage_state) gomap \<Rightarrow> string \<Rightarrow> usage_state" where
  "pending_state s pending r = (case map_of pending r of Some u \<Rightarrow> u | None \<Rightarrow> \<lparr> us_total = ri_usage (run_entry s r), us_ids = [] \<rparr>)"

lemma validateRunUsage_eq:
  "validateRunUsage s r d pending =
     (let u = pending_state s pending r; inv = ru_invocationID d in
        if inv \<noteq> [] \<and> (inv \<in> set (ri_usageIDs (run_entry s r)) \<or> inv \<in> set (us_ids u)) then Inl UsageRepeated
        else case addUsageTotal (us_total u) (ru_input d) (ru_output d) of
               None \<Rightarrow> Inl UsageOverflow
             | Some acc \<Rightarrow> Inr (mput r \<lparr> us_total = acc, us_ids = (if inv \<noteq> [] then inv # us_ids u else us_ids u) \<rparr> pending))"
  by (simp add: validateRunUsage_def pending_state_def mget_def Let_def split: option.split)

text \<open>\<open>sk\<close> is the session after a prefix of the batch; \<open>st\<close> is what the validator has collected for it.\<close>

definition batch_rel :: "session \<Rightarrow> string list \<times> (string, usage_state) gomap \<Rightarrow> session \<Rightarrow> bool" where
  "batch_rel s st sk \<longleftrightarrow> set (se_runStarts sk) = set (se_runStarts s) \<union> set (fst st)
     \<and> (\<forall>r. usage_ok (ri_usage (run_entry sk r))
        \<and> us_total (pending_state s (snd st) r) = ri_usage (run_entry sk r)
        \<and> set (ri_usageIDs (run_entry sk r)) = set (ri_usageIDs (run_entry s r)) \<union> set (us_ids (pending_state s (snd st) r)))"

lemma batch_rel_refl: "\<forall>r. usage_ok (ri_usage (run_entry s r)) \<Longrightarrow> batch_rel s ([], []) s"
  by (simp add: batch_rel_def pending_state_def)

lemma pending_state_mput: "pending_state s (mput r u pending) q = (if q = r then u else pending_state s pending q)"
  by (simp add: pending_state_def)

lemma pending_state_Nil [simp]: "pending_state s [] r = \<lparr> us_total = ri_usage (run_entry s r), us_ids = [] \<rparr>"
  by (simp add: pending_state_def)

lemma batch_relD:
  assumes "batch_rel s st sk"
  shows "us_total (pending_state s (snd st) r) = ri_usage (run_entry sk r)" "usage_ok (ri_usage (run_entry sk r))"
    "set (ri_usageIDs (run_entry sk r)) = set (ri_usageIDs (run_entry s r)) \<union> set (us_ids (pending_state s (snd st) r))"
  using assms unfolding batch_rel_def by metis+

lemma batch_usage_agree:
  assumes "batch_rel s (starts, usage) sk"
  shows "case validateRunUsage s r d usage of
      Inl e \<Rightarrow> validateRunUsage sk r d [] = Inl e
    | Inr usage' \<Rightarrow> is_ok (validateRunUsage sk r d [])
        \<and> usage' = mput r \<lparr> us_total = addUsage (ri_usage (run_entry sk r)) d,
             us_ids = (if ru_invocationID d \<noteq> [] then ru_invocationID d # us_ids (pending_state s usage r) else us_ids (pending_state s usage r)) \<rparr> usage
        \<and> usage_ok (addUsage (ri_usage (run_entry sk r)) d)"
proof -
  note eq = batch_relD[OF assms, of r, unfolded snd_conv]
  show ?thesis
    using addUsage_exact[OF eq(2), of d]
    by (auto simp: validateRunUsage_eq eq Let_def split: option.splits)
qed

lemma run_entry_commit:
  "run_entry (snd (commitEntry clock s e)) r
     = (if r = ae_runID e then entryStep (event_of clock s e) (ae_typed e) (run_entry s r) else run_entry s r)"
  by (simp add: commitEntry_simps mget_indexEvent event_of_def)

lemma event_of_simps [simp]:
  "ev_seq (event_of clock s e) = int (length (se_events s))" "ev_runID (event_of clock s e) = ae_runID e"
  "ev_type (event_of clock s e) = ae_kind e" "ev_data (event_of clock s e) = ae_raw e"
  by (simp_all add: event_of_def)

lemma batch_step_other:
  assumes "batch_rel s (starts, usage) sk" "entry_fits e" "ae_kind e \<noteq> EvRunUsage"
  shows "batch_rel s (if ae_kind e = EvRunStart then ae_runID e # starts else starts, usage) (snd (commitEntry clock sk e))"
proof -
  have "ri_usage (run_entry (snd (commitEntry clock sk e)) r) = ri_usage (run_entry sk r)
      \<and> ri_usageIDs (run_entry (snd (commitEntry clock sk e)) r) = ri_usageIDs (run_entry sk r)" for r
    using entryStep_usage_other[of "event_of clock sk e" "ae_typed e" "run_entry sk r"] assms(2,3)
    by (auto simp: run_entry_commit entry_fits_def)
  with assms(1) show ?thesis by (auto simp: batch_rel_def commitEntry_simps(3))
qed

lemma batch_step_usage:
  assumes "batch_rel s (starts, usage) sk" "ae_kind e = EvRunUsage"
    "eventData (ae_typed e) EvRunUsage (ae_raw e) = Some (DRunUsage d)" "validateRunUsage s (ae_runID e) d usage = Inr usage'"
  shows "batch_rel s (starts, usage') (snd (commitEntry clock sk e))"
proof -
  have u: "usage' = mput (ae_runID e) \<lparr> us_total = addUsage (ri_usage (run_entry sk (ae_runID e))) d,
             us_ids = (if ru_invocationID d \<noteq> [] then ru_invocationID d # us_ids (pending_state s usage (ae_runID e))
               else us_ids (pending_state s usage (ae_runID e))) \<rparr> usage"
    "usage_ok (addUsage (ri_usage (run_entry sk (ae_runID e))) d)"
    using batch_usage_agree[OF assms(1), of "ae_runID e" d] assms(4) by simp_all
  have i: "ri_usage (entryStep (event_of clock sk e) (ae_typed e) x) = addUsage (ri_usage x) d"
    "set (ri_usageIDs (entryStep (event_of clock sk e) (ae_typed e) x))
       = set (ri_usageIDs x) \<union> (if ru_invocationID d = [] then {} else {ru_invocationID d})" for x
    using entryStep_usage[of "event_of clock sk e" "ae_typed e" d x] assms(2,3) by simp_all
  show ?thesis
    using assms(1,2) u(2) unfolding batch_rel_def u(1)
    by (auto simp: commitEntry_simps(3) run_entry_commit i pending_state_mput)
qed

text \<open>The validator, run on the whole batch, agrees with validating each entry against the session so far.\<close>

lemma batch_step:
  assumes "batch_rel s st sk" "entry_fits e"
  shows "case validateAppendStep s st e of
      Inl err \<Rightarrow> validateAppendStep sk ([], []) e = Inl err
    | Inr st' \<Rightarrow> is_ok (validateAppendStep sk ([], []) e) \<and> batch_rel s st' (snd (commitEntry clock sk e))"
proof -
  obtain starts usage where st: "st = (starts, usage)" by force
  have started: "(ae_runID e \<in> set (se_runStarts s) \<or> ae_runID e \<in> set starts) \<longleftrightarrow> ae_runID e \<in> set (se_runStarts sk)"
    using assms(1) by (auto simp: batch_rel_def st)
  note agree = batch_usage_agree[OF assms(1)[unfolded st]]
  show ?thesis
  proof (cases "ae_kind e = EvRunUsage")
    case False
    with batch_step_other[OF assms(1)[unfolded st] assms(2) False, of clock] show ?thesis
      unfolding st validateAppendStep_def by (auto simp: Let_def started)
  next
    case True
    show ?thesis
    proof (cases "\<exists>d. eventData (ae_typed e) EvRunUsage (ae_raw e) = Some (DRunUsage d)")
      case True
      then obtain d where d: "eventData (ae_typed e) EvRunUsage (ae_raw e) = Some (DRunUsage d)" by blast
      show ?thesis
        using agree[of "ae_runID e" d] batch_step_usage[OF assms(1)[unfolded st] \<open>ae_kind e = EvRunUsage\<close> d, of _ clock]
        unfolding st validateAppendStep_def
        by (auto simp: \<open>ae_kind e = EvRunUsage\<close> d Let_def is_ok_iff split: sum.splits)
    next
      case False
      then show ?thesis
        unfolding st validateAppendStep_def
        by (auto simp: \<open>ae_kind e = EvRunUsage\<close> Let_def split: option.splits event_data.splits)
    qed
  qed
qed

abbreviation commit :: "(nat \<Rightarrow> gotime) \<Rightarrow> session \<Rightarrow> append_entry \<Rightarrow> session" where
  "commit clock s e \<equiv> snd (commitEntry clock s e)"

abbreviation step_ok :: "session \<Rightarrow> append_entry \<Rightarrow> bool" where
  "step_ok s e \<equiv> is_ok (validateAppendStep s ([], []) e)"

fun steps_ok :: "(nat \<Rightarrow> gotime) \<Rightarrow> session \<Rightarrow> append_entry list \<Rightarrow> bool" where
  "steps_ok clock s [] = True"
| "steps_ok clock s (e # es) = (step_ok s e \<and> steps_ok clock (commit clock s e) es)"

lemma batch_steps:
  assumes "batch_rel s st sk" "list_all entry_fits es"
  shows "is_ok (foldr_err (validateAppendStep s) st es) \<longleftrightarrow> steps_ok clock sk es"
  using assms
proof (induction es arbitrary: st sk)
  case (Cons e es)
  then show ?case
    using batch_step[of s st sk e clock] by (cases "validateAppendStep s st e") auto
qed simp

lemma commitAll_eq:
  "snd (commitAll clock s es) = fold (\<lambda>e s. commit clock s e) es s
   \<and> se_events (fold (\<lambda>e s. commit clock s e) es s) = se_events s @ fst (commitAll clock s es)
   \<and> map (\<lambda>ev. (ev_runID ev, ev_type ev)) (fst (commitAll clock s es)) = map (\<lambda>e. (ae_runID e, ae_kind e)) es"
proof -
  have "\<exists>evs. fold (\<lambda>e (out, s). let (ev, s') = commitEntry clock s e in (out @ [ev], s')) es (out, s)
        = (out @ evs, fold (\<lambda>e s. commit clock s e) es s)
      \<and> se_events (fold (\<lambda>e s. commit clock s e) es s) = se_events s @ evs
      \<and> map (\<lambda>ev. (ev_runID ev, ev_type ev)) evs = map (\<lambda>e. (ae_runID e, ae_kind e)) es" for out
  proof (induction es arbitrary: out s)
    case (Cons e es)
    obtain evs where "fold (\<lambda>e (out, s). let (ev, s') = commitEntry clock s e in (out @ [ev], s')) es
          (out @ [event_of clock s e], commit clock s e) = ((out @ [event_of clock s e]) @ evs, fold (\<lambda>e s. commit clock s e) es (commit clock s e))"
      "se_events (fold (\<lambda>e s. commit clock s e) es (commit clock s e)) = se_events (commit clock s e) @ evs"
      "map (\<lambda>ev. (ev_runID ev, ev_type ev)) evs = map (\<lambda>e. (ae_runID e, ae_kind e)) es"
      using Cons.IH by blast
    moreover have "(case commitEntry clock s e of (ev, s') \<Rightarrow> (out @ [ev], s')) = (out @ [event_of clock s e], commit clock s e)"
      by (simp add: split_beta commitEntry_simps(1))
    ultimately show ?case
      by (intro exI[of _ "event_of clock s e # evs"]) (simp add: commitEntry_simps(2))
  qed simp
  from this[of "[]"] show ?thesis by (auto simp: commitAll_def)
qed

lemma prepare_all:
  "foldr_err (\<lambda>out e. rbind (prepareEntry e) (\<lambda>p. Inr (out @ [p]))) out entries = Inr ps
     \<longleftrightarrow> (\<exists>qs. ps = out @ qs \<and> list_all2 (\<lambda>x p. prepareEntry x = Inr p) entries qs)"
proof (induction entries arbitrary: out)
  case (Cons x xs)
  then show ?case by (cases "prepareEntry x") (auto simp: list_all2_Cons1)
qed auto

lemma prepare_all_fits: "list_all2 (\<lambda>x p. prepareEntry x = Inr p) entries ps \<Longrightarrow> list_all entry_fits ps"
  by (induction rule: list_all2_induct) (auto dest: prepareEntry_fits)

lemma appendBatch_eq:
  assumes "\<forall>r. usage_ok (ri_usage (run_entry s r))"
  shows "appendBatch clock s entries = Inr (evs, s') \<longleftrightarrow>
    entries \<noteq> [] \<and> (\<exists>ps. list_all2 (\<lambda>x p. prepareEntry x = Inr p) entries ps
      \<and> int (length (se_events s)) + int (length ps) \<le> eventCap s \<and> steps_ok clock s ps \<and> commitAll clock s ps = (evs, s'))"
proof (cases "foldr_err (\<lambda>out e. rbind (prepareEntry e) (\<lambda>p. Inr (out @ [p]))) [] entries")
  case (Inl e)
  have "\<not> list_all2 (\<lambda>x p. prepareEntry x = Inr p) entries ps" for ps
    using prepare_all[of "[]" entries ps] Inl by simp
  with Inl show ?thesis by (simp add: appendBatch_def)
next
  case (Inr ps)
  then have ps: "list_all2 (\<lambda>x p. prepareEntry x = Inr p) entries ps"
    using prepare_all[of "[]" entries ps] by simp
  have uniq: "qs = ps" if "list_all2 (\<lambda>x p. prepareEntry x = Inr p) entries qs" for qs
    using that ps prepare_all[of "[]" entries qs] prepare_all[of "[]" entries ps] by simp
  have "is_ok (foldr_err (validateAppendStep s) ([], []) ps) \<longleftrightarrow> steps_ok clock s ps"
    using batch_steps[OF batch_rel_refl[OF assms] prepare_all_fits[OF ps]] .
  then have "validateAppend s ps = None \<longleftrightarrow> int (length (se_events s)) + int (length ps) \<le> eventCap s \<and> steps_ok clock s ps"
    by (auto simp: validateAppend_def is_ok_iff split: sum.splits)
  moreover have "(\<exists>qs. list_all2 (\<lambda>x p. prepareEntry x = Inr p) entries qs \<and> Q qs) \<longleftrightarrow> Q ps" for Q
    using ps uniq by blast
  ultimately show ?thesis
    using Inr by (cases "validateAppend s ps") (simp_all add: appendBatch_def, blast)
qed

section \<open>The invariant is kept\<close>

lemma validateAppendStep_starts:
  assumes "step_ok s e"
  shows "ae_kind e = EvRunStart \<longrightarrow> ae_runID e \<notin> set (se_runStarts s)"
    and "ae_kind e = EvRunResume \<longrightarrow> ae_runID e \<in> set (se_runStarts s)"
  using assms by (auto simp: validateAppendStep_def Let_def split: if_splits)

lemma session_ok_commit:
  assumes "session_ok s" "entry_fits e" "step_ok s e" "int (length (se_events s)) + 1 \<le> eventCap s"
  shows "session_ok (commit clock s e)"
proof -
  obtain st' where "validateAppendStep s ([], []) e = Inr st'" using assms(3) by (auto simp: is_ok_iff)
  moreover have "batch_rel s ([], []) s" using assms(1) by (intro batch_rel_refl) (simp add: session_ok_def)
  ultimately have "batch_rel s st' (commit clock s e)" using batch_step[of s "([], [])" s e clock] assms(2) by simp
  then have "\<forall>r. usage_ok (ri_usage (run_entry (commit clock s e) r))" by (simp add: batch_rel_def)
  moreover have "log_ok (se_events (commit clock s e))"
    using assms(1) validateAppendStep_starts[OF assms(3)]
    by (auto simp: commitEntry_simps(2) log_ok_snoc session_ok_def)
  moreover have "list_all event_fits (se_events (commit clock s e))"
    using assms(1,2) by (simp add: commitEntry_simps(2) session_ok_def event_fits_def entry_fits_def)
  moreover have "eventCap (commit clock s e) = eventCap s" by (simp add: eventCap_def commitEntry_simps(5))
  ultimately show ?thesis
    using assms(1,4) unfolding session_ok_def
    by (auto simp: commitEntry_simps(2,3,6) started_runs_snoc)
qed

lemma session_ok_commits:
  assumes "session_ok s" "list_all entry_fits ps" "steps_ok clock s ps"
    "int (length (se_events s)) + int (length ps) \<le> eventCap s"
  shows "session_ok (fold (\<lambda>e s. commit clock s e) ps s)"
  using assms
proof (induction ps arbitrary: s)
  case (Cons e ps)
  have "session_ok (commit clock s e)" using Cons.prems by (intro session_ok_commit) auto
  moreover have "eventCap (commit clock s e) = eventCap s" by (simp add: eventCap_def commitEntry_simps(5))
  ultimately show ?case using Cons.prems Cons.IH[of "commit clock s e"] by (simp add: commitEntry_simps(2))
qed simp

text \<open>Appending the entries one by one.\<close>

definition appendSeq :: "(nat \<Rightarrow> gotime) \<Rightarrow> session \<Rightarrow> (string \<times> append_data) list \<Rightarrow> session_error + session" where
  "appendSeq clock s entries =
     foldr_err (\<lambda>s (runID, data). rbind (appendEvent clock s runID data) (\<lambda>(_, s'). Inr s')) s entries"

lemma appendEvent_eq:
  assumes "\<forall>r. usage_ok (ri_usage (run_entry s r))"
  shows "appendEvent clock s runID data = Inr (ev, s') \<longleftrightarrow>
    (\<exists>p. prepareEntry (runID, data) = Inr p \<and> int (length (se_events s)) + 1 \<le> eventCap s \<and> step_ok s p
      \<and> ev = event_of clock s p \<and> s' = commit clock s p)"
proof -
  have "commitAll clock s [p] = ([event_of clock s p], commit clock s p)" for p
    by (simp add: commitAll_def split_beta commitEntry_simps(1))
  then have b: "appendBatch clock s [(runID, data)] = Inr (evs, t) \<longleftrightarrow>
      (\<exists>p. prepareEntry (runID, data) = Inr p \<and> int (length (se_events s)) + 1 \<le> eventCap s \<and> step_ok s p
        \<and> evs = [event_of clock s p] \<and> t = commit clock s p)" for evs t
    unfolding appendBatch_eq[OF assms] by (auto simp: list_all2_Cons1)
  have e: "appendEvent clock s runID data = Inr (ev, s') \<longleftrightarrow>
      (\<exists>evs. appendBatch clock s [(runID, data)] = Inr (evs, s') \<and> ev = hd evs)"
    by (cases "appendBatch clock s [(runID, data)]") (auto simp: appendEvent_def)
  show ?thesis unfolding e b by auto
qed

lemma list_all2_Cons_ex:
  "(\<exists>qs. list_all2 R (x # xs) qs \<and> Q qs) \<longleftrightarrow> (\<exists>p ps. R x p \<and> list_all2 R xs ps \<and> Q (p # ps))"
  by (auto simp: list_all2_Cons1)

lemma appendSeq_eq:
  assumes "session_ok s"
  shows "appendSeq clock s entries = Inr s' \<longleftrightarrow>
    (\<exists>ps. list_all2 (\<lambda>x p. prepareEntry x = Inr p) entries ps
      \<and> (entries \<noteq> [] \<longrightarrow> int (length (se_events s)) + int (length ps) \<le> eventCap s) \<and> steps_ok clock s ps
      \<and> s' = fold (\<lambda>e s. commit clock s e) ps s)"
  using assms
proof (induction entries arbitrary: s)
  case Nil
  then show ?case by (auto simp: appendSeq_def)
next
  case (Cons x xs)
  obtain r d where x: "x = (r, d)" by force
  have u: "\<forall>r. usage_ok (ri_usage (run_entry s r))" using Cons.prems by (simp add: session_ok_def)
  have cap: "eventCap (commit clock s p) = eventCap s" for p by (simp add: eventCap_def commitEntry_simps(5))
  have "appendSeq clock s (x # xs) = Inr s' \<longleftrightarrow> (\<exists>ev t. appendEvent clock s r d = Inr (ev, t) \<and> appendSeq clock t xs = Inr s')"
    by (cases "appendEvent clock s r d") (auto simp: appendSeq_def x)
  also have "\<dots> \<longleftrightarrow> (\<exists>p. prepareEntry x = Inr p \<and> int (length (se_events s)) + 1 \<le> eventCap s \<and> step_ok s p
        \<and> appendSeq clock (commit clock s p) xs = Inr s')"
    unfolding appendEvent_eq[OF u] x by blast
  also have "\<dots> \<longleftrightarrow> (\<exists>p ps. prepareEntry x = Inr p \<and> list_all2 (\<lambda>x p. prepareEntry x = Inr p) xs ps
      \<and> int (length (se_events s)) + int (length (p # ps)) \<le> eventCap s \<and> step_ok s p
      \<and> steps_ok clock (commit clock s p) ps \<and> s' = fold (\<lambda>e s. commit clock s e) ps (commit clock s p))"
  proof (rule ex_cong1)
    fix p
    show "(prepareEntry x = Inr p \<and> int (length (se_events s)) + 1 \<le> eventCap s \<and> step_ok s p
        \<and> appendSeq clock (commit clock s p) xs = Inr s')
      \<longleftrightarrow> (\<exists>ps. prepareEntry x = Inr p \<and> list_all2 (\<lambda>x p. prepareEntry x = Inr p) xs ps
      \<and> int (length (se_events s)) + int (length (p # ps)) \<le> eventCap s \<and> step_ok s p
      \<and> steps_ok clock (commit clock s p) ps \<and> s' = fold (\<lambda>e s. commit clock s e) ps (commit clock s p))"
    proof (cases "prepareEntry x = Inr p \<and> int (length (se_events s)) + 1 \<le> eventCap s \<and> step_ok s p")
      case True
      have "session_ok (commit clock s p)"
        using True session_ok_commit[OF Cons.prems prepareEntry_fits, of x p] by blast
      then have "appendSeq clock (commit clock s p) xs = Inr s' \<longleftrightarrow>
          (\<exists>ps. list_all2 (\<lambda>x p. prepareEntry x = Inr p) xs ps \<and> int (length (se_events s)) + int (length (p # ps)) \<le> eventCap s
            \<and> steps_ok clock (commit clock s p) ps \<and> s' = fold (\<lambda>e s. commit clock s e) ps (commit clock s p))"
        unfolding Cons.IH[OF \<open>session_ok (commit clock s p)\<close>]
        by (intro ex_cong1 conj_cong refl) (use True in \<open>cases xs; auto simp: cap commitEntry_simps(2)\<close>)
      with True show ?thesis by blast
    qed auto
  qed
  finally show ?case unfolding list_all2_Cons_ex by simp
qed

text \<open>C25: A batch append is atomic and order-preserving: it succeeds exactly when appending its entries one
  after the other succeeds, and then leaves the same session; on an error nothing is stored.\<close>
theorem batch_equals_sequence:
  assumes "session_ok s" "entries \<noteq> []"
  shows "(\<exists>evs. appendBatch clock s entries = Inr (evs, s')) \<longleftrightarrow> appendSeq clock s entries = Inr s'"
proof -
  have u: "\<forall>r. usage_ok (ri_usage (run_entry s r))" using assms(1) by (simp add: session_ok_def)
  have c: "(\<exists>evs. commitAll clock s ps = (evs, s')) \<longleftrightarrow> s' = fold (\<lambda>e s. commit clock s e) ps s" for ps
    using commitAll_eq[of clock s ps] by (cases "commitAll clock s ps") auto
  show ?thesis
    unfolding appendBatch_eq[OF u] appendSeq_eq[OF assms(1)] using assms(2) c by blast
qed

text \<open>What an accepted append does, with the committed entries.\<close>

lemma append_committed:
  assumes "session_ok s" "appendBatch clock s entries = Inr (evs, s')"
  obtains ps where "list_all2 (\<lambda>x p. prepareEntry x = Inr p) entries ps" "s' = fold (\<lambda>e s. commit clock s e) ps s"
    "session_ok s'" "se_events s' = se_events s @ evs"
    "map (\<lambda>e. (ev_runID e, ev_type e)) evs = map (\<lambda>(runID, data). (runID, append_kind data)) entries"
proof -
  have u: "\<forall>r. usage_ok (ri_usage (run_entry s r))" using assms(1) by (simp add: session_ok_def)
  from assms(2)[unfolded appendBatch_eq[OF u]] obtain ps where
    ps: "list_all2 (\<lambda>x p. prepareEntry x = Inr p) entries ps" "int (length (se_events s)) + int (length ps) \<le> eventCap s"
      "steps_ok clock s ps" "commitAll clock s ps = (evs, s')" by blast
  have s': "s' = fold (\<lambda>e s. commit clock s e) ps s" "se_events s' = se_events s @ evs"
    "map (\<lambda>e. (ev_runID e, ev_type e)) evs = map (\<lambda>e. (ae_runID e, ae_kind e)) ps"
    using commitAll_eq[of clock s ps] ps(4) by auto
  have "session_ok s'"
    unfolding s'(1) using session_ok_commits[OF assms(1) prepare_all_fits[OF ps(1)] ps(3,2)] .
  moreover have "ae_runID p = fst x \<and> ae_kind p = append_kind (snd x)" if "prepareEntry x = Inr p" for x p
    using that by (cases x) (auto simp: prepareEntry_def Let_def split: if_splits option.splits)
  with ps(1) have "map (\<lambda>e. (ae_runID e, ae_kind e)) ps = map (\<lambda>(runID, data). (runID, append_kind data)) entries"
    by (induction rule: list_all2_induct) (auto simp: split_beta)
  ultimately show thesis using that ps(1) s' by simp
qed


section \<open>Restoring a log\<close>

definition restored :: "session \<Rightarrow> session_event \<Rightarrow> session" where
  "restored s ev = s\<lparr> se_events := se_events s @ [ev], se_runIndex := indexEvent ev None (se_runIndex s),
     se_summaryEvents := se_summaryEvents s + (if ev_type ev = EvContextSummary then 1 else 0),
     se_runStarts := (if ev_type ev = EvRunStart then insert_id (ev_runID ev) (se_runStarts s) else se_runStarts s) \<rparr>"

lemma restored_simps [simp]:
  "se_events (restored s ev) = se_events s @ [ev]" "se_runIndex (restored s ev) = indexEvent ev None (se_runIndex s)"
  "se_runStarts (restored s ev) = (if ev_type ev = EvRunStart then insert_id (ev_runID ev) (se_runStarts s) else se_runStarts s)"
  "se_summaryEvents (restored s ev) = se_summaryEvents s + (if ev_type ev = EvContextSummary then 1 else 0)"
  "eventCap (restored s ev) = eventCap s" "session_options_of (restored s ev) = session_options_of s"
  "se_projValid (restored s ev) = se_projValid s" "se_projCount (restored s ev) = se_projCount s"
  "se_maxEvents (restored s ev) = se_maxEvents s"
  by (simp_all add: restored_def eventCap_def session_options_of_def)

lemma stored_entry_simps [simp]:
  "ae_runID (stored_entry ev) = ev_runID ev" "ae_kind (stored_entry ev) = ev_type ev"
  "ae_typed (stored_entry ev) = None" "ae_raw (stored_entry ev) = ev_data ev"
  by (simp_all add: stored_entry_def)

lemma restoreStep_eq:
  "restoreStep s (i, ev) = Inr s' \<longleftrightarrow> ev_seq ev = int i \<and> validateSessionEvent ev = None
     \<and> int (length (se_events s)) + 1 \<le> eventCap s \<and> step_ok s (stored_entry ev) \<and> s' = restored s ev"
proof (cases "step_ok s (stored_entry ev)")
  case True
  then obtain st where "validateAppendStep s ([], []) (stored_entry ev) = Inr st" by (auto simp: is_ok_iff)
  with validateAppendStep_starts[OF True] show ?thesis
    by (auto simp: restoreStep_def validateAppend_def restored_def Let_def split: option.splits)
next
  case False
  then obtain e where "validateAppendStep s ([], []) (stored_entry ev) = Inl e"
    by (cases "validateAppendStep s ([], []) (stored_entry ev)") auto
  with False show ?thesis by (auto simp: restoreStep_def validateAppend_def split: option.splits if_splits)
qed

text \<open>Replaying a log from position \<open>i\<close>.\<close>

fun replay_ok :: "session \<Rightarrow> nat \<Rightarrow> session_event list \<Rightarrow> bool" where
  "replay_ok s i [] = True"
| "replay_ok s i (ev # evs) = (ev_seq ev = int i \<and> validateSessionEvent ev = None
     \<and> int (length (se_events s)) + 1 \<le> eventCap s \<and> step_ok s (stored_entry ev) \<and> replay_ok (restored s ev) (Suc i) evs)"

lemma replay_eq:
  "foldr_err restoreStep s (enumerate i evs) = Inr s' \<longleftrightarrow> replay_ok s i evs \<and> s' = fold (\<lambda>ev s. restored s ev) evs s"
proof (induction evs arbitrary: s i)
  case (Cons ev evs)
  have "foldr_err restoreStep s (enumerate i (ev # evs)) = Inr s' \<longleftrightarrow>
      (\<exists>t. restoreStep s (i, ev) = Inr t \<and> foldr_err restoreStep t (enumerate (Suc i) evs) = Inr s')"
    by (cases "restoreStep s (i, ev)") auto
  then show ?case unfolding restoreStep_eq Cons.IH by auto
qed auto

lemma replay_ok_snoc:
  "replay_ok s i (evs @ [ev]) \<longleftrightarrow> replay_ok s i evs
     \<and> (let t = fold (\<lambda>ev s. restored s ev) evs s in ev_seq ev = int (i + length evs) \<and> validateSessionEvent ev = None
        \<and> int (length (se_events t)) + 1 \<le> eventCap t \<and> step_ok t (stored_entry ev))"
  by (induction evs arbitrary: s i) (auto simp: Let_def)

lemma step_ok_cong:
  "se_runStarts s = se_runStarts t \<Longrightarrow> se_runIndex s = se_runIndex t \<Longrightarrow> step_ok s e = step_ok t e"
  by (simp add: validateAppendStep_def validateRunUsage_def split_beta Let_def cong: option.case_cong event_data.case_cong)

lemma validateAppendStep_cong:
  "ae_runID e = ae_runID f \<Longrightarrow> ae_kind e = ae_kind f
    \<Longrightarrow> eventData (ae_typed e) (ae_kind e) (ae_raw e) = eventData (ae_typed f) (ae_kind f) (ae_raw f)
    \<Longrightarrow> validateAppendStep s st e = validateAppendStep s st f"
  by (simp only: validateAppendStep_def)

lemma entry_fits_stored:
  assumes "validateSessionEvent ev = None"
  shows "entry_fits (stored_entry ev)"
  using assms by (auto simp: entry_fits_def validateSessionEvent_def split: if_splits)

lemma commit_restored:
  assumes "ev = event_of clock s (stored_entry ev)"
  shows "se_events (commit clock s (stored_entry ev)) = se_events (restored s ev)"
    "se_runIndex (commit clock s (stored_entry ev)) = se_runIndex (restored s ev)"
    "se_runStarts (commit clock s (stored_entry ev)) = se_runStarts (restored s ev)"
    "se_summaryEvents (commit clock s (stored_entry ev)) = se_summaryEvents (restored s ev)"
    "eventCap (commit clock s (stored_entry ev)) = eventCap (restored s ev)"
  using assms by (simp_all add: commitEntry_simps eventCap_def)

lemma session_ok_cong:
  assumes "se_events s = se_events t" "se_runIndex s = se_runIndex t" "se_runStarts s = se_runStarts t"
    "se_summaryEvents s = se_summaryEvents t" "eventCap s = eventCap t"
  shows "session_ok s = session_ok t"
  using assms by (simp add: session_ok_def)

lemma session_ok_restored:
  assumes "session_ok s" "ev_seq ev = int (length (se_events s))" "validateSessionEvent ev = None"
    "int (length (se_events s)) + 1 \<le> eventCap s" "step_ok s (stored_entry ev)"
  shows "session_ok (restored s ev)"
proof -
  define clock where "clock = (\<lambda>_ :: nat. ev_time ev)"
  have ev: "ev = event_of clock s (stored_entry ev)" using assms(2) by (simp add: event_of_def clock_def)
  have "session_ok (commit clock s (stored_entry ev))"
    using session_ok_commit[OF assms(1) entry_fits_stored[OF assms(3)] assms(5,4)] .
  with session_ok_cong[OF commit_restored[OF ev]] show ?thesis by simp
qed

lemma replay_session_ok:
  "session_ok s \<Longrightarrow> replay_ok s (length (se_events s)) evs \<Longrightarrow> session_ok (fold (\<lambda>ev s. restored s ev) evs s)"
proof (induction evs arbitrary: s)
  case (Cons ev evs)
  then have "session_ok (restored s ev)" by (intro session_ok_restored) auto
  with Cons show ?case by simp
qed simp

lemma replay_simps:
  "se_events (fold (\<lambda>ev s. restored s ev) evs s) = se_events s @ evs"
  "se_runIndex (fold (\<lambda>ev s. restored s ev) evs s) = fold (\<lambda>ev. indexEvent ev None) evs (se_runIndex s)"
  "eventCap (fold (\<lambda>ev s. restored s ev) evs s) = eventCap s"
  "session_options_of (fold (\<lambda>ev s. restored s ev) evs s) = session_options_of s"
  "se_maxEvents (fold (\<lambda>ev s. restored s ev) evs s) = se_maxEvents s"
  by (induction evs arbitrary: s) simp_all

lemma newSession_fields:
  assumes "newSession opts = Inr s"
  shows "se_events s = []" "se_runIndex s = []" "se_runStarts s = []" "se_summaryEvents s = 0" "se_maxEvents s = 0"
    "se_projValid s" "se_projCount s = 0" "se_projSummaries s = 0" "se_projCache s = []"
  using assms by (auto simp: newSession_def split: if_splits)

lemma session_ok_new: "newSession opts = Inr s \<Longrightarrow> session_ok s"
  by (simp add: session_ok_def newSession_fields log_ok_def started_runs_def eventCap_def MaxSessionEvents_def mget_def)

lemma eventCap_new: "newSession opts = Inr s \<Longrightarrow> eventCap s = MaxSessionEvents"
  by (simp add: newSession_fields eventCap_def)

lemma session_ok_projValid: "session_ok (s\<lparr> se_projValid := b \<rparr>) = session_ok s"
  by (rule session_ok_cong) (simp_all add: eventCap_def)

lemma restoreSession_eq:
  "restoreSession opts evs = Inr s' \<longleftrightarrow>
    (\<exists>s. newSession opts = Inr s \<and> int (length evs) \<le> MaxSessionEvents
      \<and> replay_ok (s\<lparr> se_projValid := (evs = []) \<rparr>) 0 evs
      \<and> s' = fold (\<lambda>ev s. restored s ev) evs (s\<lparr> se_projValid := (evs = []) \<rparr>))"
  by (cases "newSession opts") (auto simp: restoreSession_def replay_eq eventCap_new)

section \<open>Clone\<close>

lemma clonePermissions_idem: "clonePermissions (clonePermissions g) = clonePermissions g"
proof -
  let ?step = "\<lambda>(p, allowed) out. if allowed then mput p True out else out"
  have upd: "list_all snd out \<Longrightarrow> list_all snd (mput p True out)" for p and out :: permission_set
    by (induction out) auto
  have "list_all snd out \<Longrightarrow> list_all snd (fold ?step g out)" for out
    by (induction g arbitrary: out) (auto simp: upd)
  then have "\<forall>x \<in> set (clonePermissions g). snd x" by (simp add: clonePermissions_def flip: list_all_iff)
  then have "clonePermissions (clonePermissions g) = fold (\<lambda>(k, v). mput k v) (clonePermissions g) []"
    unfolding clonePermissions_def[of "clonePermissions g"] by (intro fold_cong refl) auto
  then show ?thesis by (simp add: fold_mput_id)
qed

lemma fold_mput_gomap: "gomap_ok (fold (\<lambda>(k, v). mput k v) m [])"
  using fold_mput_ok[of "[]" "\<lambda>_ _. True" "\<lambda>_ v. v" m] by simp

lemma clonePrincipal_idem: "clonePrincipal (clonePrincipal p) = clonePrincipal p"
  by (simp add: clonePrincipal_def clonePermissions_idem fold_mput_id fold_mput_gomap)

lemma newSession_idem: "newSession opts = Inr s \<Longrightarrow> newSession (session_options_of s) = Inr s"
  by (auto simp: newSession_def session_options_of_def clonePrincipal_idem fold_mput_id fold_mput_gomap split: if_splits)

text \<open>
  Entries whose typed payload survives its own encoding unchanged: well-formed strings, no dynamic
  value that JSON changes.
\<close>

fun clean_data :: "append_data \<Rightarrow> bool" where
  "clean_data (Typed d) = (norm_event d = Some d)"
| "clean_data _ = True"

lemma prepare_clean:
  assumes "prepareEntry (r, data) = Inr p" "clean_data data"
  shows "validateSessionEvent (event_of clock s p) = None"
    and "eventData (ae_typed p) (ae_kind p) (ae_raw p) = decoded (ae_kind p) (ae_raw p)"
proof -
  note fits = prepareEntry_fits[OF assms(1)]
  from assms(1) have p: "ae_runID p = r" "ae_kind p = append_kind data" "ae_typed p = append_typed data"
    "marshalPayload data = Inr (ae_raw p)"
    and v: "append_typed data = None \<Longrightarrow> validateSessionEvent
      \<lparr> ev_seq = 0, ev_time = 0, ev_runID = r, ev_type = append_kind data, ev_data = ae_raw p \<rparr> = None"
    and t: "append_typed data = Some d \<Longrightarrow> validateEventData d = None" for d
    by (auto simp: prepareEntry_def Let_def split: if_splits option.splits)
  show "eventData (ae_typed p) (ae_kind p) (ae_raw p) = decoded (ae_kind p) (ae_raw p)"
  proof (cases data)
    case (Typed d)
    with p(4) have "encode_event d = Some (ae_raw p)" by (auto simp: marshalPayload_def split: option.splits if_splits)
    with encode_decoded[OF this] assms(2) Typed show ?thesis by (simp add: p eventData_def)
  qed (simp_all add: p eventData_def)
  then have "decoded (ae_kind p) (ae_raw p) = Some d" if "append_typed data = Some d" for d
    using that p by (simp add: eventData_def)
  then show "validateSessionEvent (event_of clock s p) = None"
    using fits v t p by (cases "append_typed data") (auto simp: validateSessionEvent_def entry_fits_def)
qed

definition same_log :: "session \<Rightarrow> session \<Rightarrow> bool" where
  "same_log s t \<longleftrightarrow> se_events s = se_events t \<and> se_runIndex s = se_runIndex t \<and> se_runStarts s = se_runStarts t
     \<and> se_summaryEvents s = se_summaryEvents t \<and> session_options_of s = session_options_of t \<and> se_maxEvents s = se_maxEvents t"

lemma same_log_commit:
  assumes "same_log s t" "eventData (ae_typed p) (ae_kind p) (ae_raw p) = decoded (ae_kind p) (ae_raw p)"
  shows "same_log (commit clock s p) (restored t (event_of clock s p))"
proof -
  have "indexEvent (event_of clock s p) (ae_typed p) idx = indexEvent (event_of clock s p) None idx" for idx
    using assms(2) by (simp add: indexEvent_def eventData_def[of None] Let_def cong: if_cong option.case_cong)
  with assms(1) show ?thesis by (simp add: same_log_def commitEntry_simps)
qed

text \<open>A replay from a fresh session reproduces \<open>s\<close>.\<close>

definition reproducible :: "session_options \<Rightarrow> session \<Rightarrow> bool" where
  "reproducible opts s \<longleftrightarrow> (\<exists>s0. newSession opts = Inr s0 \<and> (\<forall>b. replay_ok (s0\<lparr> se_projValid := b \<rparr>) 0 (se_events s)
     \<and> same_log s (fold (\<lambda>ev s. restored s ev) (se_events s) (s0\<lparr> se_projValid := b \<rparr>))))"

lemma reproducible_commit:
  assumes "reproducible opts s" "prepareEntry (r, data) = Inr p" "clean_data data" "step_ok s p"
    "int (length (se_events s)) + 1 \<le> eventCap s"
  shows "reproducible opts (commit clock s p)"
proof -
  from assms(1) obtain s0 where s0: "newSession opts = Inr s0"
    and rep: "\<And>b. replay_ok (s0\<lparr> se_projValid := b \<rparr>) 0 (se_events s)"
    and same: "\<And>b. same_log s (fold (\<lambda>ev s. restored s ev) (se_events s) (s0\<lparr> se_projValid := b \<rparr>))"
    unfolding reproducible_def by blast
  let ?ev = "event_of clock s p"
  note clean = prepare_clean[OF assms(2,3)]
  have "replay_ok (s0\<lparr> se_projValid := b \<rparr>) 0 (se_events s @ [?ev])" for b
  proof -
    let ?t = "fold (\<lambda>ev s. restored s ev) (se_events s) (s0\<lparr> se_projValid := b \<rparr>)"
    have "validateAppendStep s ([], []) (stored_entry ?ev) = validateAppendStep s ([], []) p"
      using clean(2) by (intro validateAppendStep_cong) (simp_all add: eventData_def[of None])
    then have "step_ok ?t (stored_entry ?ev)"
      using assms(4) step_ok_cong[of ?t s "stored_entry ?ev"] same[of b] by (simp add: same_log_def)
    moreover have "eventCap ?t = eventCap s" "se_events ?t = se_events s" using same[of b] by (simp_all add: same_log_def eventCap_def)
    ultimately show ?thesis using rep[of b] clean(1) assms(5) by (simp add: replay_ok_snoc Let_def)
  qed
  moreover have "same_log (commit clock s p) (fold (\<lambda>ev s. restored s ev) (se_events s @ [?ev]) (s0\<lparr> se_projValid := b \<rparr>))" for b
    using same_log_commit[OF same[of b] clean(2)] by simp
  ultimately show ?thesis
    unfolding reproducible_def using s0 by (auto simp: commitEntry_simps(2))
qed

text \<open>Sessions built by the program with clean payloads.\<close>

inductive built :: "session_options \<Rightarrow> session \<Rightarrow> bool" where
  built_new: "newSession opts = Inr s \<Longrightarrow> built opts s"
| built_append: "built opts s \<Longrightarrow> list_all (clean_data \<circ> snd) entries
    \<Longrightarrow> appendBatch clock s entries = Inr (evs, s') \<Longrightarrow> built opts s'"

lemma reproducible_commits:
  assumes "reproducible opts s" "session_ok s" "list_all2 (\<lambda>x p. prepareEntry x = Inr p) entries ps"
    "list_all (clean_data \<circ> snd) entries" "steps_ok clock s ps" "int (length (se_events s)) + int (length ps) \<le> eventCap s"
  shows "reproducible opts (fold (\<lambda>e s. commit clock s e) ps s)"
  using assms
proof (induction ps arbitrary: s entries)
  case (Cons p ps)
  then obtain r data xs where e: "entries = (r, data) # xs" "prepareEntry (r, data) = Inr p"
    by (auto simp: list_all2_Cons2)
  have "reproducible opts (commit clock s p)" using Cons.prems e by (intro reproducible_commit[OF _ e(2)]) auto
  moreover have "session_ok (commit clock s p)" using Cons.prems prepareEntry_fits[OF e(2)] by (intro session_ok_commit) auto
  moreover have "eventCap (commit clock s p) = eventCap s" by (simp add: eventCap_def commitEntry_simps(5))
  ultimately show ?case using Cons.prems e(1) Cons.IH[of "commit clock s p" xs] by (simp add: commitEntry_simps(2))
qed simp

lemma built_reproducible: "built opts s \<Longrightarrow> reproducible opts s \<and> session_ok s"
proof (induction rule: built.induct)
  case (built_new opts s)
  then show ?case
    by (auto simp: reproducible_def session_ok_new newSession_fields same_log_def session_options_of_def)
next
  case (built_append opts s entries clock evs s')
  then have u: "\<forall>r. usage_ok (ri_usage (run_entry s r))" by (simp add: session_ok_def)
  from built_append(3)[unfolded appendBatch_eq[OF u]] obtain ps where
    ps: "list_all2 (\<lambda>x p. prepareEntry x = Inr p) entries ps" "int (length (se_events s)) + int (length ps) \<le> eventCap s"
      "steps_ok clock s ps" "commitAll clock s ps = (evs, s')" by blast
  have s': "s' = fold (\<lambda>e s. commit clock s e) ps s" using commitAll_eq[of clock s ps] ps(4) by auto
  show ?case
    unfolding s' using built_append reproducible_commits[OF _ _ ps(1) _ ps(3,2)]
      session_ok_commits[OF _ prepare_all_fits[OF ps(1)] ps(3,2)] by blast
qed

lemma reproducible_clone:
  assumes "reproducible opts s" "session_ok s"
  shows "\<exists>s'. cloneSession s = Inr s' \<and> same_log s' s"
proof -
  from assms(1) obtain s0 where s0: "newSession opts = Inr s0"
    and rep: "\<And>b. replay_ok (s0\<lparr> se_projValid := b \<rparr>) 0 (se_events s)"
    and same: "\<And>b. same_log s (fold (\<lambda>ev s. restored s ev) (se_events s) (s0\<lparr> se_projValid := b \<rparr>))"
    unfolding reproducible_def by blast
  have "session_options_of (s0\<lparr> se_projValid := True \<rparr>) = session_options_of s0" by (simp add: session_options_of_def)
  then have opts: "session_options_of s = session_options_of s0" "eventCap s = MaxSessionEvents"
    using same[of True] newSession_fields(5)[OF s0] by (simp_all add: same_log_def replay_simps(4,5) eventCap_def)
  have "int (length (se_events s)) \<le> MaxSessionEvents" using assms(2) opts(2) by (simp add: session_ok_def)
  then have "cloneSession s = Inr (fold (\<lambda>ev s. restored s ev) (se_events s) (s0\<lparr> se_projValid := (se_events s = []) \<rparr>))"
    unfolding cloneSession_def restoreSession_eq opts(1) using newSession_idem[OF s0] rep by blast
  with same show ?thesis by (auto simp: same_log_def)
qed

text \<open>C26: Storing and reloading is lossless: a session built by clean appends can always be cloned through
  its event log, and the clone has the same identity, events, started runs and per-run indexes.\<close>
theorem clone_roundtrip:
  assumes "built opts s"
  shows "\<exists>s'. cloneSession s = Inr s' \<and> se_events s' = se_events s \<and> se_runIndex s' = se_runIndex s
    \<and> se_runStarts s' = se_runStarts s \<and> session_options_of s' = session_options_of s"
  using built_reproducible[OF assms] reproducible_clone by (auto simp: same_log_def)

end
