(* ===== verification/Session_Index.thy ===== *)
theory Session_Index
  imports Session_Log
begin

text \<open>
  The per-run index refines a plain reading of the log: statuses, open approvals, tool results and
  token totals that the code maintains incrementally are what one finds by scanning the events of the
  run.
\<close>

section \<open>Reading the log\<close>

definition event_payload :: "session_event \<Rightarrow> event_data option" where
  "event_payload e = decoded (ev_type e) (ev_data e)"

text \<open>The payloads of one run, oldest first.\<close>

definition run_data :: "string \<Rightarrow> session_event list \<Rightarrow> event_data list" where
  "run_data r evs = List.map_filter event_payload (filter (\<lambda>e. ev_runID e = r) evs)"

definition run_ends :: "string \<Rightarrow> session_event list \<Rightarrow> run_status list" where
  "run_ends r evs = List.map_filter (\<lambda>d. case d of DRunEnd s \<Rightarrow> Some s | _ \<Rightarrow> None) (run_data r evs)"

definition run_usages :: "string \<Rightarrow> session_event list \<Rightarrow> run_usage_data list" where
  "run_usages r evs = List.map_filter (\<lambda>d. case d of DRunUsage u \<Rightarrow> Some u | _ \<Rightarrow> None) (run_data r evs)"

definition requests :: "string \<Rightarrow> string \<Rightarrow> session_event \<Rightarrow> bool" where
  "requests r a e \<longleftrightarrow> ev_runID e = r \<and> (case event_payload e of Some (DApprovalRequested d) \<Rightarrow> aq_approvalID d = a | _ \<Rightarrow> False)"

definition resolves :: "string \<Rightarrow> string \<Rightarrow> session_event \<Rightarrow> bool" where
  "resolves r a e \<longleftrightarrow> ev_runID e = r \<and> (case event_payload e of Some (DApprovalResolved d) \<Rightarrow> av_approvalID d = a | _ \<Rightarrow> False)"

text \<open>Event \<open>i\<close> is the last word on approval \<open>a\<close>, and it is a request.\<close>

definition open_request :: "string \<Rightarrow> session_event list \<Rightarrow> string \<Rightarrow> nat \<Rightarrow> bool" where
  "open_request r evs a i \<longleftrightarrow> i < length evs \<and> requests r a (evs ! i)
     \<and> (\<forall>j. i < j \<and> j < length evs \<longrightarrow> \<not> requests r a (evs ! j) \<and> \<not> resolves r a (evs ! j))"

section \<open>The index of a log\<close>

definition log_entry :: "string \<Rightarrow> session_event list \<Rightarrow> run_index_entry" where
  "log_entry r evs = mget emptyEntry (fold (\<lambda>ev. indexEvent ev None) evs []) r"

lemma log_entry_Nil [simp]: "log_entry r [] = emptyEntry"
  by (simp add: log_entry_def mget_def)

lemma log_entry_snoc:
  "log_entry r (evs @ [e]) = (if r = ev_runID e then entryStep e None (log_entry r evs) else log_entry r evs)"
  by (simp add: log_entry_def mget_indexEvent)

lemma entryStep_payload:
  "entryStep e None x = (if ev_type e = EvRunStart then x\<lparr> ri_started := True, ri_status := [] \<rparr>
     else case event_payload e of None \<Rightarrow> x | Some d \<Rightarrow> indexData (ev_seq e) d x)"
  by (simp add: entryStep_def eventData_def event_payload_def)

lemma event_payload_kind: "event_payload e = Some d \<Longrightarrow> kind_of d = ev_type e"
  by (simp add: event_payload_def decoded_kind)

lemma map_filter_snoc: "List.map_filter f (xs @ [x]) = List.map_filter f xs @ (case f x of None \<Rightarrow> [] | Some y \<Rightarrow> [y])"
  by (induction xs) (auto simp: map_filter_simps split: option.split)

lemma run_data_snoc:
  "run_data r (evs @ [e]) = run_data r evs @ (if ev_runID e = r then (case event_payload e of None \<Rightarrow> [] | Some d \<Rightarrow> [d]) else [])"
  by (simp add: run_data_def map_filter_snoc)

lemma run_ends_snoc:
  "run_ends r (evs @ [e]) = run_ends r evs
     @ (if ev_runID e = r then (case event_payload e of Some (DRunEnd s) \<Rightarrow> [s] | _ \<Rightarrow> []) else [])"
  by (auto simp: run_ends_def run_data_snoc map_filter_snoc split: option.split event_data.split)

lemma run_usages_snoc:
  "run_usages r (evs @ [e]) = run_usages r evs
     @ (if ev_runID e = r then (case event_payload e of Some (DRunUsage u) \<Rightarrow> [u] | _ \<Rightarrow> []) else [])"
  by (auto simp: run_usages_def run_data_snoc map_filter_snoc split: option.split event_data.split)

lemma log_entry_ended: "ri_ended (log_entry r evs) \<longleftrightarrow> run_ends r evs \<noteq> []"
proof (induction evs rule: rev_induct)
  case (snoc e evs)
  have "event_payload e = Some (DRunEnd st) \<Longrightarrow> ev_type e \<noteq> EvRunStart" for st
    using event_payload_kind by fastforce
  moreover have "ri_ended (indexData q d x) \<longleftrightarrow> ri_ended x \<or> (\<exists>st. d = DRunEnd st)" for q d x
    by (cases d) auto
  ultimately show ?case
    using snoc by (auto simp: log_entry_snoc run_ends_snoc entryStep_payload split: option.split event_data.split)
qed (simp add: run_ends_def run_data_def map_filter_simps)

lemma log_entry_started: "ri_started (log_entry r evs) \<longleftrightarrow> r \<in> started_runs evs"
proof (induction evs rule: rev_induct)
  case (snoc e evs)
  have "ri_started (indexData q d x) \<longleftrightarrow> ri_started x" if "kind_of d \<noteq> EvRunStart" for q d x
    using that by (cases d) auto
  with snoc show ?case
    using event_payload_kind[of e] by (auto simp: log_entry_snoc started_runs_snoc entryStep_payload split: option.split)
qed (simp add: started_runs_def)

text \<open>A run whose start comes before any of its ends, as the loop always writes it.\<close>

definition ends_after_start :: "string \<Rightarrow> session_event list \<Rightarrow> bool" where
  "ends_after_start r evs \<longleftrightarrow>
     (\<forall>i < length evs. ev_runID (evs ! i) = r \<and> ev_type (evs ! i) = EvRunStart \<longrightarrow> run_ends r (take i evs) = [])"

lemma ends_after_start_snoc:
  "ends_after_start r (evs @ [e]) \<longleftrightarrow> ends_after_start r evs
     \<and> (ev_runID e = r \<and> ev_type e = EvRunStart \<longrightarrow> run_ends r evs = [])"
  by (auto simp: ends_after_start_def nth_append less_Suc_eq)

lemma log_entry_status:
  "ends_after_start r evs \<Longrightarrow> run_ends r evs \<noteq> [] \<Longrightarrow> ri_status (log_entry r evs) = hd (run_ends r evs)"
proof (induction evs rule: rev_induct)
  case (snoc e evs)
  note ended = log_entry_ended[of r evs]
  have other: "ri_status (indexData q d x) = ri_status x" if "\<forall>st. d \<noteq> DRunEnd st" "kind_of d \<noteq> EvRunStart" for q d x
    using that by (cases d) auto
  show ?case
  proof (cases "ev_runID e = r")
    case True
    show ?thesis
    proof (cases "event_payload e")
      case None
      with snoc True show ?thesis
        by (auto simp: log_entry_snoc run_ends_snoc entryStep_payload ends_after_start_snoc)
    next
      case (Some d)
      then have k: "ev_type e = kind_of d" using event_payload_kind by simp
      show ?thesis
      proof (cases "\<exists>st. d = DRunEnd st")
        case True
        with snoc \<open>ev_runID e = r\<close> Some k ended show ?thesis
          by (auto simp: log_entry_snoc run_ends_snoc entryStep_payload ends_after_start_snoc)
      next
        case False
        then have "run_ends r (evs @ [e]) = run_ends r evs"
          using Some by (auto simp: run_ends_snoc split: event_data.split)
        with snoc \<open>ev_runID e = r\<close> Some k False other[of d] show ?thesis
          by (auto simp: log_entry_snoc entryStep_payload ends_after_start_snoc)
      qed
    qed
  next
    case False
    with snoc show ?thesis by (auto simp: log_entry_snoc run_ends_snoc ends_after_start_snoc)
  qed
qed (simp add: run_ends_def run_data_def map_filter_simps)

section \<open>Open approvals\<close>

lemma open_request_snoc:
  "open_request r (evs @ [e]) a i \<longleftrightarrow>
     (if requests r a e then i = length evs else open_request r evs a i \<and> \<not> resolves r a e)"
proof -
  let ?quiet = "\<lambda>x. \<not> requests r a x \<and> \<not> resolves r a x"
  have last: "(\<forall>j. i < j \<and> j < Suc (length evs) \<longrightarrow> ?quiet ((evs @ [e]) ! j))
      \<longleftrightarrow> (\<forall>j. i < j \<and> j < length evs \<longrightarrow> ?quiet (evs ! j)) \<and> ?quiet e" if "i < length evs"
  proof (intro iffI conjI allI impI)
    assume a: "\<forall>j. i < j \<and> j < Suc (length evs) \<longrightarrow> ?quiet ((evs @ [e]) ! j)"
    from a[rule_format, of "length evs"] that show "\<not> requests r a e" "\<not> resolves r a e" by simp_all
    fix j assume "i < j \<and> j < length evs"
    with a[rule_format, of j] show "\<not> requests r a (evs ! j)" "\<not> resolves r a (evs ! j)" by (simp_all add: nth_append)
  next
    fix j assume "(\<forall>j. i < j \<and> j < length evs \<longrightarrow> ?quiet (evs ! j)) \<and> ?quiet e" "i < j \<and> j < Suc (length evs)"
    then show "\<not> requests r a ((evs @ [e]) ! j)" "\<not> resolves r a ((evs @ [e]) ! j)"
      by (cases "j = length evs"; simp add: nth_append)+
  qed
  consider "i < length evs" | "i = length evs" | "i > length evs" by linarith
  then show ?thesis
    using last by cases (auto simp: open_request_def nth_append requests_def resolves_def split: option.splits event_data.splits)
qed

lemma log_entry_pending:
  "log_ok evs \<Longrightarrow> map_of (ri_pending (log_entry r evs)) a = Some q \<longleftrightarrow> (\<exists>i. open_request r evs a i \<and> q = int i)"
proof (induction evs rule: rev_induct)
  case (snoc e evs)
  have seq: "ev_seq e = int (length evs)" and IH: "map_of (ri_pending (log_entry r evs)) a = Some q \<longleftrightarrow> (\<exists>i. open_request r evs a i \<and> q = int i)"
    using snoc by (auto simp: log_ok_snoc)
  have start: "ev_type e = EvRunStart \<Longrightarrow> \<not> requests r a e \<and> \<not> resolves r a e"
    using event_payload_kind[of e] by (auto simp: requests_def resolves_def split: option.splits event_data.splits)
  have other: "ri_pending (indexData n d x) = ri_pending x"
    if "\<forall>x. d \<noteq> DApprovalRequested x" "\<forall>x. d \<noteq> DApprovalResolved x" for n d x
    using that by (cases d) auto
  show ?case
  proof (cases "ev_runID e = r \<and> ev_type e \<noteq> EvRunStart")
    case False
    then have "map_of (ri_pending (log_entry r (evs @ [e]))) a = map_of (ri_pending (log_entry r evs)) a"
      by (auto simp: log_entry_snoc entryStep_payload)
    moreover have "\<not> requests r a e \<and> \<not> resolves r a e"
      using False start by (auto simp: requests_def resolves_def)
    ultimately show ?thesis using IH by (simp add: open_request_snoc)
  next
    case True
    show ?thesis
    proof (cases "event_payload e")
      case None
      with True IH show ?thesis
        by (simp add: log_entry_snoc entryStep_payload open_request_snoc requests_def resolves_def)
    next
      case (Some d)
      with True IH seq other[of d] show ?thesis
        by (cases d) (auto simp: log_entry_snoc entryStep_payload open_request_snoc requests_def resolves_def)
    qed
  qed
qed (simp add: open_request_def)

lemma ri_pending_empty: "log_ok evs \<Longrightarrow> ri_pending (log_entry r evs) = [] \<longleftrightarrow> (\<forall>a i. \<not> open_request r evs a i)"
proof -
  assume ok: "log_ok evs"
  have "ri_pending (log_entry r evs) = [] \<longleftrightarrow> (\<forall>a. map_of (ri_pending (log_entry r evs)) a = None)"
    by (cases "ri_pending (log_entry r evs)") auto
  then show ?thesis using log_entry_pending[OF ok, of r] by (metis not_None_eq option.distinct(1))
qed

section \<open>Replayed sessions\<close>

lemma restore_facts:
  assumes "restoreSession opts evs = Inr s"
  shows "se_events s = evs" "session_ok s" "run_entry s r = log_entry r evs" "log_ok evs"
proof -
  from assms obtain s0 where s0: "newSession opts = Inr s0" "replay_ok (s0\<lparr> se_projValid := (evs = []) \<rparr>) 0 evs"
    and s: "s = fold (\<lambda>ev s. restored s ev) evs (s0\<lparr> se_projValid := (evs = []) \<rparr>)"
    unfolding restoreSession_eq by blast
  show ev: "se_events s = evs" by (simp add: s replay_simps newSession_fields[OF s0(1)])
  show "run_entry s r = log_entry r evs" by (simp add: s replay_simps newSession_fields[OF s0(1)] log_entry_def)
  show "session_ok s"
    unfolding s using s0 by (intro replay_session_ok) (simp_all add: session_ok_projValid session_ok_new newSession_fields)
  then show "log_ok evs" by (simp add: session_ok_def ev)
qed

lemma runStatus_entry:
  "runStatus s r = (if \<not> validateRunID r then ([], False)
     else let e = run_entry s r in
       if ri_ended e then (ri_status e, True) else if ri_pending e \<noteq> [] then (RunWaitingApproval, True) else ([], ri_started e))"
  by (simp add: runStatus_def mget_def Let_def split: option.split)


section \<open>Token totals\<close>

definition usage_sum :: "run_usage_data list \<Rightarrow> token_usage" where
  "usage_sum us = \<lparr> tu_input = sum_list (map ru_input us), tu_output = sum_list (map ru_output us) \<rparr>"

definition invocations :: "run_usage_data list \<Rightarrow> string list" where
  "invocations us = filter (\<lambda>i. i \<noteq> []) (map ru_invocationID us)"

lemma usage_step:
  assumes "step_ok t e" "ae_kind e = EvRunUsage" "usage_ok (ri_usage (run_entry t (ae_runID e)))"
  obtains u where "eventData (ae_typed e) EvRunUsage (ae_raw e) = Some (DRunUsage u)"
    "ru_invocationID u \<noteq> [] \<Longrightarrow> ru_invocationID u \<notin> set (ri_usageIDs (run_entry t (ae_runID e)))"
    "addUsage (ri_usage (run_entry t (ae_runID e))) u
       = \<lparr> tu_input = tu_input (ri_usage (run_entry t (ae_runID e))) + ru_input u,
           tu_output = tu_output (ri_usage (run_entry t (ae_runID e))) + ru_output u \<rparr>"
proof -
  from assms(1,2) obtain u where u: "eventData (ae_typed e) EvRunUsage (ae_raw e) = Some (DRunUsage u)"
    and v: "is_ok (validateRunUsage t (ae_runID e) u [])"
    by (auto simp: validateAppendStep_def Let_def is_ok_iff split: option.splits event_data.splits if_splits)
  from v have inv: "ru_invocationID u \<noteq> [] \<longrightarrow> ru_invocationID u \<notin> set (ri_usageIDs (run_entry t (ae_runID e)))"
    and "\<exists>acc. addUsageTotal (ri_usage (run_entry t (ae_runID e))) (ru_input u) (ru_output u) = Some acc"
    by (auto simp: validateRunUsage_eq Let_def is_ok_iff split: if_splits option.splits)
  then obtain acc where acc: "addUsageTotal (ri_usage (run_entry t (ae_runID e))) (ru_input u) (ru_output u) = Some acc" by blast
  with addUsage_exact[OF assms(3) acc] have "addUsage (ri_usage (run_entry t (ae_runID e))) u
       = \<lparr> tu_input = tu_input (ri_usage (run_entry t (ae_runID e))) + ru_input u,
           tu_output = tu_output (ri_usage (run_entry t (ae_runID e))) + ru_output u \<rparr>"
    by (auto simp: addUsageTotal_def split: if_splits)
  with u inv that show ?thesis by blast
qed

lemma replay_usage:
  assumes "newSession opts = Inr s0" "replay_ok (s0\<lparr> se_projValid := b \<rparr>) 0 evs"
  shows "ri_usage (log_entry r evs) = usage_sum (run_usages r evs)
    \<and> set (ri_usageIDs (log_entry r evs)) = set (invocations (run_usages r evs)) \<and> distinct (invocations (run_usages r evs))"
  using assms(2)
proof (induction evs rule: rev_induct)
  case Nil
  then show ?case by (simp add: run_usages_def run_data_def map_filter_simps usage_sum_def noUsage_def invocations_def)
next
  case (snoc e evs)
  let ?t = "fold (\<lambda>ev s. restored s ev) evs (s0\<lparr> se_projValid := b \<rparr>)"
  have IH: "ri_usage (log_entry r evs) = usage_sum (run_usages r evs)"
    "set (ri_usageIDs (log_entry r evs)) = set (invocations (run_usages r evs))" "distinct (invocations (run_usages r evs))"
    using snoc by (simp_all add: replay_ok_snoc)
  have t: "session_ok ?t" "step_ok ?t (stored_entry e)" "run_entry ?t r = log_entry r evs"
    using snoc.prems replay_session_ok[of "s0\<lparr> se_projValid := b \<rparr>" evs]
    by (simp_all add: replay_ok_snoc Let_def session_ok_projValid session_ok_new[OF assms(1)] newSession_fields[OF assms(1)] replay_simps log_entry_def)
  show ?case
  proof (cases "ev_runID e = r \<and> ev_type e = EvRunUsage")
    case True
    then obtain u where u: "event_payload e = Some (DRunUsage u)"
      "ru_invocationID u \<noteq> [] \<Longrightarrow> ru_invocationID u \<notin> set (ri_usageIDs (log_entry r evs))"
      "addUsage (ri_usage (log_entry r evs)) u = \<lparr> tu_input = tu_input (ri_usage (log_entry r evs)) + ru_input u,
           tu_output = tu_output (ri_usage (log_entry r evs)) + ru_output u \<rparr>"
    proof -
      have k: "ae_kind (stored_entry e) = EvRunUsage" and ok: "usage_ok (ri_usage (run_entry ?t (ae_runID (stored_entry e))))"
        using True t(1) by (simp_all add: session_ok_def)
      have "run_entry ?t (ae_runID (stored_entry e)) = log_entry r evs" using True t(3) by simp
      from usage_step[OF t(2) k ok, unfolded this] that True show thesis
        by (auto simp: eventData_def event_payload_def)
    qed
    have "ri_usage (log_entry r (evs @ [e])) = addUsage (ri_usage (log_entry r evs)) u"
      "set (ri_usageIDs (log_entry r (evs @ [e]))) = set (ri_usageIDs (log_entry r evs)) \<union> (if ru_invocationID u = [] then {} else {ru_invocationID u})"
      using True u(1) by (auto simp: log_entry_snoc entryStep_payload)
    moreover have "run_usages r (evs @ [e]) = run_usages r evs @ [u]" using True u(1) by (simp add: run_usages_snoc)
    ultimately show ?thesis using IH u(2,3) by (auto simp: usage_sum_def invocations_def)
  next
    case False
    have "run_usages r (evs @ [e]) = run_usages r evs"
      using False event_payload_kind[of e] by (auto simp: run_usages_snoc split: option.split event_data.split)
    moreover have "ri_usage (log_entry r (evs @ [e])) = ri_usage (log_entry r evs)
        \<and> ri_usageIDs (log_entry r (evs @ [e])) = ri_usageIDs (log_entry r evs)"
      using False entryStep_usage_other[of e None] by (auto simp: log_entry_snoc)
    ultimately show ?thesis using IH by simp
  qed
qed


end
