(* ===== verification/Rate_Limit.thy ===== *)
theory Rate_Limit
  imports Session_Index Go_Time
begin

text \<open>
  \<open>src/pkg/core/ratelimit.go\<close>: the in-process rate limiter with its bounded table of minute buckets, and
  the truncation point of a backtest. Go map iteration is modelled by lists; the limiter's lock makes
  each call one step.
\<close>

section \<open>The limiter\<close>

(* src/pkg/core/ratelimit.go:69-72 rateBucket *)
record rate_bucket =
  rb_slots :: "(int, int) gomap"
  rb_last :: int

(* src/pkg/core/ratelimit.go:59-65 WindowRateLimiter *)
record rate_limiter =
  rl_perMinute :: int
  rl_maxBuckets :: int
  rl_buckets :: "(string, rate_bucket) gomap"

(* src/pkg/core/ratelimit.go:67-67 maxWindowRateLimiterBuckets *)
definition maxWindowRateLimiterBuckets :: int where "maxWindowRateLimiterBuckets = 4096"

(* src/pkg/core/ratelimit.go:76-84 NewWindowRateLimiter *)
definition newWindowRateLimiter :: "int \<Rightarrow> rate_limiter" where
  "newWindowRateLimiter perMinute =
     \<lparr> rl_perMinute = (if perMinute \<le> 0 then 1 else perMinute), rl_maxBuckets = maxWindowRateLimiterBuckets, rl_buckets = [] \<rparr>"

(* src/pkg/core/ratelimit.go:125-131 evictStaleLocked *)
definition evictStale :: "int \<Rightarrow> (string, rate_bucket) gomap \<Rightarrow> (string, rate_bucket) gomap" where
  "evictStale slot buckets = filter (\<lambda>(_, b). \<not> rb_last b < slot - 1) buckets"

definition rate_key :: "string \<Rightarrow> string \<Rightarrow> string" where
  "rate_key tenant capability = tenant @ [CHR 0x00] @ capability"

text \<open>Go's integer division truncates towards zero.\<close>

definition go_div :: "int \<Rightarrow> int \<Rightarrow> int" where
  "go_div a b = (if a < 0 then - ((- a) div b) else a div b)"

(* src/pkg/core/ratelimit.go:93-123 AllowCall *)
definition allowCall :: "int \<Rightarrow> string \<Rightarrow> string \<Rightarrow> rate_limiter \<Rightarrow> bool \<times> rate_limiter" where
  "allowCall unix tenant capability w =
     (let slot = go_div unix 60;
          key = rate_key tenant capability;
          w1 = (if rl_maxBuckets w \<le> 0 then w\<lparr> rl_maxBuckets := maxWindowRateLimiterBuckets \<rparr> else w);
          kept = evictStale slot (rl_buckets w1)
      in case map_of kept key of
           None \<Rightarrow> if int (length kept) \<ge> rl_maxBuckets w1 then (False, w1\<lparr> rl_buckets := kept \<rparr>)
                   else if 0 \<ge> rl_perMinute w1 then (False, w1\<lparr> rl_buckets := mput key \<lparr> rb_slots = [], rb_last = 0 \<rparr> kept \<rparr>)
                   else (True, w1\<lparr> rl_buckets := mput key \<lparr> rb_slots = [(slot, 1)], rb_last = slot \<rparr> kept \<rparr>)
         | Some b \<Rightarrow>
             let slots = filter (\<lambda>(s, _). \<not> s < slot - 1) (rb_slots b); n = mget 0 slots slot in
               if n \<ge> rl_perMinute w1 then (False, w1\<lparr> rl_buckets := mput key (b\<lparr> rb_slots := slots \<rparr>) kept \<rparr>)
               else (True, w1\<lparr> rl_buckets := mput key \<lparr> rb_slots = mput slot (n + 1) slots, rb_last = slot \<rparr> kept \<rparr>))"

section \<open>The cutoff of a backtest\<close>

text \<open>One pass of the loop over the events: whether the cutoff moved, and where to.\<close>

(* src/pkg/core/ratelimit.go:23-39 AdjustBacktestCutoff *)
fun cutoffPass :: "session_event list \<Rightarrow> int \<Rightarrow> int" where
  "cutoffPass [] c = c"
| "cutoffPass (ev # evs) c =
     (if ev_type ev \<noteq> EvContextSummary \<or> ev_seq ev < c then cutoffPass evs c
      else case decoded EvContextSummary (ev_data ev) of
             Some (DContextSummary d) \<Rightarrow> cutoffPass evs (if cs_start d < c then cs_start d else c)
           | _ \<Rightarrow> cutoffPass evs c)"

definition summary_start :: "session_event \<Rightarrow> int option" where
  "summary_start ev = (if ev_type ev \<noteq> EvContextSummary then None
     else case decoded EvContextSummary (ev_data ev) of Some (DContextSummary d) \<Rightarrow> Some (cs_start d) | _ \<Rightarrow> None)"

lemma cutoffPass_Cons:
  "cutoffPass (ev # evs) c = cutoffPass evs
     (case summary_start ev of Some a \<Rightarrow> if ev_seq ev \<ge> c \<and> a < c then a else c | None \<Rightarrow> c)"
  by (auto simp: summary_start_def split: option.split event_data.split)

lemma cutoffPass_le: "cutoffPass evs c \<le> c"
proof (induction evs arbitrary: c)
  case (Cons ev evs)
  show ?case unfolding cutoffPass_Cons
    using Cons.IH[of c] Cons.IH[of "the (summary_start ev)"] by (auto split: option.split)
qed simp

lemma cutoffPass_in: "cutoffPass evs c = c \<or> Some (cutoffPass evs c) \<in> summary_start ` set evs"
proof (induction evs arbitrary: c)
  case (Cons ev evs)
  show ?case unfolding cutoffPass_Cons
    using Cons.IH[of c] Cons.IH[of "the (summary_start ev)"] by (auto split: option.split simp: image_iff)
qed simp

text \<open>The loop ends because every round moves the cutoff to the start of an earlier summary.\<close>

(* src/pkg/core/ratelimit.go:22-40 AdjustBacktestCutoff *)
function cutoffLoop :: "session_event list \<Rightarrow> int \<Rightarrow> int" where
  "cutoffLoop evs c = (let c' = cutoffPass evs c in if c' = c then c else cutoffLoop evs c')"
  by pat_completeness auto
termination
proof (relation "measure (\<lambda>(evs, c). card {a. Some a \<in> summary_start ` set evs \<and> a < c})")
  fix evs c c'
  assume c': "c' = cutoffPass evs c" "c' \<noteq> c"
  let ?S = "\<lambda>c. {a. Some a \<in> summary_start ` set evs \<and> a < c}"
  have less: "c' < c" using cutoffPass_le[of evs c] c' by simp
  have "c' \<in> ?S c" using cutoffPass_in[of evs c] c' less by auto
  then have "?S c' \<subset> ?S c" using less by auto
  moreover have "finite (?S c)"
    by (rule finite_subset[of _ "Some -` summary_start ` set evs"]) (auto intro: finite_vimageI)
  ultimately show "((evs, c'), evs, c) \<in> measure (\<lambda>(evs, c). card {a. Some a \<in> summary_start ` set evs \<and> a < c})"
    by (simp add: psubset_card_mono)
qed simp

declare cutoffLoop.simps [simp del]

(* src/pkg/core/ratelimit.go:18-45 AdjustBacktestCutoff *)
definition adjustBacktestCutoff :: "session_event list \<Rightarrow> int \<Rightarrow> int option" where
  "adjustBacktestCutoff evs cutoff =
     (if cutoff \<le> 0 \<or> cutoff > int (length evs) then Some (int (length evs))
      else let c = cutoffLoop evs cutoff in if c \<le> 0 then None else Some c)"

section \<open>The cutoff is the largest consistent one\<close>

definition self_contained :: "session_event list \<Rightarrow> int \<Rightarrow> bool" where
  "self_contained evs c \<longleftrightarrow> (\<forall>ev \<in> set evs. \<forall>a. summary_start ev = Some a \<and> ev_seq ev \<ge> c \<longrightarrow> a \<ge> c)"

lemma cutoffPass_fixed: "cutoffPass evs c = c \<longleftrightarrow> self_contained evs c"
proof (induction evs)
  case (Cons ev evs)
  let ?x = "case summary_start ev of Some a \<Rightarrow> if ev_seq ev \<ge> c \<and> a < c then a else c | None \<Rightarrow> c"
  show ?case
  proof (cases "?x = c")
    case True
    then have "self_contained (ev # evs) c \<longleftrightarrow> self_contained evs c"
      by (auto simp: self_contained_def split: option.splits if_splits)
    with True Cons.IH show ?thesis unfolding cutoffPass_Cons by simp
  next
    case False
    then have "?x < c" "\<not> self_contained (ev # evs) c" by (auto simp: self_contained_def split: option.splits if_splits)
    moreover have "cutoffPass evs ?x \<le> ?x" by (rule cutoffPass_le)
    ultimately show ?thesis unfolding cutoffPass_Cons by simp
  qed
qed (simp add: self_contained_def)

text \<open>No round passes a consistent point.\<close>

lemma cutoffPass_ge:
  assumes "self_contained all b" "set evs \<subseteq> set all" "b \<le> c"
  shows "b \<le> cutoffPass evs c"
  using assms(2,3)
proof (induction evs arbitrary: c)
  case (Cons ev evs)
  have "b \<le> (case summary_start ev of Some a \<Rightarrow> if ev_seq ev \<ge> c \<and> a < c then a else c | None \<Rightarrow> c)"
    using Cons.prems assms(1) by (fastforce simp: self_contained_def split: option.split)
  then show ?case unfolding cutoffPass_Cons using Cons by simp
qed simp

lemma cutoffLoop_spec:
  "cutoffLoop evs c \<le> c \<and> self_contained evs (cutoffLoop evs c) \<and> (\<forall>b. b \<le> c \<and> self_contained evs b \<longrightarrow> b \<le> cutoffLoop evs c)"
proof (induction evs c rule: cutoffLoop.induct)
  case (1 evs c)
  let ?c = "cutoffPass evs c"
  show ?case
  proof (cases "?c = c")
    case True
    then show ?thesis using cutoffPass_fixed[of evs c] by (simp add: cutoffLoop.simps[of evs c])
  next
    case False
    have e: "cutoffLoop evs c = cutoffLoop evs ?c" using False by (simp add: cutoffLoop.simps[of evs c] Let_def)
    have IH: "cutoffLoop evs ?c \<le> ?c" "self_contained evs (cutoffLoop evs ?c)" "\<And>b. b \<le> ?c \<Longrightarrow> self_contained evs b \<Longrightarrow> b \<le> cutoffLoop evs ?c"
      using 1[OF refl False] by auto
    have "b \<le> cutoffLoop evs ?c" if "b \<le> c" "self_contained evs b" for b
      using IH(3)[OF cutoffPass_ge[OF that(2) subset_refl that(1)] that(2)] .
    then show ?thesis unfolding e using IH(1,2) cutoffPass_le[of evs c] by simp
  qed
qed

text \<open>C34: A backtest is cut at the largest consistent point. For a cutoff inside the log the loop ends, and
  the point it gives is the largest one not after the cutoff such that no summary left out of the copied
  prefix starts inside it; when only points before the log are consistent the cut is refused.\<close>
theorem backtest_cutoff_largest:
  assumes "0 < cutoff" "cutoff \<le> int (length evs)"
  shows "case adjustBacktestCutoff evs cutoff of
      Some c \<Rightarrow> 0 < c \<and> c \<le> cutoff \<and> self_contained evs c \<and> (\<forall>b. b \<le> cutoff \<and> self_contained evs b \<longrightarrow> b \<le> c)
    | None \<Rightarrow> \<forall>b. 0 < b \<and> b \<le> cutoff \<longrightarrow> \<not> self_contained evs b"
  using cutoffLoop_spec[of evs cutoff] assms by (auto simp: adjustBacktestCutoff_def Let_def)

section \<open>The limiter keeps its limit\<close>

text \<open>A history of calls, newest last: the minute, the key and whether it was allowed.\<close>

type_synonym rate_history = "(int \<times> string \<times> bool) list"

definition allowed :: "rate_history \<Rightarrow> string \<Rightarrow> int \<Rightarrow> int" where
  "allowed h k s = int (length (filter (\<lambda>(slot, key, ok). ok \<and> key = k \<and> slot = s) h))"

inductive rate_run :: "int \<Rightarrow> rate_history \<Rightarrow> rate_limiter \<Rightarrow> bool" for perMinute :: int where
  rate_new: "rate_run perMinute [] (newWindowRateLimiter perMinute)"
| rate_call: "rate_run perMinute h w \<Longrightarrow> (\<forall>(slot, _) \<in> set h. slot \<le> go_div unix 60) \<Longrightarrow> allowCall unix tenant capability w = (ok, w')
    \<Longrightarrow> rate_run perMinute (h @ [(go_div unix 60, rate_key tenant capability, ok)]) w'"

lemma allowed_snoc: "allowed (h @ [(slot, key, ok)]) k s = allowed h k s + (if ok \<and> key = k \<and> slot = s then 1 else 0)"
  by (simp add: allowed_def)

definition stored :: "(string, rate_bucket) gomap \<Rightarrow> string \<Rightarrow> int \<Rightarrow> int" where
  "stored bs k s = (case map_of bs k of None \<Rightarrow> 0 | Some b \<Rightarrow> mget 0 (rb_slots b) s)"

text \<open>The table agrees with the history on the current minute \<open>cur\<close> and later ones.\<close>

definition limiter_ok :: "int \<Rightarrow> int \<Rightarrow> rate_history \<Rightarrow> rate_limiter \<Rightarrow> bool" where
  "limiter_ok perMinute cur h w \<longleftrightarrow> rl_perMinute w = perMinute \<and> rl_maxBuckets w = maxWindowRateLimiterBuckets
     \<and> gomap_ok (rl_buckets w) \<and> int (length (rl_buckets w)) \<le> maxWindowRateLimiterBuckets
     \<and> (\<forall>k b. map_of (rl_buckets w) k = Some b \<longrightarrow> gomap_ok (rb_slots b) \<and> (\<forall>s. mget 0 (rb_slots b) s \<noteq> 0 \<longrightarrow> s \<le> rb_last b))
     \<and> (\<forall>k s. cur \<le> s \<longrightarrow> stored (rl_buckets w) k s = allowed h k s)
     \<and> (\<forall>k s. cur < s \<longrightarrow> allowed h k s = 0)
     \<and> (\<forall>k s. allowed h k s \<le> perMinute)"

lemma map_of_filter_key: "gomap_ok m \<Longrightarrow> map_of (filter P m) k = (case map_of m k of None \<Rightarrow> None | Some v \<Rightarrow> if P (k, v) then Some v else None)"
proof (induction m)
  case (Cons x m)
  then show ?case by (cases x) (force split: option.splits dest: map_of_SomeD)
qed simp

lemma gomap_ok_filter: "gomap_ok m \<Longrightarrow> gomap_ok (filter P m)"
  by (simp add: distinct_map_filter)

lemma mget_filter:
  "gomap_ok m \<Longrightarrow> P s \<Longrightarrow> mget 0 (filter (\<lambda>(x, _). P x) m) s = mget 0 m s"
  by (auto simp: mget_def map_of_filter_key split: option.split)

lemma length_mput: "length (mput k v m) = (if map_of m k = None then Suc (length m) else length m)"
  by (induction m) auto

lemma stored_mput: "stored (mput k b bs) k' s = (if k' = k then mget 0 (rb_slots b) s else stored bs k' s)"
  by (simp add: stored_def)

lemma evict_facts:
  assumes "limiter_ok perMinute cur h w" "cur \<le> slot"
  shows "gomap_ok (evictStale slot (rl_buckets w))" "int (length (evictStale slot (rl_buckets w))) \<le> maxWindowRateLimiterBuckets"
    and "map_of (evictStale slot (rl_buckets w)) k = Some b \<Longrightarrow> map_of (rl_buckets w) k = Some b"
    and "slot \<le> s \<Longrightarrow> stored (evictStale slot (rl_buckets w)) k s = allowed h k s"
proof -
  have ok: "gomap_ok (rl_buckets w)" using assms(1) by (simp add: limiter_ok_def)
  show "gomap_ok (evictStale slot (rl_buckets w))" using ok by (simp add: evictStale_def gomap_ok_filter)
  have "length (evictStale slot (rl_buckets w)) \<le> length (rl_buckets w)" by (simp add: evictStale_def)
  then show "int (length (evictStale slot (rl_buckets w))) \<le> maxWindowRateLimiterBuckets"
    using assms(1) by (simp add: limiter_ok_def)
  show "map_of (evictStale slot (rl_buckets w)) k = Some b \<Longrightarrow> map_of (rl_buckets w) k = Some b"
    using ok by (auto simp: evictStale_def map_of_filter_key split: option.splits if_splits)
  assume s: "slot \<le> s"
  have "stored (evictStale slot (rl_buckets w)) k s = stored (rl_buckets w) k s"
  proof (cases "map_of (rl_buckets w) k")
    case (Some b)
    then have "mget 0 (rb_slots b) s \<noteq> 0 \<longrightarrow> s \<le> rb_last b" using assms(1) by (simp add: limiter_ok_def)
    with Some ok s show ?thesis by (auto simp: stored_def evictStale_def map_of_filter_key)
  qed (use ok in \<open>simp add: stored_def evictStale_def map_of_filter_key\<close>)
  then show "stored (evictStale slot (rl_buckets w)) k s = allowed h k s" using assms s by (simp add: limiter_ok_def)
qed

text \<open>The table after a call: the kept buckets with the bucket of the key replaced.\<close>

lemma limiter_ok_put:
  assumes "limiter_ok perMinute cur h w" "cur \<le> slot" "kept = evictStale slot (rl_buckets w)"
    "int (length (mput key b kept)) \<le> maxWindowRateLimiterBuckets" "gomap_ok (rb_slots b)"
    "\<And>s. mget 0 (rb_slots b) s \<noteq> 0 \<Longrightarrow> s \<le> rb_last b"
    "\<And>s. slot \<le> s \<Longrightarrow> mget 0 (rb_slots b) s = allowed h key s + (if ok \<and> s = slot then 1 else 0)"
    "ok \<Longrightarrow> allowed h key slot + 1 \<le> perMinute"
  shows "limiter_ok perMinute slot (h @ [(slot, key, ok)]) (w\<lparr> rl_buckets := mput key b kept \<rparr>)"
proof -
  note e = evict_facts[OF assms(1,2), folded assms(3)]
  have "\<forall>k b'. map_of (mput key b kept) k = Some b' \<longrightarrow> gomap_ok (rb_slots b') \<and> (\<forall>s. mget 0 (rb_slots b') s \<noteq> 0 \<longrightarrow> s \<le> rb_last b')"
  proof (intro allI impI)
    fix k b'
    assume b': "map_of (mput key b kept) k = Some b'"
    show "gomap_ok (rb_slots b') \<and> (\<forall>s. mget 0 (rb_slots b') s \<noteq> 0 \<longrightarrow> s \<le> rb_last b')"
    proof (cases "k = key")
      case False
      then have "map_of (rl_buckets w) k = Some b'" using b' e(3)[of k b'] by simp
      then show ?thesis using assms(1) unfolding limiter_ok_def by blast
    qed (use b' assms(5,6) in auto)
  qed
  moreover have "stored (mput key b kept) k s = allowed (h @ [(slot, key, ok)]) k s" if "slot \<le> s" for k s
    using e(4)[OF that, of k] assms(7)[OF that] by (auto simp: stored_mput allowed_snoc)
  moreover have "allowed (h @ [(slot, key, ok)]) k s = 0" if "slot < s" for k s
    using assms(1,2) that by (simp add: allowed_snoc limiter_ok_def)
  moreover have "allowed (h @ [(slot, key, ok)]) k s \<le> perMinute" for k s
    using assms(1,8) by (auto simp: allowed_snoc limiter_ok_def)
  ultimately show ?thesis using assms(1,4) e(1) by (simp add: limiter_ok_def)
qed

lemma limiter_ok_kept:
  assumes "limiter_ok perMinute cur h w" "cur \<le> slot"
  shows "limiter_ok perMinute slot h (w\<lparr> rl_buckets := evictStale slot (rl_buckets w) \<rparr>)"
proof -
  note e = evict_facts[OF assms]
  have "gomap_ok (rb_slots b) \<and> (\<forall>s. mget 0 (rb_slots b) s \<noteq> 0 \<longrightarrow> s \<le> rb_last b)"
    if "map_of (evictStale slot (rl_buckets w)) k = Some b" for k b
    using e(3)[OF that] assms(1) unfolding limiter_ok_def by blast
  then show ?thesis using assms e(1,2,4) by (simp add: limiter_ok_def)
qed

lemma limiter_ok_call:
  assumes "limiter_ok perMinute cur h w" "1 \<le> perMinute" "slot = go_div unix 60" "cur \<le> slot"
    "allowCall unix tenant capability w = (ok, w')"
  shows "limiter_ok perMinute slot (h @ [(slot, rate_key tenant capability, ok)]) w'"
proof -
  let ?key = "rate_key tenant capability" and ?kept = "evictStale slot (rl_buckets w)"
  have fields: "rl_perMinute w = perMinute" "rl_maxBuckets w = maxWindowRateLimiterBuckets" "\<not> rl_maxBuckets w \<le> 0"
    using assms(1) by (simp_all add: limiter_ok_def maxWindowRateLimiterBuckets_def)
  note e = evict_facts[OF assms(1,4)]
  have call: "allowCall unix tenant capability w =
      (case map_of ?kept ?key of
         None \<Rightarrow> if int (length ?kept) \<ge> maxWindowRateLimiterBuckets then (False, w\<lparr> rl_buckets := ?kept \<rparr>)
                 else (True, w\<lparr> rl_buckets := mput ?key \<lparr> rb_slots = [(slot, 1)], rb_last = slot \<rparr> ?kept \<rparr>)
       | Some b \<Rightarrow> let slots = filter (\<lambda>(s, _). \<not> s < slot - 1) (rb_slots b); n = mget 0 slots slot in
           if n \<ge> perMinute then (False, w\<lparr> rl_buckets := mput ?key (b\<lparr> rb_slots := slots \<rparr>) ?kept \<rparr>)
           else (True, w\<lparr> rl_buckets := mput ?key \<lparr> rb_slots = mput slot (n + 1) slots, rb_last = slot \<rparr> ?kept \<rparr>))"
    using fields assms(2,3) by (simp add: allowCall_def Let_def split: option.split)
  show ?thesis
  proof (cases "map_of ?kept ?key")
    case None
    have zero: "allowed h ?key s = 0" if "slot \<le> s" for s using e(4)[OF that, of ?key] None by (simp add: stored_def)
    show ?thesis
    proof (cases "int (length ?kept) \<ge> maxWindowRateLimiterBuckets")
      case True
      then have "ok = False" "w' = w\<lparr> rl_buckets := ?kept \<rparr>" using assms(5) call None by simp_all
      then show ?thesis using limiter_ok_kept[OF assms(1,4)] by (simp add: limiter_ok_def allowed_snoc)
    next
      case False
      then have r: "ok = True" "w' = w\<lparr> rl_buckets := mput ?key \<lparr> rb_slots = [(slot, 1)], rb_last = slot \<rparr> ?kept \<rparr>"
        using assms(5) call None by simp_all
      show ?thesis unfolding r
        by (rule limiter_ok_put[OF assms(1,4) refl])
           (use False None zero assms(2) in \<open>auto simp: length_mput mget_def split: if_splits\<close>)
    qed
  next
    case (Some b)
    let ?slots = "filter (\<lambda>(s, _). \<not> s < slot - 1) (rb_slots b)"
    have b: "gomap_ok (rb_slots b)" "\<And>s. mget 0 (rb_slots b) s \<noteq> 0 \<Longrightarrow> s \<le> rb_last b"
      using assms(1) e(3)[OF Some] by (auto simp: limiter_ok_def)
    have gk: "gomap_ok ?slots" using b(1) by (rule gomap_ok_filter)
    have get: "mget 0 ?slots s = allowed h ?key s" if "slot \<le> s" for s
      using e(4)[OF that, of ?key] Some mget_filter[OF b(1), of "\<lambda>s. \<not> s < slot - 1" s] that by (simp add: stored_def)
    have sub: "mget 0 ?slots s \<noteq> 0 \<Longrightarrow> s \<le> rb_last b" for s
      using b(2)[of s] b(1) by (auto simp: mget_def map_of_filter_key split: option.splits if_splits)
    have late: "allowed h ?key s = 0" if "slot < s" for s using assms(1,4) that by (simp add: limiter_ok_def)
    have len: "int (length (mput ?key b' ?kept)) \<le> maxWindowRateLimiterBuckets" for b'
      using Some e(2) by (simp add: length_mput)
    show ?thesis
    proof (cases "mget 0 ?slots slot \<ge> perMinute")
      case True
      then have r: "ok = False" "w' = w\<lparr> rl_buckets := mput ?key (b\<lparr> rb_slots := ?slots \<rparr>) ?kept \<rparr>"
        using assms(5) call Some by (simp_all add: Let_def)
      show ?thesis unfolding r
        by (rule limiter_ok_put[OF assms(1,4) refl len]) (use gk get sub in simp_all)
    next
      case False
      then have r: "ok = True" "w' = w\<lparr> rl_buckets := mput ?key \<lparr> rb_slots = mput slot (mget 0 ?slots slot + 1) ?slots, rb_last = slot \<rparr> ?kept \<rparr>"
        using assms(5) call Some by (simp_all add: Let_def)
      show ?thesis unfolding r
      proof (rule limiter_ok_put[OF assms(1,4) refl len])
        show "s \<le> rb_last \<lparr> rb_slots = mput slot (mget 0 ?slots slot + 1) ?slots, rb_last = slot \<rparr>"
          if "mget 0 (rb_slots \<lparr> rb_slots = mput slot (mget 0 ?slots slot + 1) ?slots, rb_last = slot \<rparr>) s \<noteq> 0" for s
        proof (rule ccontr)
          assume "\<not> ?thesis"
          then have "slot < s" by simp
          with that get[of s] late[of s] show False by (simp add: mget_mput)
        qed
      qed (use gk get False in \<open>simp_all add: mget_mput\<close>)
    qed
  qed
qed

lemma limiter_ok_later: "limiter_ok perMinute cur h w \<Longrightarrow> cur \<le> cur' \<Longrightarrow> limiter_ok perMinute cur' h w"
  by (simp add: limiter_ok_def)

lemma rate_run_ok:
  assumes "rate_run perMinute h w" "\<forall>(slot, _) \<in> set h. slot \<le> cur"
  shows "limiter_ok (max 1 perMinute) cur h w"
  using assms
proof (induction arbitrary: cur rule: rate_run.induct)
  case rate_new
  then show ?case
    by (auto simp: limiter_ok_def newWindowRateLimiter_def stored_def allowed_def maxWindowRateLimiterBuckets_def)
next
  case (rate_call h w unix tenant capability ok w')
  have "limiter_ok (max 1 perMinute) (go_div unix 60) h w" using rate_call.IH rate_call.hyps(2) by blast
  then have "limiter_ok (max 1 perMinute) (go_div unix 60) (h @ [(go_div unix 60, rate_key tenant capability, ok)]) w'"
    by (rule limiter_ok_call[OF _ _ refl order_refl rate_call.hyps(3)]) simp
  moreover have "go_div unix 60 \<le> cur" using rate_call.prems by simp
  ultimately show ?case by (rule limiter_ok_later)
qed

text \<open>C35: The limiter keeps its limit. Under a clock that does not run backwards, the calls it allows to one
  tenant and capability within one minute of the clock never exceed the configured number (at least one),
  and its table never holds more than the bounded number of buckets.\<close>
theorem rate_limit_kept:
  assumes "rate_run perMinute h w"
  shows "allowed h (rate_key tenant capability) minute \<le> max 1 perMinute \<and> int (length (rl_buckets w)) \<le> maxWindowRateLimiterBuckets"
proof -
  obtain cur where "\<forall>(slot, _) \<in> set h. slot \<le> cur"
  proof (cases "h = []")
    case False
    then show ?thesis by (intro that[of "Max (fst ` set h)"]) (force intro!: Max_ge)
  qed (auto intro: that[of 0])
  from rate_run_ok[OF assms this] show ?thesis by (simp add: limiter_ok_def)
qed

text \<open>The minutes are those of the clock: two calls one second apart fall into different ones, so the limit
  of a sliding minute can be exceeded.\<close>

lemma rate_limit_window_doubled:
  "case allowCall 59 t c (newWindowRateLimiter 1) of (first, w) \<Rightarrow> first \<and> fst (allowCall 60 t c w)"
  by (simp add: allowCall_def newWindowRateLimiter_def evictStale_def go_div_def maxWindowRateLimiterBuckets_def mget_def Let_def)

section \<open>Examples\<close>

definition ex_limiter :: rate_limiter where
  "ex_limiter = snd (allowCall 61 ''t'' ''files.read'' (newWindowRateLimiter 1))"

lemma ex_rate_run: "\<exists>ok1 ok2 w. rate_run 1 [(1, rate_key ''t'' ''files.read'', ok1), (1, rate_key ''t'' ''files.read'', ok2)] w"
proof -
  obtain ok1 w1 where c1: "allowCall 61 ''t'' ''files.read'' (newWindowRateLimiter 1) = (ok1, w1)" by force
  obtain ok2 w2 where c2: "allowCall 62 ''t'' ''files.read'' w1 = (ok2, w2)" by force
  have "rate_run 1 [(1, rate_key ''t'' ''files.read'', ok1)] w1"
    using rate_call[OF rate_new _ c1] by (simp add: go_div_def)
  from rate_call[OF this _ c2] show ?thesis by (auto simp: go_div_def)
qed

theorem rate_limit_kept_witness:
  "\<exists>h w. rate_run 1 h w \<and> length h = 2 \<and> allowed h (rate_key ''t'' ''files.read'') 1 \<le> 1"
proof -
  obtain ok1 ok2 w where r: "rate_run 1 [(1, rate_key ''t'' ''files.read'', ok1), (1, rate_key ''t'' ''files.read'', ok2)] w"
    using ex_rate_run by blast
  from rate_limit_kept[OF r, of "''t''" "''files.read''" 1] r show ?thesis by fastforce
qed

definition ex_summary_event :: "int \<Rightarrow> int \<Rightarrow> session_event" where
  "ex_summary_event seq start = \<lparr> ev_seq = seq, ev_time = 1, ev_runID = ''r1'', ev_type = EvContextSummary,
     ev_data = \<lparr> raw_len = 1, raw_val = Some (DContextSummary \<lparr> cs_op = ''replace'', cs_start = start, cs_end = seq - 1, cs_summary = ''s'' \<rparr>) \<rparr> \<rparr>"

definition ex_plain_event :: "int \<Rightarrow> session_event" where
  "ex_plain_event seq = \<lparr> ev_seq = seq, ev_time = 1, ev_runID = ''r1'', ev_type = EvUserMessage,
     ev_data = \<lparr> raw_len = 1, raw_val = Some (DUserMessage ''m'') \<rparr> \<rparr>"

definition ex_summarized :: "session_event list" where
  "ex_summarized = [ex_plain_event 0, ex_plain_event 1, ex_plain_event 2, ex_summary_event 3 1, ex_plain_event 4]"

theorem backtest_cutoff_largest_witness:
  "adjustBacktestCutoff ex_summarized 2 = Some 1 \<and> self_contained ex_summarized 1"
proof -
  have c: "adjustBacktestCutoff ex_summarized 2 = Some 1" by code_simp
  with backtest_cutoff_largest[of 2 ex_summarized] show ?thesis by (simp add: ex_summarized_def)
qed

end
