(* ===== verification/Tool_Journal.thy ===== *)
theory Tool_Journal
  imports Session Capability Digest
begin

text \<open>
  The invocation journal that fences tool side effects: identities and records of
  \<open>src/pkg/core/tool_journal.go\<close> and the SQL journal of \<open>src/pkg/storage/tool_journal.go\<close>. The table is
  keyed by session, run and call; a statement of the code is one atomic change of the table. The facts:
  whatever the order of operations, and even when the database loses an acknowledgement, a call that is
  not idempotent is allowed to execute at most once, and a completed call is replayed with one result.
\<close>

section \<open>Identities and records\<close>

(* src/pkg/core/tool_journal.go:42-51 ToolInvocation *)
record tool_invocation =
  ti_tenant :: string
  ti_subject :: string
  ti_session :: string
  ti_run :: string
  ti_call :: string
  ti_capability :: string
  ti_argsDigest :: string
  ti_idempotent :: bool

(* src/pkg/core/tool_journal.go:16-20 ToolInvocationState *)
datatype invocation_state = InvStarted | InvCompleted | InvUncertain

(* src/pkg/core/tool_journal.go:26-32 ToolInvocationDecision *)
datatype invocation_decision = ExecuteNew | ExecuteRetry | Replay | OutcomeUnknown | InvocationConflict

(* src/pkg/core/tool_journal.go:55-63 ToolInvocationRecord *)
record tool_record =
  tj_inv :: tool_invocation
  tj_state :: invocation_state
  tj_result :: "capability_result option"
  tj_error :: string
  tj_started :: int
  tj_updated :: int
  tj_completed :: int

datatype journal_error =
    InvocationInvalid | InvocationArgs | ResultInvalid | ResultNotEncodable | RowUndecodable
  | RowTimestamps | RowInconsistent | JournalFull | JournalMissing | JournalIdentity | JournalNotCompleted | CompletedWithoutResult

definition hex_digits :: "string \<Rightarrow> bool" where
  "hex_digits s \<longleftrightarrow> even (length s) \<and> list_all (\<lambda>c. is_digit c \<or> (97 \<le> (of_char c :: nat) \<and> (of_char c :: nat) \<le> 102) \<or> (65 \<le> (of_char c :: nat) \<and> (of_char c :: nat) \<le> 70)) s"

definition identity_part_ok :: "string \<Rightarrow> bool" where
  "identity_part_ok s \<longleftrightarrow> \<not> (blank s \<or> length s > 512 \<or> contains_any s [CHR 0x0D, CHR 0x0A, CHR 0x00])"

(* src/pkg/core/tool_journal.go:111-136 ValidateToolInvocation *)
definition validateToolInvocation :: "tool_invocation \<Rightarrow> bool" where
  "validateToolInvocation i \<longleftrightarrow>
     validateSessionID (ti_session i) \<and> validateRunID (ti_run i) \<and> validateToolCallID (ti_call i)
     \<and> validateNamespacedID (ti_capability i)
     \<and> identity_part_ok (ti_tenant i) \<and> identity_part_ok (ti_subject i)
     \<and> length (ti_argsDigest i) = 64 \<and> hex_digits (ti_argsDigest i)"

(* src/pkg/core/hooks.go:31-37 RunInfo *)
record run_info =
  ri_run :: string
  ri_session :: string
  ri_profile :: string
  ri_step :: int
  ri_principal :: principal

(* src/pkg/core/tool_journal.go:87-107 NewToolInvocation *)
definition newToolInvocation :: "run_info \<Rightarrow> tool_call \<Rightarrow> bool \<Rightarrow> journal_error + tool_invocation" where
  "newToolInvocation info call idempotent =
     (case json_object_text (case tc_args call of None \<Rightarrow> [] | Some a \<Rightarrow> a) of
        None \<Rightarrow> Inl InvocationArgs
      | Some encoded \<Rightarrow>
          let i = \<lparr> ti_tenant = pr_tenant (ri_principal info), ti_subject = pr_subject (ri_principal info),
                    ti_session = ri_session info, ti_run = ri_run info, ti_call = tc_id call,
                    ti_capability = tc_name call, ti_argsDigest = sha256_hex encoded, ti_idempotent = idempotent \<rparr>
          in if validateToolInvocation i then Inr i else Inl InvocationInvalid)"

(* src/pkg/core/tool_journal.go:140-146 CloneToolInvocationRecord *)
definition cloneToolRecord :: "tool_record \<Rightarrow> tool_record" where
  "cloneToolRecord r = r\<lparr> tj_result := map_option cloneCapabilityResult (tj_result r) \<rparr>"

(* src/pkg/core/capability.go:743-748 ValidateCapabilityResult *)
definition validateCapabilityResult :: "capability_result \<Rightarrow> bool" where
  "validateCapabilityResult r \<longleftrightarrow>
     \<not> int (length (cr_content r)) > HardMaxCapabilityOutputBytes \<and> is_ok (validateResultMetadata (cr_metadata r))"

section \<open>The table\<close>

text \<open>
  A row. \<open>tw_result\<close> is the \<open>result_json\<close> column: absent when the column is empty, otherwise what
  decoding its text yields.
\<close>

(* src/pkg/storage/tool_journal.go:33-37 sqlInsertToolInvocation *)
record tool_row =
  tw_inv :: tool_invocation
  tw_state :: invocation_state
  tw_result :: "capability_result option option"
  tw_error :: string
  tw_started :: int
  tw_updated :: int
  tw_completed :: int

type_synonym journal_key = "string \<times> string \<times> string"
type_synonym journal = "(journal_key, tool_row) gomap"

definition journal_key :: "tool_invocation \<Rightarrow> journal_key" where
  "journal_key i = (ti_session i, ti_run i, ti_call i)"

(* src/pkg/storage/tool_journal.go:18-18 MaxToolInvocations *)
definition MaxToolInvocations :: int where "MaxToolInvocations = 8192"

(* src/pkg/storage/tool_journal.go:77-82 invocationCap *)
definition invocationCap :: "int \<Rightarrow> int" where
  "invocationCap maxInvocations = (if maxInvocations > 0 then maxInvocations else MaxToolInvocations)"

text \<open>\<open>json.Marshal\<close> of a result and what decoding the text yields.\<close>

definition encodeResult :: "capability_result \<Rightarrow> capability_result option option" where
  "encodeResult r =
     (case (case cr_metadata r of None \<Rightarrow> Some [] | Some m \<Rightarrow> if m = [] then Some [] else json_object_text m) of
        None \<Rightarrow> None
      | Some _ \<Rightarrow> Some (map_option (\<lambda>m. \<lparr> cr_content = utf8 (cr_content r), cr_ok = cr_ok r, cr_metadata = m \<rparr>)
                          (norm_object 1 (cr_metadata r))))"

(* src/pkg/storage/tool_journal.go:286-345 scanToolInvocation *)
definition scanToolInvocation :: "tool_row \<Rightarrow> journal_error + tool_record" where
  "scanToolInvocation w =
     (if \<not> validateToolInvocation (tw_inv w) then Inl InvocationInvalid
      else if tw_started w \<le> 0 \<or> tw_updated w \<le> 0 then Inl RowTimestamps
      else if (case tw_state w of
                 InvCompleted \<Rightarrow> tw_result w = None \<or> tw_completed w \<le> 0
               | _ \<Rightarrow> tw_result w \<noteq> None \<or> tw_completed w \<noteq> 0) then Inl RowInconsistent
      else let record = (\<lambda>res. cloneToolRecord \<lparr> tj_inv = tw_inv w, tj_state = tw_state w, tj_result = res, tj_error = tw_error w,
                 tj_started = tw_started w, tj_updated = tw_updated w, tj_completed = tw_completed w \<rparr>)
           in case tw_result w of
                None \<Rightarrow> Inr (record None)
              | Some None \<Rightarrow> Inl RowUndecodable
              | Some (Some r) \<Rightarrow> if validateCapabilityResult r then Inr (record (Some r)) else Inl ResultInvalid)"

(* src/pkg/storage/tool_journal.go:347-352 sameToolInvocation *)
definition sameToolInvocation :: "tool_invocation \<Rightarrow> tool_invocation \<Rightarrow> bool" where
  "sameToolInvocation l r \<longleftrightarrow>
     ti_tenant l = ti_tenant r \<and> ti_subject l = ti_subject r \<and> ti_session l = ti_session r \<and> ti_run l = ti_run r
     \<and> ti_call l = ti_call r \<and> ti_capability l = ti_capability r \<and> ti_argsDigest l = ti_argsDigest r
     \<and> ti_idempotent l = ti_idempotent r"

(* src/pkg/storage/tool_journal.go:282-284 getToolInvocation *)
definition getToolInvocation :: "journal \<Rightarrow> tool_invocation \<Rightarrow> journal_error + tool_record" where
  "getToolInvocation t i = (case map_of t (journal_key i) of None \<Rightarrow> Inl JournalMissing | Some w \<Rightarrow> scanToolInvocation w)"

(* src/pkg/storage/tool_journal.go:124-142 existingToolInvocationDecision *)
definition existingDecision :: "tool_record \<Rightarrow> tool_invocation \<Rightarrow> journal_error + tool_record \<times> invocation_decision" where
  "existingDecision r i =
     (if \<not> sameToolInvocation (tj_inv r) i then Inr (r, InvocationConflict)
      else case tj_state r of
             InvCompleted \<Rightarrow> if tj_result r = None then Inl CompletedWithoutResult else Inr (r, Replay)
           | _ \<Rightarrow> Inr (r, if ti_idempotent i then ExecuteRetry else OutcomeUnknown))"

section \<open>Operations\<close>

definition started_row :: "int \<Rightarrow> tool_invocation \<Rightarrow> tool_row" where
  "started_row now i = \<lparr> tw_inv = i, tw_state = InvStarted, tw_result = None, tw_error = [], tw_started = now,
     tw_updated = now, tw_completed = 0 \<rparr>"

(* src/pkg/storage/tool_journal.go:84-122 BeginToolInvocation *)
definition beginToolInvocation :: "int \<Rightarrow> int \<Rightarrow> journal \<Rightarrow> tool_invocation
    \<Rightarrow> (journal_error + tool_record \<times> invocation_decision) \<times> journal" where
  "beginToolInvocation maxInvocations now t i =
     (if \<not> validateToolInvocation i then (Inl InvocationInvalid, t)
      else if int (length t) \<ge> invocationCap maxInvocations
      then (case getToolInvocation t i of
              Inr r \<Rightarrow> (existingDecision r i, t)
            | Inl JournalMissing \<Rightarrow> (Inl JournalFull, t)
            | Inl e \<Rightarrow> (Inl e, t))
      else (case map_of t (journal_key i) of
              None \<Rightarrow> (Inr (\<lparr> tj_inv = i, tj_state = InvStarted, tj_result = None, tj_error = [], tj_started = now,
                              tj_updated = now, tj_completed = 0 \<rparr>, ExecuteNew),
                       mput (journal_key i) (started_row now i) t)
            | Some w \<Rightarrow> (rbind (scanToolInvocation w) (\<lambda>r. existingDecision r i), t)))"

text \<open>The \<open>UPDATE\<close> statements: the row of the exact identity, in one of the listed states.\<close>

(* src/pkg/storage/tool_journal.go:53-57 sqlCompleteToolInvocation *)
definition completeRow :: "int \<Rightarrow> tool_invocation \<Rightarrow> capability_result option \<Rightarrow> tool_row \<Rightarrow> tool_row" where
  "completeRow now i result w =
     (if tw_inv w = i \<and> (tw_state w = InvStarted \<or> tw_state w = InvUncertain)
      then w\<lparr> tw_state := InvCompleted, tw_result := Some result, tw_error := [], tw_updated := now, tw_completed := now \<rparr>
      else w)"

(* src/pkg/storage/tool_journal.go:144-185 CompleteToolInvocation *)
definition completeToolInvocation :: "int \<Rightarrow> journal \<Rightarrow> tool_invocation \<Rightarrow> capability_result
    \<Rightarrow> (journal_error + tool_record) \<times> journal" where
  "completeToolInvocation now t i result =
     (if \<not> validateToolInvocation i then (Inl InvocationInvalid, t)
      else if \<not> validateCapabilityResult result then (Inl ResultInvalid, t)
      else case encodeResult result of
             None \<Rightarrow> (Inl ResultNotEncodable, t)
           | Some decoded_result \<Rightarrow>
               (case map_of t (journal_key i) of
                  None \<Rightarrow> (Inl JournalMissing, t)
                | Some w0 \<Rightarrow>
                    let w = completeRow now i decoded_result w0 in
                      (case scanToolInvocation w of
                         Inl e \<Rightarrow> (Inl e, t)
                       | Inr r \<Rightarrow>
                           if \<not> sameToolInvocation (tj_inv r) i then (Inl JournalIdentity, t)
                           else if tj_state r \<noteq> InvCompleted \<or> tj_result r = None then (Inl JournalNotCompleted, t)
                           else (Inr (cloneToolRecord r), mput (journal_key i) w t))))"

(* src/pkg/storage/tool_journal.go:58-63 sqlUncertainToolInvocation *)
definition uncertainRow :: "int \<Rightarrow> string \<Rightarrow> tool_row \<Rightarrow> tool_row" where
  "uncertainRow now code w = w\<lparr> tw_state := InvUncertain, tw_error := code, tw_updated := now \<rparr>"

(* src/pkg/storage/tool_journal.go:187-222 MarkToolInvocationUncertain *)
definition markToolInvocationUncertain :: "int \<Rightarrow> journal \<Rightarrow> tool_invocation \<Rightarrow> string \<Rightarrow> journal_error option \<times> journal" where
  "markToolInvocationUncertain now t i errorCode =
     (if \<not> validateToolInvocation i then (Some InvocationInvalid, t)
      else let code = take 128 errorCode in
        (case map_of t (journal_key i) of
           None \<Rightarrow> (Some JournalMissing, t)
         | Some w \<Rightarrow>
             if tw_inv w = i \<and> tw_state w \<noteq> InvCompleted then (None, mput (journal_key i) (uncertainRow now code w) t)
             else (case scanToolInvocation w of
                     Inl e \<Rightarrow> (Some e, t)
                   | Inr r \<Rightarrow>
                       if \<not> sameToolInvocation (tj_inv r) i then (Some JournalIdentity, t)
                       else if tj_state r = InvCompleted then (None, t)
                       else (Some JournalNotCompleted, t))))"

(* src/pkg/storage/tool_journal.go:230-245 GetToolInvocation *)
definition readToolInvocation :: "journal \<Rightarrow> tool_invocation \<Rightarrow> journal_error + tool_record option" where
  "readToolInvocation t i =
     (if \<not> validateToolInvocation i then Inl InvocationInvalid
      else case map_of t (journal_key i) of
             None \<Rightarrow> Inr None
           | Some w \<Rightarrow> if tw_inv w = i then (case scanToolInvocation w of Inl e \<Rightarrow> Inl e | Inr r \<Rightarrow> Inr (Some (cloneToolRecord r)))
                       else Inr None)"

definition principal_part_ok :: "string \<Rightarrow> bool" where
  "principal_part_ok s \<longleftrightarrow> \<not> blank s \<and> length s \<le> 512 \<and> valid_utf8 s \<and> \<not> contains_any s [CHR 0x0D, CHR 0x0A, CHR 0x00]"

(* src/pkg/storage/tool_journal.go:250-280 ListRunToolInvocations *)
definition listRunToolInvocations :: "journal \<Rightarrow> principal \<Rightarrow> string \<Rightarrow> string \<Rightarrow> journal_error + tool_record list" where
  "listRunToolInvocations t pr session run =
     (if \<not> principal_part_ok (pr_tenant pr) \<or> \<not> principal_part_ok (pr_subject pr) \<or> \<not> validateSessionID session \<or> \<not> validateRunID run
      then Inl InvocationInvalid
      else let rows = sort_key (\<lambda>w. ti_call (tw_inv w)) (filter (\<lambda>w. ti_tenant (tw_inv w) = pr_tenant pr \<and> ti_subject (tw_inv w) = pr_subject pr
                 \<and> ti_session (tw_inv w) = session \<and> ti_run (tw_inv w) = run) (map snd t))
           in foldr_err (\<lambda>records w. rbind (scanToolInvocation w) (\<lambda>r.
                if int (length records) = MaxToolInvocations then Inl JournalFull else Inr (records @ [r])))
              [] (take (nat (MaxToolInvocations + 1)) rows))"

section \<open>Histories\<close>

text \<open>
  A history of journal operations: what each caller was told, in the order the database applied them. A
  failing operation may or may not have changed the table (a lost acknowledgement).
\<close>

datatype journal_event =
    Begun tool_invocation invocation_decision tool_record
  | Completed tool_invocation tool_record
  | Silent

inductive journal_history :: "int \<Rightarrow> journal_event list \<Rightarrow> journal \<Rightarrow> bool" for cap :: int where
  history_new: "journal_history cap [] []"
| history_begin: "journal_history cap es t \<Longrightarrow> beginToolInvocation cap now t i = (Inr (r, d), t')
    \<Longrightarrow> journal_history cap (es @ [Begun i d r]) t'"
| history_begin_lost: "journal_history cap es t \<Longrightarrow> beginToolInvocation cap now t i = (res, t')
    \<Longrightarrow> journal_history cap (es @ [Silent]) t'"
| history_complete: "journal_history cap es t \<Longrightarrow> completeToolInvocation now t i result = (Inr r, t')
    \<Longrightarrow> journal_history cap (es @ [Completed i r]) t'"
| history_complete_lost: "journal_history cap es t \<Longrightarrow> completeToolInvocation now t i result = (res, t')
    \<Longrightarrow> journal_history cap (es @ [Silent]) t'"
| history_mark: "journal_history cap es t \<Longrightarrow> markToolInvocationUncertain now t i code = (res, t')
    \<Longrightarrow> journal_history cap (es @ [Silent]) t'"
| history_skip: "journal_history cap es t \<Longrightarrow> journal_history cap (es @ [Silent]) t"

text \<open>Permissions to execute that the history gave for an identity, and the results it reported.\<close>

definition executions :: "tool_invocation \<Rightarrow> journal_event list \<Rightarrow> nat" where
  "executions i es = length (filter (\<lambda>e. case e of Begun j d _ \<Rightarrow> j = i \<and> (d = ExecuteNew \<or> d = ExecuteRetry) | _ \<Rightarrow> False) es)"

definition fresh_executions :: "journal_key \<Rightarrow> journal_event list \<Rightarrow> nat" where
  "fresh_executions k es = length (filter (\<lambda>e. case e of Begun j d _ \<Rightarrow> journal_key j = k \<and> d = ExecuteNew | _ \<Rightarrow> False) es)"

fun reported :: "journal_event \<Rightarrow> (tool_invocation \<times> capability_result option) option" where
  "reported (Begun i Replay r) = Some (i, tj_result r)"
| "reported (Completed i r) = Some (i, tj_result r)"
| "reported _ = None"

lemma sameToolInvocation_iff [simp]: "sameToolInvocation l r \<longleftrightarrow> l = r"
  by (cases l; cases r) (auto simp: sameToolInvocation_def)

lemma scan_fields:
  "scanToolInvocation w = Inr r \<Longrightarrow> tj_inv r = tw_inv w \<and> tj_state r = tw_state w
     \<and> tj_result r = (case tw_result w of Some (Some x) \<Rightarrow> Some (cloneCapabilityResult x) | _ \<Rightarrow> None)"
  by (auto simp: scanToolInvocation_def cloneToolRecord_def Let_def split: if_splits option.splits)

section \<open>The fence\<close>

definition keys_ok :: "journal \<Rightarrow> bool" where
  "keys_ok t \<longleftrightarrow> (\<forall>k w. map_of t k = Some w \<longrightarrow> journal_key (tw_inv w) = k)"

text \<open>The canonical result of a completed row.\<close>

definition row_result :: "journal \<Rightarrow> tool_invocation \<Rightarrow> capability_result option" where
  "row_result t i = (case map_of t (journal_key i) of
     Some w \<Rightarrow> if tw_inv w = i \<and> tw_state w = InvCompleted
               then (case tw_result w of Some (Some x) \<Rightarrow> Some (cloneCapabilityResult x) | _ \<Rightarrow> None) else None
   | None \<Rightarrow> None)"

definition fenced :: "journal_event list \<Rightarrow> journal \<Rightarrow> bool" where
  "fenced es t \<longleftrightarrow> keys_ok t
     \<and> (\<forall>k. fresh_executions k es \<le> (if map_of t k = None then 0 else 1))
     \<and> (\<forall>i r. Begun i ExecuteRetry r \<in> set es \<longrightarrow> ti_idempotent i)
     \<and> (\<forall>e \<in> set es. \<forall>i res. reported e = Some (i, res) \<longrightarrow>
          (\<exists>x. row_result t i = Some x \<and> (res = Some x \<or> res = Some (cloneCapabilityResult x))))"

lemma fresh_executions_snoc:
  "fresh_executions k (es @ [e]) = fresh_executions k es + (case e of Begun j d _ \<Rightarrow> if journal_key j = k \<and> d = ExecuteNew then 1 else 0 | _ \<Rightarrow> 0)"
  by (simp add: fresh_executions_def split: journal_event.split)

text \<open>A step that keeps the rows of a table, adds at most the row of one key and keeps completed rows.\<close>

definition extends :: "journal \<Rightarrow> journal \<Rightarrow> bool" where
  "extends t t' \<longleftrightarrow> keys_ok t' \<and> (\<forall>k. map_of t k \<noteq> None \<longrightarrow> map_of t' k \<noteq> None) \<and> (\<forall>i x. row_result t i = Some x \<longrightarrow> row_result t' i = Some x)"

lemma fenced_extends:
  assumes "fenced es t" "extends t t'"
    "\<And>i d r. e = Begun i d r \<Longrightarrow> d = ExecuteNew \<Longrightarrow> map_of t (journal_key i) = None \<and> map_of t' (journal_key i) \<noteq> None"
    "\<And>i r. e = Begun i ExecuteRetry r \<Longrightarrow> ti_idempotent i"
    "\<And>i res. reported e = Some (i, res) \<Longrightarrow> \<exists>x. row_result t' i = Some x \<and> (res = Some x \<or> res = Some (cloneCapabilityResult x))"
  shows "fenced (es @ [e]) t'"
proof -
  have old: "fresh_executions k es \<le> (if map_of t k = None then 0 else 1)" for k
    using assms(1) unfolding fenced_def by blast
  have "fresh_executions k (es @ [e]) \<le> (if map_of t' k = None then 0 else 1)" for k
  proof (cases "\<exists>i r. e = Begun i ExecuteNew r \<and> journal_key i = k")
    case True
    then have n: "map_of t k = None" "map_of t' k \<noteq> None" using assms(3) by auto
    then have "fresh_executions k es = 0" using old[of k] by simp
    with True n show ?thesis by (auto simp: fresh_executions_snoc)
  next
    case False
    then have "fresh_executions k (es @ [e]) = fresh_executions k es"
      by (auto simp: fresh_executions_snoc split: journal_event.split)
    moreover have "map_of t k \<noteq> None \<longrightarrow> map_of t' k \<noteq> None" using assms(2) unfolding extends_def by blast
    ultimately show ?thesis using old[of k] by (auto split: if_splits)
  qed
  moreover have "ti_idempotent i" if "Begun i ExecuteRetry r \<in> set (es @ [e])" for i r
    using that assms(1,4) by (auto simp: fenced_def)
  moreover have "\<exists>x. row_result t' i = Some x \<and> (res = Some x \<or> res = Some (cloneCapabilityResult x))"
    if "e' \<in> set (es @ [e])" "reported e' = Some (i, res)" for e' i res
    using that assms(1,2,5) unfolding fenced_def extends_def by fastforce
  ultimately show ?thesis using assms(2) unfolding fenced_def extends_def by blast
qed

lemma keys_ok_mput: "keys_ok t \<Longrightarrow> journal_key (tw_inv w) = k \<Longrightarrow> keys_ok (mput k w t)"
  by (auto simp: keys_ok_def)

lemma extends_refl: "keys_ok t \<Longrightarrow> extends t t"
  by (simp add: extends_def)

lemma extends_mput:
  assumes "keys_ok t" "journal_key (tw_inv w) = k" "map_of t k = None \<or> (\<exists>w0. map_of t k = Some w0 \<and> tw_state w0 \<noteq> InvCompleted)"
  shows "extends t (mput k w t)"
  unfolding extends_def
proof (intro conjI allI impI)
  show "keys_ok (mput k w t)" using assms(1,2) by (rule keys_ok_mput)
  show "map_of t k' \<noteq> None \<Longrightarrow> map_of (mput k w t) k' \<noteq> None" for k' by simp
  fix i x
  assume x: "row_result t i = Some x"
  have "journal_key i \<noteq> k"
  proof
    assume "journal_key i = k"
    with x assms(3) show False by (auto simp: row_result_def split: if_splits)
  qed
  with x show "row_result (mput k w t) i = Some x" by (simp add: row_result_def)
qed

lemma begin_step:
  assumes "keys_ok t" "beginToolInvocation cap now t i = (res, t')"
  shows "extends t t'"
    and "res = Inr (r, ExecuteNew) \<Longrightarrow> map_of t (journal_key i) = None \<and> map_of t' (journal_key i) \<noteq> None"
    and "res = Inr (r, ExecuteRetry) \<Longrightarrow> ti_idempotent i"
    and "res = Inr (r, Replay) \<Longrightarrow> row_result t' i = tj_result r \<and> tj_result r \<noteq> None"
proof -
  show "extends t t'"
    using assms extends_refl[OF assms(1)] extends_mput[of t "started_row now i" "journal_key i"]
    by (auto simp: beginToolInvocation_def started_row_def split: if_splits option.splits sum.splits journal_error.splits)
  show "res = Inr (r, ExecuteNew) \<Longrightarrow> map_of t (journal_key i) = None \<and> map_of t' (journal_key i) \<noteq> None"
    using assms(2) by (auto simp: beginToolInvocation_def existingDecision_def
        split: if_splits option.splits sum.splits journal_error.splits invocation_state.splits)
  show "res = Inr (r, ExecuteRetry) \<Longrightarrow> ti_idempotent i"
    using assms(2) by (auto simp: beginToolInvocation_def existingDecision_def
        split: if_splits option.splits sum.splits journal_error.splits invocation_state.splits)
  assume "res = Inr (r, Replay)"
  then obtain w where w: "map_of t (journal_key i) = Some w" "scanToolInvocation w = Inr r" "t' = t"
    and r: "tj_inv r = i" "tj_state r = InvCompleted" "tj_result r \<noteq> None"
    using assms(2) by (auto simp: beginToolInvocation_def existingDecision_def getToolInvocation_def
        split: if_splits option.splits sum.splits journal_error.splits invocation_state.splits)
  with scan_fields[OF w(2)] show "row_result t' i = tj_result r \<and> tj_result r \<noteq> None"
    by (auto simp: row_result_def)
qed

lemma extends_same: "keys_ok t \<Longrightarrow> map_of t' = map_of t \<Longrightarrow> extends t t'"
  by (simp add: extends_def keys_ok_def row_result_def)

lemma complete_step:
  assumes "keys_ok t" "completeToolInvocation now t i result = (res, t')"
  shows "extends t t'"
    and "res = Inr r \<Longrightarrow> \<exists>x. row_result t' i = Some x \<and> tj_result r = Some (cloneCapabilityResult x)"
proof -
  have cases: "t' = t \<and> \<not> is_ok res \<or> (\<exists>w0 w r0. map_of t (journal_key i) = Some w0 \<and> t' = mput (journal_key i) w t
      \<and> scanToolInvocation w = Inr r0 \<and> tw_inv w = i \<and> tw_state w = InvCompleted \<and> tj_result r0 \<noteq> None \<and> res = Inr (cloneToolRecord r0)
      \<and> (w = w0 \<or> tw_state w0 \<noteq> InvCompleted))"
  proof (cases "map_of t (journal_key i)")
    case None
    then show ?thesis using assms(2) by (auto simp: completeToolInvocation_def split: if_splits option.splits)
  next
    case (Some w0)
    have row: "completeRow now i x w0 = w0 \<or> tw_state w0 \<noteq> InvCompleted" for x by (auto simp: completeRow_def)
    consider (err) "t' = t" "\<not> is_ok res"
      | (ok) x r0 where "scanToolInvocation (completeRow now i x w0) = Inr r0" "tj_inv r0 = i" "tj_state r0 = InvCompleted"
          "tj_result r0 \<noteq> None" "t' = mput (journal_key i) (completeRow now i x w0) t" "res = Inr (cloneToolRecord r0)"
      using assms(2) Some
      by (auto simp: completeToolInvocation_def Let_def split: if_splits option.splits sum.splits dest!: sym[of "Inl _"])
    then show ?thesis
    proof cases
      case (ok x r0)
      have "tw_inv (completeRow now i x w0) = i" "tw_state (completeRow now i x w0) = InvCompleted"
        using scan_fields[OF ok(1)] ok(2,3) by simp_all
      with ok row[of x] Some show ?thesis by blast
    qed simp
  qed
  then show "extends t t'"
  proof
    assume "\<exists>w0 w r0. map_of t (journal_key i) = Some w0 \<and> t' = mput (journal_key i) w t
      \<and> scanToolInvocation w = Inr r0 \<and> tw_inv w = i \<and> tw_state w = InvCompleted \<and> tj_result r0 \<noteq> None \<and> res = Inr (cloneToolRecord r0)
      \<and> (w = w0 \<or> tw_state w0 \<noteq> InvCompleted)"
    then obtain w0 w where w: "map_of t (journal_key i) = Some w0" "t' = mput (journal_key i) w t" "tw_inv w = i"
      "w = w0 \<or> tw_state w0 \<noteq> InvCompleted" by blast
    show ?thesis
    proof (cases "w = w0")
      case True
      then have "map_of t' = map_of t" using w(1,2) by (simp add: fun_upd_idem)
      then show ?thesis using assms(1) by (rule extends_same[rotated])
    next
      case False
      then show ?thesis using w assms(1) extends_mput[of t w "journal_key i"] by simp
    qed
  qed (use assms(1) in \<open>simp add: extends_refl\<close>)
  assume "res = Inr r"
  with cases obtain w r0 where w: "t' = mput (journal_key i) w t" "scanToolInvocation w = Inr r0" "tw_inv w = i"
    "tw_state w = InvCompleted" "tj_result r0 \<noteq> None" "r = cloneToolRecord r0" by auto
  then have "row_result t' i = tj_result r0" using scan_fields[OF w(2)] by (simp add: row_result_def)
  with w(5,6) show "\<exists>x. row_result t' i = Some x \<and> tj_result r = Some (cloneCapabilityResult x)"
    by (auto simp: cloneToolRecord_def)
qed

lemma mark_step:
  assumes "keys_ok t" "markToolInvocationUncertain now t i code = (res, t')"
  shows "extends t t'"
proof (cases "map_of t (journal_key i)")
  case None
  then show ?thesis using assms extends_refl by (auto simp: markToolInvocationUncertain_def split: if_splits)
next
  case (Some w)
  then have "extends t (mput (journal_key i) (uncertainRow now (take 128 code) w) t)" if "tw_inv w = i" "tw_state w \<noteq> InvCompleted"
    using assms(1) that by (intro extends_mput) (auto simp: uncertainRow_def)
  then show ?thesis using assms Some extends_refl[OF assms(1)]
    by (auto simp: markToolInvocationUncertain_def Let_def split: if_splits sum.splits)
qed

lemma history_fenced: "journal_history cap es t \<Longrightarrow> fenced es t"
proof (induction rule: journal_history.induct)
  case history_new
  then show ?case by (simp add: fenced_def keys_ok_def fresh_executions_def)
next
  case (history_begin es t now i r d t')
  then have k: "keys_ok t" by (simp add: fenced_def)
  note b = begin_step[OF k history_begin.hyps(2)]
  show ?case
  proof (rule fenced_extends[OF history_begin.IH b(1)])
    show "\<exists>x. row_result t' j = Some x \<and> (res = Some x \<or> res = Some (cloneCapabilityResult x))"
      if "reported (Begun i d r) = Some (j, res)" for j res
      using that b(4)[of r] by (cases d) auto
  qed (use b(2,3)[of r] in auto)
next
  case (history_begin_lost es t now i res t')
  then show ?case by (intro fenced_extends[OF history_begin_lost.IH begin_step(1)]) (auto simp: fenced_def)
next
  case (history_complete es t now i result r t')
  then have k: "keys_ok t" by (simp add: fenced_def)
  show ?case
    using complete_step[OF k history_complete.hyps(2)] by (intro fenced_extends[OF history_complete.IH]) auto
next
  case (history_complete_lost es t now i result res t')
  then show ?case by (intro fenced_extends[OF history_complete_lost.IH complete_step(1)]) (auto simp: fenced_def)
next
  case (history_mark es t now i code res t')
  then show ?case by (intro fenced_extends[OF history_mark.IH mark_step]) (auto simp: fenced_def)
next
  case (history_skip es t)
  then show ?case by (intro fenced_extends[OF history_skip.IH extends_refl]) (auto simp: fenced_def)
qed

lemma length_filter_mono: "(\<And>x. x \<in> set xs \<Longrightarrow> P x \<Longrightarrow> Q x) \<Longrightarrow> length (filter P xs) \<le> length (filter Q xs)"
  by (induction xs) auto

text \<open>C4: The journal fences side effects. In every history of journal operations, whatever their order and
  even when acknowledgements are lost, a call that is not idempotent is told to execute at most once; and
  no run/call key is ever claimed as new twice.\<close>
theorem journal_at_most_once:
  assumes "journal_history cap es t"
  shows "fresh_executions k es \<le> 1 \<and> (\<not> ti_idempotent i \<longrightarrow> executions i es \<le> 1)"
proof -
  have f: "fenced es t" using assms by (rule history_fenced)
  have fresh: "fresh_executions k es \<le> 1" for k
  proof -
    have "fresh_executions k es \<le> (if map_of t k = None then 0 else 1)" using f unfolding fenced_def by blast
    then show ?thesis by (simp split: if_splits)
  qed
  moreover have "executions i es \<le> fresh_executions (journal_key i) es" if "\<not> ti_idempotent i"
  proof -
    have retry: "Begun i ExecuteRetry r \<notin> set es" for r using f that unfolding fenced_def by blast
    show ?thesis unfolding executions_def fresh_executions_def
      by (rule length_filter_mono) (use retry in \<open>auto split: journal_event.splits\<close>)
  qed
  ultimately show ?thesis using order_trans by blast
qed

text \<open>C22: A completed call has one result. All results a history reports for an identity, by completing it
  or by replaying it, are the same value, up to the copy made when it is handed out.\<close>
theorem journal_replay_canonical:
  assumes "journal_history cap es t" "e \<in> set es" "reported e = Some (i, res)"
  shows "\<exists>x. row_result t i = Some x \<and> (res = Some x \<or> res = Some (cloneCapabilityResult x))"
  using history_fenced[OF assms(1)] assms(2,3) unfolding fenced_def by blast

section \<open>An example\<close>

definition ex_invocation :: tool_invocation where
  "ex_invocation = \<lparr> ti_tenant = ''t'', ti_subject = ''u'', ti_session = ''s1'', ti_run = ''r1'', ti_call = ''c1'',
     ti_capability = ''files.write'', ti_argsDigest = replicate 64 (CHR ''a''), ti_idempotent = False \<rparr>"

definition ex_result :: capability_result where
  "ex_result = \<lparr> cr_content = ''done'', cr_ok = True, cr_metadata = None \<rparr>"

definition ex_claimed :: journal where "ex_claimed = snd (beginToolInvocation 0 1 [] ex_invocation)"
definition ex_finished :: journal where "ex_finished = snd (completeToolInvocation 2 ex_claimed ex_invocation ex_result)"

definition ex_decision :: "journal \<Rightarrow> invocation_decision option" where
  "ex_decision t = (case fst (beginToolInvocation 0 3 t ex_invocation) of Inr (_, d) \<Rightarrow> Some d | Inl _ \<Rightarrow> None)"

lemma ex_journal_facts:
  "ex_decision [] = Some ExecuteNew \<and> ex_decision ex_claimed = Some OutcomeUnknown \<and> ex_decision ex_finished = Some Replay
   \<and> is_ok (fst (completeToolInvocation 2 ex_claimed ex_invocation ex_result))
   \<and> is_ok (fst (beginToolInvocation 0 1 [] ex_invocation))
   \<and> row_result ex_finished ex_invocation = Some ex_result"
  by code_simp

lemma ex_claimed_history: "\<exists>d r. journal_history 0 [Begun ex_invocation d r] ex_claimed"
proof -
  have "is_ok (fst (beginToolInvocation 0 1 [] ex_invocation))" using ex_journal_facts by blast
  then obtain r d where "beginToolInvocation 0 1 [] ex_invocation = (Inr (r, d), ex_claimed)"
    by (cases "beginToolInvocation 0 1 [] ex_invocation") (auto simp: is_ok_iff ex_claimed_def)
  from history_begin[OF history_new this] show ?thesis by auto
qed

lemma ex_finished_history: "\<exists>d r r'. journal_history 0 [Begun ex_invocation d r, Completed ex_invocation r'] ex_finished"
proof -
  obtain d r where h: "journal_history 0 [Begun ex_invocation d r] ex_claimed" using ex_claimed_history by blast
  have "is_ok (fst (completeToolInvocation 2 ex_claimed ex_invocation ex_result))" using ex_journal_facts by blast
  then obtain r' where "completeToolInvocation 2 ex_claimed ex_invocation ex_result = (Inr r', ex_finished)"
    by (cases "completeToolInvocation 2 ex_claimed ex_invocation ex_result") (auto simp: is_ok_iff ex_finished_def)
  from history_complete[OF h this] show ?thesis by auto
qed

theorem journal_at_most_once_witness:
  "\<exists>es t. journal_history 0 es t \<and> length es = 1 \<and> executions ex_invocation es \<le> 1"
proof -
  obtain d r where h: "journal_history 0 [Begun ex_invocation d r] ex_claimed" using ex_claimed_history by blast
  from journal_at_most_once[OF h, of "journal_key ex_invocation" ex_invocation] h show ?thesis
    by (intro exI[of _ "[Begun ex_invocation d r]"] exI[of _ ex_claimed]) (simp add: ex_invocation_def)
qed

theorem journal_replay_canonical_witness:
  "\<exists>(r :: tool_record) x. row_result ex_finished ex_invocation = Some x \<and> (tj_result r = Some x \<or> tj_result r = Some (cloneCapabilityResult x))"
proof -
  obtain d r r' where h: "journal_history 0 [Begun ex_invocation d r, Completed ex_invocation r'] ex_finished"
    using ex_finished_history by blast
  have "Completed ex_invocation r' \<in> set [Begun ex_invocation d r, Completed ex_invocation r']" by simp
  then have "\<exists>x. row_result ex_finished ex_invocation = Some x \<and> (tj_result r' = Some x \<or> tj_result r' = Some (cloneCapabilityResult x))"
    by (rule journal_replay_canonical[OF h]) simp
  then show ?thesis by (rule exI)
qed

end
