(* ===== verification/Run_Effects.thy ===== *)
theory Run_Effects
  imports Tool_Journal "HOL-Library.State_Monad"
begin

text \<open>
  The environment of a run and the state an agent threads through it (\<open>src/pkg/core/agent.go\<close>,
  \<open>hooks.go\<close>, \<open>agent_guard_support.go\<close>). Everything a caller plugs into the agent (hooks, approver,
  rate limiter, journal, tools, model, event consumer) is a function over a world \<open>'w\<close> of its own; such a
  function may panic, and the \<open>safe...\<close> wrappers of the code turn that into a value. The agent's state
  is threaded by the state monad. A step relation that every operation respects is established by
  composing it over the structure of the code (locale \<open>respecting\<close>).
\<close>

section \<open>Outcomes of foreign code\<close>

datatype 'a outcome = Returns 'a | Panics

text \<open>
  An error as far as the code inspects it: its text, whether \<open>errors.Is\<close> finds a cancellation or an
  exceeded deadline in it, and whether it declares itself retryable.
\<close>

record go_error =
  er_text :: string
  er_cancelled :: bool
  er_retryable :: bool

definition plain_error :: "string \<Rightarrow> go_error" where
  "plain_error msg = \<lparr> er_text = msg, er_cancelled = False, er_retryable = False \<rparr>"

(* src/pkg/core/agent_guard_support.go:76-83 safeCallError *)
fun safeCallError :: "string \<Rightarrow> go_error option outcome \<Rightarrow> go_error option" where
  "safeCallError message (Returns e) = e"
| "safeCallError message Panics = Some (plain_error message)"

(* src/pkg/core/agent_guard_support.go:85-92 safeCallValue *)
fun safeCallValue :: "'a \<Rightarrow> 'a outcome \<Rightarrow> 'a" where
  "safeCallValue fallback (Returns x) = x"
| "safeCallValue fallback Panics = fallback"

(* src/pkg/core/agent_guard_support.go:94-102 safeCallValueError *)
fun safeCallValueError :: "string \<Rightarrow> (go_error + 'a) outcome \<Rightarrow> go_error + 'a" where
  "safeCallValueError message (Returns r) = r"
| "safeCallValueError message Panics = Inl (plain_error message)"

section \<open>Approvals\<close>

(* src/pkg/core/hooks.go:101-108 ApprovalResolution *)
record approval_resolution =
  as_approvalID :: string
  as_decision :: approval_decision
  as_requestedAt :: gotime
  as_expiresAt :: gotime
  as_decidedAt :: gotime
  as_decidedBy :: string

(* src/pkg/core/hooks.go:111-117 ApprovalRequest *)
record approval_request =
  ap_run :: string
  ap_session :: string
  ap_principal :: principal
  ap_call :: tool_call
  ap_manifest :: capability_manifest

text \<open>
  The errors a run distinguishes: a suspension (\<open>ApprovalPendingError\<close>), the mark
  \<open>errFastToolCallAppend\<close> of a fast route, and all others.
\<close>

datatype run_error =
    PendingError approval_request approval_resolution
  | FastAppendError go_error
  | OtherError go_error

(* src/pkg/core/hooks.go:148-153 Error *)
definition pending_text :: "approval_request \<Rightarrow> approval_resolution \<Rightarrow> string" where
  "pending_text rq rs = ''approval '' @ as_approvalID rs @ '' is pending for tool '' @ tc_name (ap_call rq)"

fun error_of :: "run_error \<Rightarrow> go_error" where
  "error_of (PendingError rq rs) = plain_error (pending_text rq rs)"
| "error_of (FastAppendError e) = e"
| "error_of (OtherError e) = e"

(* src/pkg/core/hooks.go:156-162 IsApprovalPending *)
fun isApprovalPending :: "run_error option \<Rightarrow> (approval_request \<times> approval_resolution) option" where
  "isApprovalPending (Some (PendingError rq rs)) = Some (rq, rs)"
| "isApprovalPending _ = None"

text \<open>
  Messages whose wording the model leaves open: a parameter of the environment gives the text.
\<close>

datatype replay_fault = ReplayIdentity | ReplayNotCompleted | ReplayResult | ReplayTooLarge | ReplayNotJson | ReplaySchema

datatype stream_fault =
    AfterFinish string | UsageTwice | NegativeUsage | UsageTooLarge | AssistantFinish string | TextTooLong | TooManyCalls
  | FinishContent | FinishUnknown string | KindUnknown string | NoFinish | InvalidCall tool_call | DuplicateCall string
  | CallsMissing | CallsUnexpected | NoContent

datatype call_fault =
    CallScopeEmpty | CallSessionInvalid | CallRunInvalid | CallStepInvalid | CallLabelInvalid | CallBudgetNegative
  | CallPrincipalInvalid | CallScopeForeign | TooManyGrants | TooManyAttributes | GrantInvalid | AttributeKeyInvalid
  | AttributeValueInvalid string | ClaimsNotEncodable | ClaimsTooLarge

datatype continuation_fault =
    NotOpen | NotLatest | Interleaved | MalformedEvent event_error | DuplicateStart | UserInterleaved | StepSequence
  | ArtifactInterleaved | UsageInvalid | UsageMismatch | AssistantInvalid | LegacyConflict | AssistantNoCalls
  | CallsInvalid | CallSequence | ResultSequence | StepUnbalanced | UnsupportedEvent | OutcomeLost | NotPostResult

datatype turn_fault =
    TurnRunID | TurnTextEmpty | TurnOverride | TurnNoPending string | TurnFastResult | TurnFastResultMissing
  | ContinueFast | ContinueUnauthorized string | AgentLimit | IDPrefix
  | ContinuationFault continuation_fault

datatype fault =
    StreamFault stream_fault | ModelCallFault call_fault | TurnFault turn_fault
  | ArgsFault schema_fault | InvocationFault journal_error | SessionFault session_error | ReplayFault replay_fault
  | CallFault | LibraryFault | QuotedText string | CloneFault args_error | OutputFault | MetadataFault metadata_error | CompositionFault composition_error

section \<open>The environment\<close>

type_synonym exec_result = "capability_result \<times> run_error option"

text \<open>
  A provider that runs under the guard: it may invoke other tools through the guard, and continues with
  what the invocation returned.
\<close>

datatype 'w script =
    Finish "exec_result outcome" 'w
  | Nested tool_call 'w "exec_result \<Rightarrow> 'w \<Rightarrow> 'w script"

text \<open>
  What the context of a tool call carries: the invocation, the calls left in the run, the composition
  revision and the proof of acceptance (invocation, scope and principal).
\<close>

(* src/pkg/core/trust_gate.go:21-26 AcceptedInvocation *)
record accepted_invocation =
  ac_invocation :: tool_invocation
  ac_scope :: scope_path
  ac_principal :: principal

(* src/pkg/core/capability.go:20-24 capabilityInvocationContext *)
record tool_context =
  tx_invocation :: invocation
  tx_remaining :: int
  tx_revision :: string
  tx_accepted :: "accepted_invocation option"

datatype 'w executor =
    Plain "tool_context \<Rightarrow> tool_call \<Rightarrow> 'w \<Rightarrow> exec_result outcome \<times> 'w"
  | Protected "tool_context \<Rightarrow> tool_call \<Rightarrow> 'w \<Rightarrow> 'w script"

text \<open>
  A tool runtime, with the optional method sets \<open>manifestSource\<close> and \<open>budgetReporter\<close>; the executor
  tells whether it is a \<open>protectedToolRuntime\<close>.
\<close>

(* src/pkg/core/agent.go:25-30 ToolRuntime *)
record 'w tool_runtime =
  rt_schemas :: "tool_schema list outcome"
  rt_authorized :: "string \<Rightarrow> bool outcome"
  rt_manifestFor :: "(string \<Rightarrow> capability_manifest option outcome) option"
  rt_budgetFor :: "(string \<Rightarrow> int outcome) option"
  rt_execute :: "'w executor"

(* src/pkg/core/hooks.go:21-28 RunHooks *)
record 'w run_hooks =
  hk_runStart :: "run_info \<Rightarrow> 'w \<Rightarrow> go_error option outcome \<times> 'w"
  hk_beforeStep :: "run_info \<Rightarrow> 'w \<Rightarrow> go_error option outcome \<times> 'w"
  hk_beforeTool :: "run_info \<Rightarrow> tool_call \<Rightarrow> 'w \<Rightarrow> go_error option outcome \<times> 'w"
  hk_afterTool :: "run_info \<Rightarrow> tool_call \<Rightarrow> capability_result \<Rightarrow> 'w \<Rightarrow> 'w"
  hk_afterStep :: "run_info \<Rightarrow> 'w \<Rightarrow> 'w"
  hk_runEnd :: "run_info \<Rightarrow> run_status \<Rightarrow> 'w \<Rightarrow> 'w"

datatype 'w approver =
    Immediate "approval_request \<Rightarrow> 'w \<Rightarrow> (go_error + approval_decision) outcome \<times> 'w"
  | Durable "approval_request \<Rightarrow> 'w \<Rightarrow> (go_error + approval_resolution) outcome \<times> 'w"

text \<open>A journal; a decision outside the vocabulary of the code is \<open>None\<close>.\<close>

(* src/pkg/core/tool_journal.go:68-72 ToolInvocationJournal *)
record 'w journal_ops =
  jo_begin :: "tool_invocation \<Rightarrow> 'w \<Rightarrow> (go_error + tool_record \<times> invocation_decision option) outcome \<times> 'w"
  jo_complete :: "tool_invocation \<Rightarrow> capability_result \<Rightarrow> 'w \<Rightarrow> (go_error + tool_record) outcome \<times> 'w"
  jo_uncertain :: "tool_invocation \<Rightarrow> string \<Rightarrow> 'w \<Rightarrow> 'w"

text \<open>
  The options of an agent that its guard and its loop consult. \<open>ao_done\<close> is the text of
  \<open>ctx.Err()\<close> once the context of the run is done; \<open>ao_clock\<close> is the clock of the session, \<open>ao_rx\<close> the regular expression engine,
  \<open>ao_unmarshal\<close> the decoder of \<open>encoding/json\<close> and \<open>ao_text\<close> the wording of messages.
\<close>

(* src/pkg/core/agent.go:33-69 AgentOptions *)
record 'w agent_options =
  ao_tools :: "'w tool_runtime"
  ao_maxSteps :: int
  ao_maxToolCalls :: int
  ao_onEvent :: "(session_event \<Rightarrow> 'w \<Rightarrow> unit outcome \<times> 'w) option"
  ao_hooks :: "'w run_hooks option"
  ao_approver :: "'w approver option"
  ao_limiter :: "(string \<Rightarrow> string \<Rightarrow> 'w \<Rightarrow> bool outcome \<times> 'w) option"
  ao_journal :: "'w journal_ops option"
  ao_done :: "'w \<Rightarrow> string option"
  ao_clock :: "nat \<Rightarrow> gotime"
  ao_rx :: regexp
  ao_unmarshal :: "string \<Rightarrow> json option"
  ao_text :: "fault \<Rightarrow> string"

section \<open>The state of a run\<close>

(* src/pkg/core/agent.go:97-107 Agent *)
record 'w agent =
  ag_session :: session
  ag_runID :: string
  ag_counts :: "(string, int) gomap"
  ag_toolCalls :: int
  ag_resolutions :: "(string, approval_resolution) gomap"
  ag_resumeIDs :: "string list"
  ag_revision :: string
  ag_world :: 'w

type_synonym ('w, 'a) act = "('w agent, 'a) state"

abbreviation ret :: "'a \<Rightarrow> ('s, 'a) state" where "ret \<equiv> State_Monad.return"
abbreviation modify :: "('s \<Rightarrow> 's) \<Rightarrow> ('s, unit) state" where "modify \<equiv> State_Monad.update"

definition gets :: "('s \<Rightarrow> 'a) \<Rightarrow> ('s, 'a) state" where
  "gets f = State (\<lambda>s. (f s, s))"

text \<open>A call of foreign code: it sees and changes the world only.\<close>

definition foreign :: "('w \<Rightarrow> 'a \<times> 'w) \<Rightarrow> ('w, 'a) act" where
  "foreign f = State (\<lambda>a. case f (ag_world a) of (x, w) \<Rightarrow> (x, a\<lparr> ag_world := w \<rparr>))"

definition notify :: "('w \<Rightarrow> 'w) \<Rightarrow> ('w, unit) act" where
  "notify f = modify (\<lambda>a. a\<lparr> ag_world := f (ag_world a) \<rparr>)"

lemma run_state_simps [simp]:
  "run_state (modify f) s = ((), f s)"
  "run_state (gets g) s = (g s, s)"
  "run_state (State_Monad.bind m k) s = (case run_state m s of (x, s') \<Rightarrow> run_state (k x) s')"
  "run_state (foreign h) a = (case h (ag_world a) of (x, w) \<Rightarrow> (x, a\<lparr> ag_world := w \<rparr>))"
  "run_state (notify j) a = ((), a\<lparr> ag_world := j (ag_world a) \<rparr>)"
  by (simp_all add: State_Monad.return_def State_Monad.update_def State_Monad.bind_def State_Monad.get_def
      State_Monad.set_def gets_def foreign_def notify_def split: prod.splits)

section \<open>Relations between the states before and after\<close>

definition stays :: "('s \<Rightarrow> 's \<Rightarrow> bool) \<Rightarrow> ('s, 'a) state \<Rightarrow> bool" where
  "stays R m \<longleftrightarrow> (\<forall>s. R s (snd (run_state m s)))"

lemma stays_if: "stays R m \<Longrightarrow> stays R n \<Longrightarrow> stays R (if b then m else n)"
  by simp

locale respecting =
  fixes R :: "'w agent \<Rightarrow> 'w agent \<Rightarrow> bool"
  assumes R_refl: "R a a"
    and R_trans: "R a b \<Longrightarrow> R b c \<Longrightarrow> R a c"
    and R_world: "R a (a\<lparr> ag_world := w \<rparr>)"
begin

lemma stays_ret: "stays R (ret x)"
  by (simp add: stays_def R_refl)

lemma stays_gets: "stays R (gets f)"
  by (simp add: stays_def R_refl)

lemma stays_bind:
  assumes "stays R m" "\<And>x. stays R (k x)"
  shows "stays R (State_Monad.bind m k)"
  using assms R_trans by (auto simp: stays_def split: prod.splits) (metis snd_conv)

lemma stays_modify: "(\<And>a. R a (f a)) \<Longrightarrow> stays R (modify f)"
  by (simp add: stays_def)

lemma stays_foreign: "stays R (foreign f)"
  by (simp add: stays_def R_world split: prod.splits)

lemma stays_notify: "stays R (notify f)"
  by (simp add: stays_def R_world)

lemmas stays_intros = stays_ret stays_gets stays_bind stays_foreign stays_notify

end

end
