(* ===== verification/Model_Stream.thy ===== *)
theory Model_Stream
  imports Run_Effects
begin

text \<open>
  The protocol boundary of model adapters (\<open>src/pkg/core/llm.go\<close>): an adapter emits chunks, the consumer
  checks order, limits and the terminal state, and yields one normalized result. An adapter is a machine
  that emits a chunk and continues, knowing whether the consumer has cancelled the stream. The facts: an
  accepted result has the shape the session log demands of an assistant message, so that recording it
  cannot be refused.
\<close>

section \<open>Data\<close>

(* src/pkg/core/llm.go:10-15 StreamKindAssistant *)
definition StreamKindAssistant :: string where "StreamKindAssistant = ''assistant''"
definition StreamKindFinish :: string where "StreamKindFinish = ''finish''"
definition FinishStop :: string where "FinishStop = ''stop''"
definition FinishToolCalls :: string where "FinishToolCalls = ''tool-calls''"

(* src/pkg/core/llm.go:17-22 maxModelTextBytes *)
definition maxModelTextBytes :: nat where "maxModelTextBytes = 8388608"
definition maxModelToolCalls :: nat where "maxModelToolCalls = 128"
definition MaxReportedTokensPerRun :: int where "MaxReportedTokensPerRun = 10000000000000"

(* src/pkg/core/llm.go:42-49 StreamChunk *)
record stream_chunk =
  sk_kind :: string
  sk_text :: string
  sk_toolCall :: "tool_call option"
  sk_toolCalls :: "tool_call list"
  sk_usage :: "token_usage option"
  sk_finish :: string

(* src/pkg/core/llm.go:59-65 modelStreamResult *)
record stream_result =
  mr_usageReported :: bool
  mr_text :: string
  mr_calls :: "tool_call list"
  mr_usage :: token_usage
  mr_finish :: string

text \<open>
  The variables of the consumer: the text and calls so far, the flags, the protocol error and whether the
  stream context was cancelled.
\<close>

record stream_state =
  ss_text :: string
  ss_calls :: "tool_call list"
  ss_finished :: bool
  ss_usage :: "token_usage option"
  ss_finish :: string
  ss_error :: "go_error option"
  ss_cancelled :: bool

definition initialStream :: stream_state where
  "initialStream = \<lparr> ss_text = [], ss_calls = [], ss_finished = False, ss_usage = None, ss_finish = [],
     ss_error = None, ss_cancelled = False \<rparr>"

text \<open>An adapter: it emits chunks, then returns.\<close>

(* src/pkg/core/llm.go:54-57 LlmAdapter *)
datatype 'w stream =
    StreamReturn "go_error option outcome" 'w
  | StreamEmit stream_chunk 'w "bool \<Rightarrow> 'w \<Rightarrow> 'w stream"

section \<open>The consumer\<close>

(* src/pkg/core/agent.go:889-896 containsCall *)
definition containsCall :: "tool_call list \<Rightarrow> tool_call \<Rightarrow> bool" where
  "containsCall calls call \<longleftrightarrow> list_ex (\<lambda>c. tc_id c = tc_id call \<and> tc_name c = tc_name call) calls"

definition fault_error :: "(fault \<Rightarrow> string) \<Rightarrow> stream_fault \<Rightarrow> go_error" where
  "fault_error wording f = plain_error (wording (StreamFault f))"

definition reject :: "(fault \<Rightarrow> string) \<Rightarrow> stream_fault \<Rightarrow> bool \<Rightarrow> stream_state \<Rightarrow> stream_state" where
  "reject wording f cancel st = st\<lparr> ss_error := Some (fault_error wording f), ss_cancelled := ss_cancelled st \<or> cancel \<rparr>"

(* src/pkg/core/llm.go:132-143 consumeModelStream *)
fun appendStreamCalls :: "(fault \<Rightarrow> string) \<Rightarrow> tool_call list \<Rightarrow> stream_state \<Rightarrow> stream_state" where
  "appendStreamCalls wording [] st = st"
| "appendStreamCalls wording (call # items) st =
     (if containsCall (ss_calls st) call then appendStreamCalls wording items st
      else if length (ss_calls st) \<ge> maxModelToolCalls then reject wording TooManyCalls True st
      else appendStreamCalls wording items (st\<lparr> ss_calls := ss_calls st @ [call] \<rparr>))"

(* src/pkg/core/llm.go:102-119 consumeModelStream *)
definition acceptUsage :: "(fault \<Rightarrow> string) \<Rightarrow> stream_chunk \<Rightarrow> stream_state \<Rightarrow> stream_state" where
  "acceptUsage wording chunk st =
     (case sk_usage chunk of
        None \<Rightarrow> st
      | Some u \<Rightarrow>
          if ss_usage st \<noteq> None then reject wording UsageTwice False st
          else if tu_input u < 0 \<or> tu_output u < 0 then reject wording NegativeUsage False st
          else if tu_input u > MaxReportedTokensPerCall \<or> tu_output u > MaxReportedTokensPerCall then reject wording UsageTooLarge True st
          else st\<lparr> ss_usage := Some u \<rparr>)"

(* src/pkg/core/llm.go:156-169 consumeModelStream *)
definition acceptFinish :: "(fault \<Rightarrow> string) \<Rightarrow> stream_chunk \<Rightarrow> stream_state \<Rightarrow> stream_state" where
  "acceptFinish wording chunk st =
     (if sk_text chunk \<noteq> [] \<or> sk_toolCall chunk \<noteq> None \<or> sk_toolCalls chunk \<noteq> [] then reject wording FinishContent True st
      else if sk_finish chunk = FinishStop \<or> sk_finish chunk = FinishToolCalls
        then st\<lparr> ss_finished := True, ss_finish := sk_finish chunk \<rparr>
      else reject wording (FinishUnknown (sk_finish chunk)) True st)"

text \<open>
  An assistant chunk: a callback error overrides an exceeded call limit, and the text is added unless the
  callback failed.
\<close>

(* src/pkg/core/llm.go:122-155 consumeModelStream *)
definition acceptAssistant :: "(fault \<Rightarrow> string) \<Rightarrow> (stream_chunk \<Rightarrow> ('w, go_error option outcome) act) option \<Rightarrow> stream_chunk
    \<Rightarrow> stream_state \<Rightarrow> ('w, stream_state) act" where
  "acceptAssistant wording onAssistant chunk st =
     (if sk_finish chunk \<noteq> [] then ret (reject wording (AssistantFinish (sk_finish chunk)) False st)
      else if length (ss_text st) + length (sk_text chunk) > maxModelTextBytes then ret (reject wording TextTooLong True st)
      else let st1 = (case sk_toolCall chunk of None \<Rightarrow> st | Some c \<Rightarrow> appendStreamCalls wording [c] st);
               st2 = appendStreamCalls wording (sk_toolCalls chunk) st1;
               written = st2\<lparr> ss_text := ss_text st2 @ sk_text chunk \<rparr>
           in (case onAssistant of
                 None \<Rightarrow> ret written
               | Some callback \<Rightarrow> do {
                   r \<leftarrow> callback chunk;
                   ret (case safeCallError ''model stream consumer panicked'' r of
                          Some e \<Rightarrow> st2\<lparr> ss_error := Some e, ss_cancelled := True \<rparr>
                        | None \<Rightarrow> written) }))"

(* src/pkg/core/llm.go:89-174 consumeModelStream *)
definition emitChunk :: "(fault \<Rightarrow> string) \<Rightarrow> (stream_chunk \<Rightarrow> ('w, go_error option outcome) act) option \<Rightarrow> stream_chunk
    \<Rightarrow> stream_state \<Rightarrow> ('w, stream_state) act" where
  "emitChunk wording onAssistant chunk st =
     (if ss_error st \<noteq> None then ret st
      else if ss_finished st then ret (reject wording (AfterFinish (sk_kind chunk)) False st)
      else let st1 = acceptUsage wording chunk st in
        if ss_error st1 \<noteq> None then ret st1
        else if sk_kind chunk = StreamKindAssistant then acceptAssistant wording onAssistant chunk st1
        else if sk_kind chunk = StreamKindFinish then ret (acceptFinish wording chunk st1)
        else ret (reject wording (KindUnknown (sk_kind chunk)) True st1))"

(* src/pkg/core/llm.go:257-264 safeModelStream *)
primrec runStream :: "(fault \<Rightarrow> string) \<Rightarrow> (stream_chunk \<Rightarrow> ('w, go_error option outcome) act) option \<Rightarrow> 'w stream
    \<Rightarrow> stream_state \<Rightarrow> ('w, stream_state \<times> go_error option) act" where
  "runStream wording onAssistant (StreamReturn r w) st = do {
     modify (\<lambda>a. a\<lparr> ag_world := w \<rparr>);
     ret (st, safeCallError ''model adapter panicked'' r) }"
| "runStream wording onAssistant (StreamEmit chunk w k) st = do {
     modify (\<lambda>a. a\<lparr> ag_world := w \<rparr>);
     st' \<leftarrow> emitChunk wording onAssistant chunk st;
     w' \<leftarrow> gets ag_world;
     runStream wording onAssistant (k (ss_cancelled st') w') st' }"

(* src/pkg/core/llm.go:192-201 consumeModelStream *)
fun firstBadCall :: "tool_call list \<Rightarrow> string list \<Rightarrow> stream_fault option" where
  "firstBadCall [] seen = None"
| "firstBadCall (call # calls) seen =
     (if \<not> validateToolCall call then Some (InvalidCall call)
      else if tc_id call \<in> set seen then Some (DuplicateCall (tc_id call))
      else firstBadCall calls (tc_id call # seen))"

(* src/pkg/core/llm.go:189-210 consumeModelStream *)
definition streamFault :: "stream_state \<Rightarrow> stream_fault option" where
  "streamFault st =
     (if \<not> ss_finished st then Some NoFinish
      else case firstBadCall (ss_calls st) [] of
             Some f \<Rightarrow> Some f
           | None \<Rightarrow>
               if ss_finish st = FinishToolCalls \<and> ss_calls st = [] then Some CallsMissing
               else if ss_finish st = FinishStop \<and> ss_calls st \<noteq> [] then Some CallsUnexpected
               else if ss_text st = [] \<and> ss_calls st = [] then Some NoContent
               else None)"

definition partial_result :: "stream_state \<Rightarrow> stream_result" where
  "partial_result st = \<lparr> mr_usageReported = (ss_usage st \<noteq> None), mr_text = [], mr_calls = [],
     mr_usage = (case ss_usage st of None \<Rightarrow> noUsage | Some u \<Rightarrow> u), mr_finish = ss_finish st \<rparr>"

text \<open>\<open>why\<close> is the text of \<open>ctx.Err()\<close> when the caller's context is done.\<close>

(* src/pkg/core/llm.go:176-214 consumeModelStream *)
definition finishStream :: "(fault \<Rightarrow> string) \<Rightarrow> string option \<Rightarrow> stream_state \<Rightarrow> go_error option \<Rightarrow> stream_result \<times> go_error option" where
  "finishStream wording why st streamErr =
     (let partial = partial_result st in
      case streamErr of
        Some e \<Rightarrow> (partial, Some e)
      | None \<Rightarrow>
          (case ss_error st of
             Some e \<Rightarrow> (partial, Some e)
           | None \<Rightarrow>
               (case why of
                  Some t \<Rightarrow> (partial, Some \<lparr> er_text = t, er_cancelled = True, er_retryable = False \<rparr>)
                | None \<Rightarrow>
                    (case streamFault st of
                       Some f \<Rightarrow> (partial, Some (fault_error wording f))
                     | None \<Rightarrow> (partial\<lparr> mr_text := ss_text st, mr_calls := ss_calls st \<rparr>, None)))))"

(* src/pkg/core/llm.go:70-214 consumeModelStream *)
definition consumeModelStream :: "'w agent_options \<Rightarrow> 'w stream \<Rightarrow> (stream_chunk \<Rightarrow> ('w, go_error option outcome) act) option
    \<Rightarrow> ('w, stream_result \<times> go_error option) act" where
  "consumeModelStream opts stream onAssistant = do {
     (st, streamErr) \<leftarrow> runStream (ao_text opts) onAssistant stream initialStream;
     w \<leftarrow> gets ag_world;
     ret (finishStream (ao_text opts) (ao_done opts w) st streamErr) }"

(* src/pkg/core/llm.go:228-235 ConsumeModelStreamUsage *)
definition consumeModelStreamUsage :: "'w agent_options \<Rightarrow> 'w stream \<Rightarrow> (stream_chunk \<Rightarrow> ('w, go_error option outcome) act) option
    \<Rightarrow> ('w, token_usage option \<times> go_error option) act" where
  "consumeModelStreamUsage opts stream onAssistant = do {
     (result, err) \<leftarrow> consumeModelStream opts stream onAssistant;
     ret (if mr_usageReported result then Some (mr_usage result) else None, err) }"

section \<open>What the consumer guarantees\<close>

definition usage_within :: "token_usage \<Rightarrow> bool" where
  "usage_within u \<longleftrightarrow> 0 \<le> tu_input u \<and> tu_input u \<le> MaxReportedTokensPerCall \<and> 0 \<le> tu_output u \<and> tu_output u \<le> MaxReportedTokensPerCall"

definition stream_ok :: "stream_state \<Rightarrow> bool" where
  "stream_ok st \<longleftrightarrow> length (ss_text st) \<le> maxModelTextBytes \<and> length (ss_calls st) \<le> maxModelToolCalls
     \<and> (\<forall>u. ss_usage st = Some u \<longrightarrow> usage_within u)
     \<and> (ss_finished st \<longrightarrow> ss_finish st = FinishStop \<or> ss_finish st = FinishToolCalls)"

lemma stream_ok_reject [simp]: "stream_ok (reject wording f c st) = stream_ok st"
  by (simp add: stream_ok_def reject_def)

lemma stream_ok_error [simp]: "stream_ok (st\<lparr> ss_error := e, ss_cancelled := c \<rparr>) = stream_ok st"
  by (simp add: stream_ok_def)

lemma appendStreamCalls_ok: "stream_ok st \<Longrightarrow> stream_ok (appendStreamCalls wording items st)"
  by (induction wording items st rule: appendStreamCalls.induct) (auto simp: stream_ok_def reject_def)

lemma appendStreamCalls_text [simp]: "ss_text (appendStreamCalls wording items st) = ss_text st"
  by (induction wording items st rule: appendStreamCalls.induct) (auto simp: reject_def)

lemma acceptUsage_ok: "stream_ok st \<Longrightarrow> stream_ok (acceptUsage wording chunk st)"
  by (auto simp: acceptUsage_def split: option.splits) (auto simp: stream_ok_def usage_within_def)

lemma acceptUsage_text [simp]: "ss_text (acceptUsage wording chunk st) = ss_text st"
  by (auto simp: acceptUsage_def reject_def split: option.splits)

lemma acceptAssistant_ok:
  assumes "stream_ok st"
  shows "stream_ok (fst (run_state (acceptAssistant wording cb chunk st) a))"
proof -
  let ?st1 = "case sk_toolCall chunk of None \<Rightarrow> st | Some c \<Rightarrow> appendStreamCalls wording [c] st"
  let ?st2 = "appendStreamCalls wording (sk_toolCalls chunk) ?st1"
  have t: "ss_text ?st1 = ss_text st" by (simp split: option.split del: appendStreamCalls.simps)
  have "stream_ok ?st1" using assms appendStreamCalls_ok by (simp split: option.split del: appendStreamCalls.simps)
  then have ok: "stream_ok ?st2" by (rule appendStreamCalls_ok)
  have "stream_ok (?st2\<lparr> ss_text := ss_text ?st2 @ sk_text chunk \<rparr>)" if "length (ss_text st) + length (sk_text chunk) \<le> maxModelTextBytes"
    using ok that t by (simp add: stream_ok_def)
  then show ?thesis
    unfolding acceptAssistant_def Let_def using ok assms
    by (auto simp del: appendStreamCalls.simps simp: t split: option.split prod.split)
qed

lemma emitChunk_ok: "stream_ok st \<Longrightarrow> stream_ok (fst (run_state (emitChunk wording cb chunk st) a))"
proof -
  assume ok: "stream_ok st"
  have "stream_ok (acceptFinish wording chunk s)" if "stream_ok s" for s
    using that by (simp add: acceptFinish_def) (auto simp: stream_ok_def)
  then show ?thesis
    using ok acceptUsage_ok[OF ok] acceptAssistant_ok[OF acceptUsage_ok[OF ok]] by (auto simp: emitChunk_def Let_def)
qed

lemma runStream_ok: "stream_ok st \<Longrightarrow> stream_ok (fst (fst (run_state (runStream wording cb s st) a)))"
proof (induction s arbitrary: st a)
  case (StreamEmit chunk w k)
  let ?a = "a\<lparr> ag_world := w \<rparr>"
  obtain st' b where e: "run_state (emitChunk wording cb chunk st) ?a = (st', b)" by force
  then have "stream_ok st'" using emitChunk_ok[OF StreamEmit.prems] by (metis fst_conv)
  then show ?case using e StreamEmit.IH[OF rangeI rangeI] by simp
qed simp

lemma firstBadCall_list: "firstBadCall calls seen = None \<longleftrightarrow> validateToolCallList calls True seen = None"
  by (induction calls seen rule: firstBadCall.induct) auto

lemma firstCall_agrees: "validateAssistantMessageData \<lparr> am_text = t, am_toolCall = (case cs of [] \<Rightarrow> None | c # _ \<Rightarrow> Some c), am_toolCalls = cs \<rparr> = None
  \<longleftrightarrow> validateToolCallList cs True [] = None \<and> \<not> (t = [] \<and> cs = [])"
  by (cases cs) (auto simp: validateAssistantMessageData_def reject_if_def)


end
