(* ===== verification/Projection.thy ===== *)
theory Projection
  imports Session_Index
begin

text \<open>
  The model-visible projection of a session (\<open>DeriveMessages\<close> in \<open>src/pkg/core/session.go\<close>): context
  summaries shadow the event ranges they replace. The code merges the ranges into disjoint intervals
  and finds the one around a sequence number by binary search; messages are cached and extended by
  appends. The facts here: the interval search answers exactly whether some summary covers an event,
  and the cache always holds what a full derivation would give, as long as summaries only cover events
  before them.
\<close>

section \<open>Messages of events\<close>

(* src/pkg/core/session.go:1245-1252 modelVisibleEvent *)
definition modelVisibleEvent :: "session_event \<Rightarrow> bool" where
  "modelVisibleEvent ev = (case ev_type ev of
     EvUserMessage \<Rightarrow> True | EvAssistantMessage \<Rightarrow> True | EvToolResult \<Rightarrow> True | _ \<Rightarrow> False)"

(* src/pkg/core/session.go:1316-1342 projectEvent *)
definition projectEvent :: "session_event \<Rightarrow> chat_message option" where
  "projectEvent ev =
     (case ev_type ev of
        EvUserMessage \<Rightarrow>
          (case decoded EvUserMessage (ev_data ev) of
             Some (DUserMessage t) \<Rightarrow> Some (plain_message RoleUser t (ev_seq ev)) | _ \<Rightarrow> None)
      | EvAssistantMessage \<Rightarrow>
          (case decoded EvAssistantMessage (ev_data ev) of
             Some (DAssistantMessage d) \<Rightarrow>
               (let calls = (case am_toolCall d of
                      Some c \<Rightarrow> if am_toolCalls d = [] then [c] else am_toolCalls d
                    | None \<Rightarrow> am_toolCalls d)
                in Some ((plain_message RoleAssistant (am_text d) (ev_seq ev))\<lparr> ch_toolCall := am_toolCall d, ch_toolCalls := calls \<rparr>))
           | _ \<Rightarrow> None)
      | EvToolResult \<Rightarrow>
          (case decoded EvToolResult (ev_data ev) of
             Some (DToolResult d) \<Rightarrow> Some ((plain_message RoleTool (tr_content d) (ev_seq ev))\<lparr> ch_toolCallID := tr_callID d \<rparr>)
           | _ \<Rightarrow> None)
      | _ \<Rightarrow> None)"

(* src/pkg/core/session.go:1224-1243 cloneChatMessage *)
definition cloneChatMessage :: "chat_message \<Rightarrow> chat_message" where
  "cloneChatMessage m = m\<lparr> ch_toolCall := map_option cloneToolCall (ch_toolCall m), ch_toolCalls := map cloneToolCall (ch_toolCalls m) \<rparr>"

section \<open>Shadowing\<close>

(* src/pkg/core/session.go:1025-1028 DeriveMessages *)
record summary_range =
  rg_start :: int
  rg_end :: int
  rg_seq :: int
  rg_data :: context_summary_data

(* src/pkg/core/session.go:1029-1039 DeriveMessages *)
definition collectRanges :: "session_event list \<Rightarrow> session_error + summary_range list" where
  "collectRanges evs =
     foldr_err (\<lambda>ranges ev.
       if ev_type ev \<noteq> EvContextSummary then Inr ranges
       else (case decoded EvContextSummary (ev_data ev) of
               Some (DContextSummary d) \<Rightarrow>
                 Inr (ranges @ [\<lparr> rg_start = cs_start d, rg_end = cs_end d, rg_seq = ev_seq ev, rg_data = d \<rparr>])
             | _ \<Rightarrow> Inl (EventRejected PayloadUndecodable))) [] evs"

(* src/pkg/core/session.go:1040-1045 DeriveMessages *)
definition sortRanges :: "summary_range list \<Rightarrow> summary_range list" where
  "sortRanges rs = sort_key (\<lambda>r. (rg_start r, rg_seq r)) rs"

text \<open>The intervals found so far, the latest first.\<close>

(* src/pkg/core/session.go:1048-1060 DeriveMessages *)
fun mergeStep :: "(int \<times> int) list \<Rightarrow> summary_range \<Rightarrow> (int \<times> int) list" where
  "mergeStep [] r = [(rg_start r, rg_end r)]"
| "mergeStep ((s, e) # rest) r =
     (let adjacent = (e \<noteq> max_int64 \<and> rg_start r = e + 1) in
        if rg_start r > e \<and> \<not> adjacent then (rg_start r, rg_end r) # (s, e) # rest
        else if rg_end r > e then (s, rg_end r) # rest
        else (s, e) # rest)"

(* src/pkg/core/session.go:1046-1060 DeriveMessages *)
definition mergeRanges :: "summary_range list \<Rightarrow> (int \<times> int) list" where
  "mergeRanges rs = rev (foldl mergeStep [] rs)"

text \<open>\<open>sort.Search\<close> of the standard library.\<close>

function search :: "(nat \<Rightarrow> bool) \<Rightarrow> nat \<Rightarrow> nat \<Rightarrow> nat" where
  "search f i j = (if i < j then let h = (i + j) div 2 in if \<not> f h then search f (h + 1) j else search f i h else i)"
  by pat_completeness auto
termination by (relation "measure (\<lambda>(f, i, j). j - i)") auto

declare search.simps [simp del]

(* src/pkg/core/session.go:1061-1064 DeriveMessages *)
definition isShadowed :: "(int \<times> int) list \<Rightarrow> int \<Rightarrow> bool" where
  "isShadowed intervals seq =
     (let index = search (\<lambda>i. snd (intervals ! i) \<ge> seq) 0 (length intervals)
      in index < length intervals \<and> fst (intervals ! index) \<le> seq)"

section \<open>Derivation\<close>

definition en_dash :: string where
  "en_dash = [char_of (226::nat), char_of (128::nat), char_of (147::nat)]"

(* src/pkg/core/session.go:1075-1079 DeriveMessages *)
definition summaryMessage :: "summary_range \<Rightarrow> chat_message" where
  "summaryMessage r = (plain_message RoleUser
       (''[conversation summary of events '' @ int_str (cs_start (rg_data r)) @ en_dash @ int_str (cs_end (rg_data r))
          @ '']'' @ [CHR 0x0A] @ cs_summary (rg_data r)) (rg_seq r))
     \<lparr> ch_provenance := Some \<lparr> cp_kind = ''summary'', cp_start = cs_start (rg_data r), cp_end = cs_end (rg_data r),
                              cp_revision = int_str (rg_seq r) \<rparr> \<rparr>"

definition emitSummaries :: "(int \<times> int) list \<Rightarrow> summary_range list \<Rightarrow> chat_message list" where
  "emitSummaries intervals rs = map summaryMessage (filter (\<lambda>r. \<not> isShadowed intervals (rg_seq r)) rs)"

(* src/pkg/core/session.go:1066-1098 DeriveMessages *)
fun projectLoop :: "(int \<times> int) list \<Rightarrow> summary_range list \<Rightarrow> session_event list \<Rightarrow> chat_message list" where
  "projectLoop intervals remaining [] = emitSummaries intervals remaining"
| "projectLoop intervals remaining (ev # evs) =
     emitSummaries intervals (takeWhile (\<lambda>r. rg_start r \<le> ev_seq ev) remaining)
     @ (if isShadowed intervals (ev_seq ev) then [] else (case projectEvent ev of None \<Rightarrow> [] | Some m \<Rightarrow> [m]))
     @ projectLoop intervals (dropWhile (\<lambda>r. rg_start r \<le> ev_seq ev) remaining) evs"

(* src/pkg/core/session.go:1025-1098 DeriveMessages *)
definition deriveFull :: "session_event list \<Rightarrow> session_error + chat_message list" where
  "deriveFull evs =
     rbind (collectRanges evs) (\<lambda>rs.
       let ranges = sortRanges rs; intervals = mergeRanges ranges
       in Inr (projectLoop intervals ranges evs))"

(* src/pkg/core/session.go:995-1105 DeriveMessages *)
definition deriveMessages :: "session \<Rightarrow> session_error + chat_message list \<times> session" where
  "deriveMessages s =
     (let n = length (se_events s) in
        if se_projValid s \<and> se_projCount s = n \<and> se_projSummaries s = se_summaryEvents s
        then Inr (map cloneChatMessage (se_projCache s), s)
        else if se_projValid s \<and> se_projSummaries s = se_summaryEvents s \<and> se_projCount s > 0 \<and> se_projCount s < n
        then let out = se_projCache s @ List.map_filter projectEvent (drop (se_projCount s) (se_events s))
             in Inr (map cloneChatMessage out, s\<lparr> se_projCache := out, se_projCount := n \<rparr>)
        else rbind (deriveFull (se_events s)) (\<lambda>out.
          Inr (map cloneChatMessage out,
               s\<lparr> se_projCache := out, se_projCount := n, se_projSummaries := se_summaryEvents s, se_projValid := True \<rparr>)))"

section \<open>The interval search is exact\<close>

definition first_true :: "(nat \<Rightarrow> bool) \<Rightarrow> nat \<Rightarrow> nat \<Rightarrow> nat \<Rightarrow> bool" where
  "first_true f i j m \<longleftrightarrow> i \<le> m \<and> m \<le> j \<and> (\<forall>k. i \<le> k \<and> k < m \<longrightarrow> \<not> f k) \<and> (m < j \<longrightarrow> f m)"

lemma search_first:
  assumes "i \<le> j" "\<forall>k l. i \<le> k \<and> k \<le> l \<and> l < j \<and> f k \<longrightarrow> f l"
  shows "first_true f i j (search f i j)"
  using assms
proof (induction f i j rule: search.induct)
  case (1 f i j)
  show ?case
  proof (cases "i < j")
    case True
    define h where "h = (i + j) div 2"
    have h: "i \<le> h" "h < j" using True by (auto simp: h_def)
    show ?thesis
    proof (cases "f h")
      case False
      have eq: "search f i j = search f (h + 1) j" using True False by (simp add: search.simps[of f i j] h_def Let_def)
      have "\<forall>k l. h + 1 \<le> k \<and> k \<le> l \<and> l < j \<and> f k \<longrightarrow> f l"
      proof (intro allI impI)
        fix k l assume kl: "h + 1 \<le> k \<and> k \<le> l \<and> l < j \<and> f k"
        then have "i \<le> k" using h(1) by linarith
        with kl "1.prems"(2) show "f l" by blast
      qed
      then have "first_true f (h + 1) j (search f (h + 1) j)"
        using "1.IH"(1)[OF True h_def False] h(2) by simp
      moreover have "\<forall>k. i \<le> k \<and> k \<le> h \<longrightarrow> \<not> f k" using "1.prems"(2) h(2) False by blast
      ultimately show ?thesis unfolding eq first_true_def using h(1) by (metis Suc_eq_plus1 Suc_leI le_trans le_Suc_eq nat_le_linear not_less)
    next
      case True
      have eq: "search f i j = search f i h" using \<open>i < j\<close> True by (simp add: search.simps[of f i j] h_def Let_def)
      have "\<forall>k l. i \<le> k \<and> k \<le> l \<and> l < h \<and> f k \<longrightarrow> f l" using "1.prems"(2) h(2) by (meson less_trans)
      then have "first_true f i h (search f i h)"
        using "1.IH"(2)[OF \<open>i < j\<close> h_def] True h(1) by simp
      then show ?thesis unfolding eq first_true_def using True h(2) by (metis le_neq_implies_less le_trans less_imp_le)
    qed
  next
    case False
    with "1.prems"(1) show ?thesis by (auto simp: search.simps first_true_def)
  qed
qed

definition inside :: "int \<Rightarrow> int \<times> int \<Rightarrow> bool" where
  "inside x iv \<longleftrightarrow> fst iv \<le> x \<and> x \<le> snd iv"

definition separated :: "(int \<times> int) list \<Rightarrow> bool" where
  "separated ivs \<longleftrightarrow> sorted_wrt (\<lambda>a b. snd a < fst b) ivs \<and> (\<forall>iv \<in> set ivs. fst iv \<le> snd iv)"

lemma isShadowed_iff:
  assumes "separated ivs"
  shows "isShadowed ivs x \<longleftrightarrow> (\<exists>iv \<in> set ivs. inside x iv)"
proof -
  let ?f = "\<lambda>i. snd (ivs ! i) \<ge> x" and ?n = "length ivs"
  define m where "m = search ?f 0 ?n"
  have apart: "k < l \<Longrightarrow> l < ?n \<Longrightarrow> snd (ivs ! k) < fst (ivs ! l)" for k l
    using assms by (auto simp: separated_def sorted_wrt_iff_nth_less)
  have proper: "k < ?n \<Longrightarrow> fst (ivs ! k) \<le> snd (ivs ! k)" for k
    using assms by (auto simp: separated_def)
  have "\<forall>k l. 0 \<le> k \<and> k \<le> l \<and> l < ?n \<and> ?f k \<longrightarrow> ?f l"
  proof (intro allI impI)
    fix k l assume "0 \<le> k \<and> k \<le> l \<and> l < ?n \<and> ?f k"
    then show "?f l" using apart[of k l] proper[of l] by (cases "k = l") auto
  qed
  then have m: "first_true ?f 0 ?n m" unfolding m_def by (intro search_first) simp_all
  have "isShadowed ivs x \<longleftrightarrow> m < ?n \<and> fst (ivs ! m) \<le> x" by (simp add: isShadowed_def m_def Let_def)
  also have "\<dots> \<longleftrightarrow> (\<exists>i < ?n. inside x (ivs ! i))"
  proof
    assume "m < ?n \<and> fst (ivs ! m) \<le> x"
    with m show "\<exists>i < ?n. inside x (ivs ! i)" by (auto simp: first_true_def inside_def)
  next
    assume "\<exists>i < ?n. inside x (ivs ! i)"
    then obtain i where i: "i < ?n" "fst (ivs ! i) \<le> x" "x \<le> snd (ivs ! i)" by (auto simp: inside_def)
    then have "m \<le> i" using m by (auto simp: first_true_def not_less[symmetric])
    moreover have "\<not> m < i"
    proof
      assume "m < i"
      then have "snd (ivs ! m) < fst (ivs ! i)" "?f m" using apart i(1) m by (auto simp: first_true_def)
      with i(2) show False by simp
    qed
    ultimately show "m < ?n \<and> fst (ivs ! m) \<le> x" using i by simp
  qed
  also have "\<dots> \<longleftrightarrow> (\<exists>iv \<in> set ivs. inside x iv)" by (metis in_set_conv_nth)
  finally show ?thesis .
qed

definition covers :: "summary_range \<Rightarrow> int \<Rightarrow> bool" where
  "covers r x \<longleftrightarrow> rg_start r \<le> x \<and> x \<le> rg_end r"

lemma mergeStep_ok:
  assumes "separated (rev acc)" "\<forall>iv \<in> set acc. fst iv \<le> rg_start r" "rg_start r \<le> rg_end r" "rg_end r \<le> max_int64"
    "\<forall>iv \<in> set acc. snd iv \<le> max_int64"
  shows "separated (rev (mergeStep acc r)) \<and> (\<forall>iv \<in> set (mergeStep acc r). fst iv \<le> rg_start r \<and> snd iv \<le> max_int64)
    \<and> (\<forall>x. (\<exists>iv \<in> set (mergeStep acc r). inside x iv) \<longleftrightarrow> (\<exists>iv \<in> set acc. inside x iv) \<or> covers r x)"
proof (cases acc)
  case Nil
  with assms(3,4) show ?thesis by (auto simp: separated_def inside_def covers_def)
next
  case (Cons iv rest)
  obtain s e where iv: "iv = (s, e)" by force
  have a: "separated (rev rest @ [(s, e)])" "s \<le> rg_start r" "\<forall>iv \<in> set rest. fst iv \<le> rg_start r \<and> snd iv \<le> max_int64" "e \<le> max_int64"
    using assms Cons iv by auto
  then have sep: "separated (rev rest)" "\<forall>v \<in> set rest. snd v < s" "s \<le> e"
    by (auto simp: separated_def sorted_wrt_append)
  consider (new) "rg_start r > e" "rg_start r \<noteq> e + 1" | (grow) "rg_start r \<le> e + 1" "rg_end r > e" | (same) "rg_start r \<le> e + 1" "rg_end r \<le> e"
    by linarith
  then show ?thesis
  proof cases
    case new
    then have "mergeStep acc r = (rg_start r, rg_end r) # (s, e) # rest" by (simp add: Cons iv)
    with new a sep assms(3,4) show ?thesis
      by (auto simp: Cons iv separated_def sorted_wrt_append inside_def covers_def)
  next
    case grow
    have "mergeStep acc r = (s, rg_end r) # rest"
      using grow assms(4) by (auto simp: Cons iv Let_def)
    moreover have "inside x (s, rg_end r) \<longleftrightarrow> inside x (s, e) \<or> covers r x" for x
      using grow a(2) sep(3) by (auto simp: inside_def covers_def)
    moreover have "separated (rev rest @ [(s, rg_end r)])"
      using sep grow by (auto simp: separated_def sorted_wrt_append)
    ultimately show ?thesis using a assms(4) by (auto simp: Cons iv)
  next
    case same
    have "mergeStep acc r = (s, e) # rest"
      using same assms(3) by (auto simp: Cons iv Let_def)
    moreover have "covers r x \<Longrightarrow> inside x (s, e)" for x
      using same a(2) by (auto simp: inside_def covers_def)
    ultimately show ?thesis using a by (auto simp: Cons iv)
  qed
qed

definition ranges_ok :: "summary_range list \<Rightarrow> bool" where
  "ranges_ok rs \<longleftrightarrow> (\<forall>r \<in> set rs. rg_start r \<le> rg_end r \<and> rg_end r \<le> max_int64)"

lemma mergeRanges_ok:
  assumes "ranges_ok rs" "sorted (map rg_start rs)"
  shows "separated (mergeRanges rs) \<and> (\<forall>x. (\<exists>iv \<in> set (mergeRanges rs). inside x iv) \<longleftrightarrow> (\<exists>r \<in> set rs. covers r x))"
proof -
  have "separated (rev (foldl mergeStep [] rs)) \<and> (\<forall>iv \<in> set (foldl mergeStep [] rs). snd iv \<le> max_int64 \<and> (\<forall>r. sorted (map rg_start (rs @ [r])) \<longrightarrow> fst iv \<le> rg_start r))
      \<and> (\<forall>x. (\<exists>iv \<in> set (foldl mergeStep [] rs). inside x iv) \<longleftrightarrow> (\<exists>r \<in> set rs. covers r x))"
    using assms
  proof (induction rs rule: rev_induct)
    case Nil
    then show ?case by (simp add: separated_def)
  next
    case (snoc r rs)
    let ?acc = "foldl mergeStep [] rs"
    have IH: "separated (rev ?acc)" "\<forall>iv \<in> set ?acc. snd iv \<le> max_int64 \<and> fst iv \<le> rg_start r"
      "\<forall>x. (\<exists>iv \<in> set ?acc. inside x iv) \<longleftrightarrow> (\<exists>r \<in> set rs. covers r x)"
      using snoc by (auto simp: ranges_ok_def sorted_append)
    have r: "rg_start r \<le> rg_end r" "rg_end r \<le> max_int64" using snoc.prems by (auto simp: ranges_ok_def)
    have step: "separated (rev (mergeStep ?acc r))" "\<forall>iv \<in> set (mergeStep ?acc r). fst iv \<le> rg_start r \<and> snd iv \<le> max_int64"
      "\<forall>x. (\<exists>iv \<in> set (mergeStep ?acc r). inside x iv) \<longleftrightarrow> (\<exists>iv \<in> set ?acc. inside x iv) \<or> covers r x"
      using mergeStep_ok[OF IH(1) _ r] IH(2) by blast+
    moreover have "fst iv \<le> rg_start q" if "iv \<in> set (mergeStep ?acc r)" "sorted (map rg_start ((rs @ [r]) @ [q]))" for iv q
      using step(2) that by (fastforce simp: sorted_append)
    ultimately show ?case using IH(3) by (simp, blast)
  qed
  then show ?thesis by (simp add: mergeRanges_def)
qed

lemma shadow_exact:
  assumes "ranges_ok rs"
  shows "isShadowed (mergeRanges (sortRanges rs)) x \<longleftrightarrow> (\<exists>r \<in> set rs. rg_start r \<le> x \<and> x \<le> rg_end r)"
proof -
  have "sorted (map rg_start (sortRanges rs))"
  proof -
    have "sorted (map (\<lambda>r. (rg_start r, rg_seq r)) (sortRanges rs))" by (simp add: sortRanges_def)
    then have "sorted_wrt (\<lambda>a b. (rg_start a, rg_seq a) \<le> (rg_start b, rg_seq b)) (sortRanges rs)"
      by (simp add: sorted_map)
    then have "sorted_wrt (\<lambda>a b. rg_start a \<le> rg_start b) (sortRanges rs)"
      by (rule sorted_wrt_mono_rel[rotated]) (auto simp: less_eq_prod_def)
    then show ?thesis by (simp add: sorted_map)
  qed
  moreover have "ranges_ok (sortRanges rs)" using assms by (simp add: ranges_ok_def sortRanges_def)
  ultimately show ?thesis
    using mergeRanges_ok[of "sortRanges rs"] isShadowed_iff[of "mergeRanges (sortRanges rs)" x]
    by (simp add: covers_def sortRanges_def)
qed

text \<open>C33: The optimised shadow test is exact: merging the sorted summary ranges into intervals and searching
  them by bisection answers, for every sequence number, whether some summary range contains it.\<close>
theorem shadow_search_exact:
  assumes "ranges_ok rs"
  shows "isShadowed (mergeRanges (sortRanges rs)) x \<longleftrightarrow> (\<exists>r \<in> set rs. rg_start r \<le> x \<and> x \<le> rg_end r)"
  using assms by (rule shadow_exact)

section \<open>The cache holds the full derivation\<close>

text \<open>Copying a decoded value natively gives the same value.\<close>

lemma fold_mput_values:
  "(k, v) \<in> set (fold (\<lambda>(k, v). mput (f k) v) gs m) \<Longrightarrow> v \<in> snd ` set gs \<or> (k, v) \<in> set m"
proof (induction gs arbitrary: m)
  case (Cons g gs)
  obtain a b where g: "g = (a, b)" by force
  have "(k, v) \<in> set (mput (f a) b m) \<Longrightarrow> v = b \<or> (k, v) \<in> set m"
    by (induction m) (auto split: if_splits)
  with Cons g show ?case by fastforce
qed simp

lemma seq_opt_same:
  assumes "seq_opt (map f xs) = Some ys" "\<And>x y. x \<in> set xs \<Longrightarrow> f x = Some y \<Longrightarrow> y = x"
  shows "ys = xs"
proof -
  have "list_all2 (\<lambda>x y. f x = Some y) xs ys" using assms(1) by (simp add: seq_opt_map_eq_Some)
  with assms(2) show ?thesis by (intro nth_equalityI) (auto simp: list_all2_conv_all_nth)
qed

lemma clone_of_norm:
  "json_norm u = Some v \<Longrightarrow> cloneJSONNativeValue v d = Some w \<Longrightarrow> w = v"
proof (induction u arbitrary: v w d rule: json_norm.induct)
  case (5 xs)
  then obtain ys where ys: "seq_opt (map json_norm xs) = Some ys" "v = JArr ys" by auto
  then have nth: "\<exists>x \<in> set xs. json_norm x = Some y" if "y \<in> set ys" for y
    using that by (force simp: seq_opt_map_eq_Some list_all2_conv_all_nth in_set_conv_nth)
  from "5.prems"(2) ys(2) obtain zs where zs: "seq_opt (map (\<lambda>x. cloneJSONNativeValue x (d + 1)) ys) = Some zs" "w = JArr zs"
    by (auto split: if_splits)
  have "zs = ys" by (rule seq_opt_same[OF zs(1)]) (use "5.IH" nth in blast)
  with zs(2) ys(2) show ?case by simp
next
  case (6 fs)
  then obtain gs where gs: "seq_opt (map (\<lambda>(k, v). map_option (Pair k) (json_norm v)) fs) = Some gs"
    "v = JObj (fold (\<lambda>(k, v). mput (to_valid_utf8 k) v) (sort_key fst gs) [])" by auto
  have norm: "\<exists>k x. (k, x) \<in> set fs \<and> json_norm x = Some y" if "y \<in> snd ` set gs" for y
  proof -
    from that obtain i k where i: "i < length gs" "gs ! i = (k, y)" by (auto simp: in_set_conv_nth)
    from gs(1) have l: "list_all2 (\<lambda>x y. (case x of (k, v) \<Rightarrow> map_option (Pair k) (json_norm v)) = Some y) fs gs"
      by (simp add: seq_opt_map_eq_Some)
    from list_all2_nthD2[OF l i(1)] i(2) have "json_norm (snd (fs ! i)) = Some y" by (auto simp: split_beta)
    moreover have "fs ! i \<in> set fs" using i(1) list_all2_lengthD[OF l] by simp
    ultimately show ?thesis by (metis prod.collapse)
  qed
  let ?hs = "fold (\<lambda>(k, v). mput (to_valid_utf8 k) v) (sort_key fst gs) []"
  have vals: "\<exists>k x. (k, x) \<in> set fs \<and> json_norm x = Some y" if "(k, y) \<in> set ?hs" for k y
    using fold_mput_values[OF that] norm by auto
  from "6.prems"(2) gs(2) obtain zs where zs: "seq_opt (map (\<lambda>(k, v). if \<not> valid_utf8 k then None
      else map_option (Pair k) (cloneJSONNativeValue v (d + 1))) ?hs) = Some zs" "w = JObj zs"
    by (auto split: if_splits)
  have "zs = ?hs"
  proof (rule seq_opt_same[OF zs(1)])
    fix x y assume x: "x \<in> set ?hs" "(case x of (k, v) \<Rightarrow> if \<not> valid_utf8 k then None
      else map_option (Pair k) (cloneJSONNativeValue v (d + 1))) = Some y"
    obtain k u where k: "x = (k, u)" by force
    with x obtain u' where u': "cloneJSONNativeValue u (d + 1) = Some u'" "y = (k, u')" by (auto split: if_splits)
    from vals x(1) k obtain j z where "(j, z) \<in> set fs" "json_norm z = Some u" by blast
    with "6.IH"[OF _ refl] u'(1) have "u' = u" by blast
    with k u'(2) show "y = x" by simp
  qed
  with zs(2) gs(2) show ?case by simp
qed (auto split: if_splits)

lemma cloneMap_norm:
  assumes "norm_object n a = Some a"
  shows "cloneMap a = a"
proof (cases a)
  case (Some fs)
  with assms have j: "fs \<noteq> []" "json_depth (JObj fs) \<le> max_decode_depth" "json_norm (JObj fs) = Some (JObj fs)"
    by (auto simp: norm_object_def simp del: json_norm.simps json_depth.simps split: if_splits option.splits json.splits)
  show ?thesis
  proof (cases "cloneJSONNative (JObj fs)")
    case None
    with j Some show ?thesis by (simp add: cloneMap_def json_roundtrip_def del: json_norm.simps json_depth.simps)
  next
    case (Some w)
    with clone_of_norm[OF j(3), of 0 w] \<open>a = Some fs\<close> show ?thesis by (simp add: cloneMap_def cloneJSONNative_def)
  qed
qed (simp add: cloneMap_def)

lemma cloneToolCall_norm: "norm_call n c = Some c \<Longrightarrow> cloneToolCall c = c"
proof -
  assume "norm_call n c = Some c"
  then have "norm_object (n + 1) (tc_args c) = Some (tc_args c)" by (cases c) (auto simp: norm_call_def)
  then show ?thesis by (simp add: cloneToolCall_def cloneMap_norm)
qed

lemma clean_message_calls:
  assumes "norm_event (DAssistantMessage d) = Some (DAssistantMessage d)"
  shows "map cloneToolCall (am_toolCalls d) = am_toolCalls d" "map_option cloneToolCall (am_toolCall d) = am_toolCall d"
proof -
  from assms have n: "norm_some (norm_call 1) (am_toolCall d) = Some (am_toolCall d)"
    "seq_opt (map (norm_call 2) (am_toolCalls d)) = Some (am_toolCalls d)"
    by (cases d; auto split: option.splits)+
  then have "\<forall>c \<in> set (am_toolCalls d). norm_call 2 c = Some c"
    by (auto simp: seq_opt_map_eq_Some list_all2_same)
  then show "map cloneToolCall (am_toolCalls d) = am_toolCalls d"
    by (intro map_idI) (auto intro: cloneToolCall_norm)
  show "map_option cloneToolCall (am_toolCall d) = am_toolCall d"
    using n(1) by (cases "am_toolCall d") (auto intro: cloneToolCall_norm)
qed

lemma committed_message:
  assumes "\<And>d. typed = Some d \<Longrightarrow> decoded (ev_type ev) (ev_data ev) = Some d \<and> norm_event d = Some d"
    "projectCommittedData (ev_type ev) typed (ev_seq ev) = (Some m, b)"
  shows "projectEvent ev = Some m"
proof -
  obtain d where d: "typed = Some d"
    using assms(2) by (cases typed) (auto simp: projectCommittedData_def split: event_type.splits)
  with assms(1) have "decoded (ev_type ev) (ev_data ev) = Some d" "norm_event d = Some d" by auto
  with assms(2) d show ?thesis
    by (cases "ev_type ev"; cases d)
      (auto simp: projectCommittedData_def projectEvent_def clean_message_calls Let_def simp del: norm_event.simps split: option.split)
qed

lemma invisible_message: "projectCommittedData (ev_type ev) typed q = (None, False) \<Longrightarrow> projectEvent ev = None"
  by (cases "ev_type ev") (auto simp: projectCommittedData_def projectEvent_def Let_def split: option.splits event_data.splits)

fun remaining_after :: "summary_range list \<Rightarrow> session_event list \<Rightarrow> summary_range list" where
  "remaining_after rs [] = rs"
| "remaining_after rs (ev # evs) = remaining_after (dropWhile (\<lambda>r. rg_start r \<le> ev_seq ev) rs) evs"

fun loop_body :: "(int \<times> int) list \<Rightarrow> summary_range list \<Rightarrow> session_event list \<Rightarrow> chat_message list" where
  "loop_body ivs rs [] = []"
| "loop_body ivs rs (ev # evs) =
     emitSummaries ivs (takeWhile (\<lambda>r. rg_start r \<le> ev_seq ev) rs)
     @ (if isShadowed ivs (ev_seq ev) then [] else (case projectEvent ev of None \<Rightarrow> [] | Some m \<Rightarrow> [m]))
     @ loop_body ivs (dropWhile (\<lambda>r. rg_start r \<le> ev_seq ev) rs) evs"

lemma projectLoop_split:
  "projectLoop ivs rs (xs @ ys) = loop_body ivs rs xs @ projectLoop ivs (remaining_after rs xs) ys"
  by (induction xs arbitrary: rs) simp_all

lemma remaining_after_none: "remaining_after [] evs = []"
  by (induction evs) simp_all

lemma remaining_after_all:
  "ev \<in> set evs \<Longrightarrow> \<forall>r \<in> set rs. rg_start r \<le> ev_seq ev \<Longrightarrow> remaining_after rs evs = []"
proof (induction evs arbitrary: rs)
  case (Cons e evs)
  show ?case
  proof (cases "e = ev")
    case True
    then have "dropWhile (\<lambda>r. rg_start r \<le> ev_seq e) rs = []" using Cons.prems(2) by simp
    then show ?thesis by (simp only: remaining_after.simps remaining_after_none)
  next
    case False
    then show ?thesis using Cons by (auto dest: set_dropWhileD)
  qed
qed simp

text \<open>Summaries that replace only events before them.\<close>

definition summaries_past :: "session_event list \<Rightarrow> bool" where
  "summaries_past evs \<longleftrightarrow> (\<forall>e \<in> set evs. \<forall>d. event_payload e = Some (DContextSummary d) \<longrightarrow> cs_end d < ev_seq e)"

lemma collectRanges_snoc:
  "ev_type e \<noteq> EvContextSummary \<Longrightarrow> collectRanges (evs @ [e]) = collectRanges evs"
  by (cases "collectRanges evs") (simp_all add: collectRanges_def foldr_err_append)

lemma collectRanges_facts:
  assumes "\<forall>e \<in> set evs. validateSessionEvent e = None"
  shows "\<exists>rs. collectRanges evs = Inr rs \<and> (\<forall>r \<in> set rs. \<exists>e \<in> set evs. rg_seq r = ev_seq e
      \<and> event_payload e = Some (DContextSummary (rg_data r)) \<and> rg_start r = cs_start (rg_data r) \<and> rg_end r = cs_end (rg_data r)
      \<and> 0 \<le> rg_start r \<and> rg_start r \<le> rg_end r)"
  using assms
proof (induction evs rule: rev_induct)
  case (snoc e evs)
  then obtain rs where rs: "collectRanges evs = Inr rs" and facts: "\<forall>r \<in> set rs. \<exists>e \<in> set evs. rg_seq r = ev_seq e
      \<and> event_payload e = Some (DContextSummary (rg_data r)) \<and> rg_start r = cs_start (rg_data r) \<and> rg_end r = cs_end (rg_data r)
      \<and> 0 \<le> rg_start r \<and> rg_start r \<le> rg_end r" by auto
  show ?case
  proof (cases "ev_type e = EvContextSummary")
    case False
    with rs facts show ?thesis by (auto simp: collectRanges_snoc)
  next
    case True
    have v: "validateSessionEvent e = None" using snoc.prems by simp
    then obtain d where d: "decoded EvContextSummary (ev_data e) = Some d" "validateEventData d = None"
      by (auto simp: validateSessionEvent_def True split: if_splits option.splits)
    moreover have "kind_of d = EvContextSummary" using d(1) by (rule decoded_kind)
    ultimately obtain c where c: "d = DContextSummary c" "0 \<le> cs_start c" "cs_start c \<le> cs_end c" by (cases d) auto
    have "collectRanges (evs @ [e]) = Inr (rs @ [\<lparr> rg_start = cs_start c, rg_end = cs_end c, rg_seq = ev_seq e, rg_data = c \<rparr>])"
      using rs d(1) c(1) True by (simp add: collectRanges_def foldr_err_append)
    moreover have "event_payload e = Some (DContextSummary c)" using d(1) c(1) True by (simp add: event_payload_def)
    ultimately show ?thesis using facts c(2,3) by fastforce
  qed
qed (simp add: collectRanges_def)

lemma deriveFull_snoc:
  assumes "\<forall>e \<in> set (evs @ [e]). validateSessionEvent e = None" "log_ok (evs @ [e])" "summaries_past evs"
    "int (length evs) \<le> max_int64" "ev_type e \<noteq> EvContextSummary"
  shows "\<exists>out. deriveFull evs = Inr out \<and> deriveFull (evs @ [e]) = Inr (out @ (case projectEvent e of None \<Rightarrow> [] | Some m \<Rightarrow> [m]))"
proof -
  obtain rs where rs: "collectRanges evs = Inr rs" and facts: "\<forall>r \<in> set rs. \<exists>e \<in> set evs. rg_seq r = ev_seq e
      \<and> event_payload e = Some (DContextSummary (rg_data r)) \<and> rg_start r = cs_start (rg_data r) \<and> rg_end r = cs_end (rg_data r)
      \<and> 0 \<le> rg_start r \<and> rg_start r \<le> rg_end r"
    using collectRanges_facts[of evs] assms(1) by auto
  have ok: "log_ok evs" and seqe: "ev_seq e = int (length evs)" using assms(2) by (simp_all add: log_ok_snoc)
  have seq: "ev_seq e = int (length evs)" "x \<in> set evs \<Longrightarrow> ev_seq x < int (length evs)" for x
    using seqe ok by (auto simp: log_ok_def in_set_conv_nth)
  have past: "rg_end r < int (length evs)" "rg_start r \<le> rg_end r" "evs \<noteq> []" if r: "r \<in> set rs" for r
  proof -
    from facts r obtain x where x: "x \<in> set evs" "event_payload x = Some (DContextSummary (rg_data r))"
      "rg_end r = cs_end (rg_data r)" "rg_start r \<le> rg_end r" by blast
    with assms(3) have "rg_end r < ev_seq x" by (simp add: summaries_past_def)
    with seq(2)[OF x(1)] x(1,4) show "rg_end r < int (length evs)" "rg_start r \<le> rg_end r" "evs \<noteq> []" by auto
  qed
  have rok: "ranges_ok rs" unfolding ranges_ok_def using past assms(4) by (meson less_imp_le order_trans)
  let ?s = "sortRanges rs" and ?ivs = "mergeRanges (sortRanges rs)"
  have "\<not> isShadowed ?ivs (ev_seq e)"
    unfolding shadow_exact[OF rok] seq(1) using past(1) by (meson not_less)
  moreover have "remaining_after ?s evs = []"
  proof (cases "rs = []")
    case True
    then show ?thesis by (simp add: sortRanges_def remaining_after_none)
  next
    case False
    then have "evs \<noteq> []" using past(3) by (meson list.set_sel(1))
    have "ev_seq (last evs) = int (length evs - 1)"
      using ok \<open>evs \<noteq> []\<close> by (auto simp: log_ok_def last_conv_nth)
    then have "\<forall>r \<in> set ?s. rg_start r \<le> ev_seq (last evs)"
      using past(1,2) \<open>evs \<noteq> []\<close> by (fastforce simp: sortRanges_def Suc_leI)
    then show ?thesis using \<open>evs \<noteq> []\<close> by (intro remaining_after_all[of "last evs"]) auto
  qed
  ultimately show ?thesis
    using rs collectRanges_snoc[OF assms(5), of evs] projectLoop_split[of ?ivs ?s evs "[]"] projectLoop_split[of ?ivs ?s evs "[e]"]
    by (simp add: deriveFull_def Let_def emitSummaries_def)
qed

definition cache_ok :: "session \<Rightarrow> bool" where
  "cache_ok s \<longleftrightarrow> (se_projValid s \<longrightarrow> se_projCount s = length (se_events s) \<and> se_projSummaries s = se_summaryEvents s
     \<and> deriveFull (se_events s) = Inr (se_projCache s))"

definition log_valid :: "session \<Rightarrow> bool" where
  "log_valid s \<longleftrightarrow> session_ok s \<and> se_maxEvents s = 0 \<and> (\<forall>e \<in> set (se_events s). validateSessionEvent e = None)"

lemma updateProjection_cache:
  assumes "cache_ok s0" "se_events s = se_events s0 @ [ev]" "se_projValid s = se_projValid s0" "se_projCache s = se_projCache s0"
    "se_projSummaries s = se_projSummaries s0" "se_summaryEvents s = se_summaryEvents s0"
    "\<And>d. typed = Some d \<Longrightarrow> decoded (ev_type ev) (ev_data ev) = Some d \<and> norm_event d = Some d"
    "\<And>out. ev_type ev \<noteq> EvContextSummary \<Longrightarrow> deriveFull (se_events s0) = Inr out \<Longrightarrow>
       deriveFull (se_events s0 @ [ev]) = Inr (out @ (case projectEvent ev of None \<Rightarrow> [] | Some m \<Rightarrow> [m]))"
  shows "cache_ok (updateProjection ev typed s)"
proof (cases "ev_type ev = EvContextSummary \<or> \<not> se_projValid s")
  case True
  then show ?thesis by (auto simp: updateProjection_def invalidateProjection_def cache_ok_def)
next
  case False
  with assms(1,3) have c: "se_projSummaries s0 = se_summaryEvents s0" "deriveFull (se_events s0) = Inr (se_projCache s0)"
    by (auto simp: cache_ok_def)
  note full = assms(8)[OF _ c(2)]
  obtain m b where m: "projectCommittedData (ev_type ev) typed (ev_seq ev) = (m, b)" by force
  show ?thesis
  proof (cases m)
    case (Some x)
    with committed_message[OF assms(7)] m have "projectEvent ev = Some x" by blast
    with False full c m Some assms(2-6) show ?thesis by (simp add: updateProjection_def cache_ok_def)
  next
    case None
    with invisible_message m have "\<not> b \<Longrightarrow> projectEvent ev = None" by fastforce
    with False full c m None assms(2-6) show ?thesis
      by (cases b) (simp_all add: updateProjection_def invalidateProjection_def cache_ok_def)
  qed
qed

lemma prepare_clean_typed:
  assumes "prepareEntry (r, data) = Inr p" "clean_data data" "ae_typed p = Some d"
  shows "decoded (ae_kind p) (ae_raw p) = Some d \<and> norm_event d = Some d"
proof -
  have "ae_typed p = append_typed data"
    using assms(1) by (auto simp: prepareEntry_def Let_def split: if_splits option.splits)
  with assms(2,3) have "norm_event d = Some d" by (cases data) auto
  with prepare_clean(2)[OF assms(1,2)] assms(3) show ?thesis by (simp add: eventData_def)
qed

lemma cache_ok_commit:
  assumes "log_valid s" "cache_ok s" "summaries_past (se_events s)" "prepareEntry (r, data) = Inr p" "clean_data data"
    "step_ok s p" "int (length (se_events s)) + 1 \<le> eventCap s"
  shows "log_valid (commit clock s p) \<and> cache_ok (commit clock s p)"
proof -
  let ?ev = "event_of clock s p"
  have ok: "session_ok (commit clock s p)"
    using assms by (intro session_ok_commit) (auto simp: log_valid_def prepareEntry_fits)
  have valid: "\<forall>e \<in> set (se_events s @ [?ev]). validateSessionEvent e = None"
    using assms(1) prepare_clean(1)[OF assms(4,5)] by (simp add: log_valid_def)
  have lok: "log_ok (se_events s @ [?ev])" using ok by (simp add: session_ok_def commitEntry_simps(2))
  have cap: "int (length (se_events s)) \<le> max_int64"
    using assms(1) by (auto simp: log_valid_def session_ok_def eventCap_def MaxSessionEvents_def max_int64_def)
  have "cache_ok (updateProjection ?ev (ae_typed p)
      ((if ae_kind p = EvRunStart then s\<lparr> se_runStarts := insert_id (ae_runID p) (se_runStarts s) \<rparr> else s)
        \<lparr> se_events := se_events s @ [?ev], se_runIndex := indexEvent ?ev (ae_typed p) (se_runIndex s) \<rparr>))"
  proof (rule updateProjection_cache[OF assms(2)])
    fix d assume "ae_typed p = Some d"
    with prepare_clean_typed[OF assms(4,5)] show "decoded (ev_type ?ev) (ev_data ?ev) = Some d \<and> norm_event d = Some d" by simp
  next
    fix out assume "ev_type ?ev \<noteq> EvContextSummary" "deriveFull (se_events s) = Inr out"
    with deriveFull_snoc[OF valid lok assms(3) cap]
    show "deriveFull (se_events s @ [?ev]) = Inr (out @ (case projectEvent ?ev of None \<Rightarrow> [] | Some m \<Rightarrow> [m]))" by auto
  qed simp_all
  moreover have "commit clock s p = updateProjection ?ev (ae_typed p)
      ((if ae_kind p = EvRunStart then s\<lparr> se_runStarts := insert_id (ae_runID p) (se_runStarts s) \<rparr> else s)
        \<lparr> se_events := se_events s @ [?ev], se_runIndex := indexEvent ?ev (ae_typed p) (se_runIndex s) \<rparr>)"
    by (simp add: commitEntry_def event_of_def Let_def)
  ultimately have "cache_ok (commit clock s p)" by simp
  moreover have "log_valid (commit clock s p)"
    using ok valid assms(1) by (simp add: log_valid_def commitEntry_simps(2,5))
  ultimately show ?thesis by simp
qed

lemma summaries_past_prefix: "summaries_past (xs @ ys) \<Longrightarrow> summaries_past xs"
  by (simp add: summaries_past_def)

lemma cache_ok_commits:
  assumes "log_valid s" "cache_ok s" "list_all2 (\<lambda>x p. prepareEntry x = Inr p) entries ps" "list_all (clean_data \<circ> snd) entries"
    "steps_ok clock s ps" "int (length (se_events s)) + int (length ps) \<le> eventCap s"
    "summaries_past (se_events (fold (\<lambda>e s. commit clock s e) ps s))"
  shows "log_valid (fold (\<lambda>e s. commit clock s e) ps s) \<and> cache_ok (fold (\<lambda>e s. commit clock s e) ps s)"
  using assms
proof (induction ps arbitrary: s entries)
  case (Cons p ps)
  then obtain r data xs where e: "entries = (r, data) # xs" "prepareEntry (r, data) = Inr p"
    by (auto simp: list_all2_Cons2)
  have past: "summaries_past (se_events s)"
    using Cons.prems(7) commitAll_eq[of clock s "p # ps"] summaries_past_prefix by metis
  have "log_valid (commit clock s p) \<and> cache_ok (commit clock s p)"
    using Cons.prems past e by (intro cache_ok_commit[OF _ _ _ e(2)]) auto
  moreover have "eventCap (commit clock s p) = eventCap s" by (simp add: eventCap_def commitEntry_simps(5))
  ultimately show ?case using Cons.prems e(1) Cons.IH[of "commit clock s p" xs] by (simp add: commitEntry_simps(2))
qed simp

text \<open>Sessions the program can be in: created or restored, then any mix of clean appends and derivations.\<close>

inductive projected :: "session_options \<Rightarrow> session \<Rightarrow> bool" where
  projected_restore: "restoreSession opts evs = Inr s \<Longrightarrow> projected opts s"
| projected_append: "projected opts s \<Longrightarrow> list_all (clean_data \<circ> snd) entries \<Longrightarrow>
    appendBatch clock s entries = Inr (evs, s') \<Longrightarrow> summaries_past (se_events s') \<Longrightarrow> projected opts s'"
| projected_derive: "projected opts s \<Longrightarrow> deriveMessages s = Inr (ms, s') \<Longrightarrow> projected opts s'"

lemma deriveFull_total: "log_valid s \<Longrightarrow> \<exists>out. deriveFull (se_events s) = Inr out"
  using collectRanges_facts[of "se_events s"] by (auto simp: log_valid_def deriveFull_def Let_def)

lemma deriveMessages_cached:
  assumes "log_valid s" "cache_ok s" "deriveFull (se_events s) = Inr out"
  shows "\<exists>s'. deriveMessages s = Inr (map cloneChatMessage out, s') \<and> log_valid s' \<and> cache_ok s' \<and> se_events s' = se_events s"
proof (cases "se_projValid s")
  case True
  with assms have "deriveMessages s = Inr (map cloneChatMessage out, s)"
    by (simp add: deriveMessages_def cache_ok_def Let_def)
  with assms show ?thesis by blast
next
  case False
  let ?s = "s\<lparr> se_projCache := out, se_projCount := length (se_events s), se_projSummaries := se_summaryEvents s, se_projValid := True \<rparr>"
  have "deriveMessages s = Inr (map cloneChatMessage out, ?s)"
    using False assms(3) by (simp add: deriveMessages_def Let_def)
  moreover have "log_valid ?s" using assms(1) session_ok_cong[of ?s s] by (simp add: log_valid_def eventCap_def)
  moreover have "cache_ok ?s" using assms(3) by (simp add: cache_ok_def)
  ultimately show ?thesis by simp
qed

lemma projected_ok: "projected opts s \<Longrightarrow> log_valid s \<and> cache_ok s"
proof (induction rule: projected.induct)
  case (projected_restore opts evs s)
  from projected_restore obtain s0 where s0: "newSession opts = Inr s0" "replay_ok (s0\<lparr> se_projValid := (evs = []) \<rparr>) 0 evs"
    and s: "s = fold (\<lambda>ev s. restored s ev) evs (s0\<lparr> se_projValid := (evs = []) \<rparr>)"
    unfolding restoreSession_eq by blast
  have "replay_ok t i xs \<Longrightarrow> e \<in> set xs \<Longrightarrow> validateSessionEvent e = None" for t i xs e
    by (induction xs arbitrary: t i) auto
  then have "log_valid s"
    using restore_facts(1,2)[OF projected_restore] s0
    by (auto simp: log_valid_def s replay_simps(5) newSession_fields(5)[OF s0(1)])
  moreover have "se_projValid (fold (\<lambda>ev s. restored s ev) xs t) = se_projValid t" for xs t
    by (induction xs arbitrary: t) simp_all
  then have "cache_ok s"
    by (auto simp: cache_ok_def s newSession_fields[OF s0(1)] deriveFull_def collectRanges_def sortRanges_def mergeRanges_def emitSummaries_def Let_def)
  ultimately show ?case by simp
next
  case (projected_append opts s entries clock evs s')
  then have u: "\<forall>r. usage_ok (ri_usage (run_entry s r))" by (simp add: log_valid_def session_ok_def)
  from projected_append(3)[unfolded appendBatch_eq[OF u]] obtain ps where
    ps: "list_all2 (\<lambda>x p. prepareEntry x = Inr p) entries ps" "int (length (se_events s)) + int (length ps) \<le> eventCap s"
      "steps_ok clock s ps" "commitAll clock s ps = (evs, s')" by blast
  have s': "s' = fold (\<lambda>e s. commit clock s e) ps s" using commitAll_eq[of clock s ps] ps(4) by auto
  from cache_ok_commits[OF _ _ ps(1) _ ps(3,2)] projected_append show ?case unfolding s' by blast
next
  case (projected_derive opts s ms s')
  then obtain out where "deriveFull (se_events s) = Inr out" using deriveFull_total by blast
  with deriveMessages_cached[of s out] projected_derive show ?case by auto
qed

text \<open>C5: The incremental projection is coherent: however a session was created, restored, appended to and
  projected before, \<open>DeriveMessages\<close> returns the messages of a derivation from scratch over the whole
  log, provided summaries only replace events before them and payloads survive their encoding.\<close>
theorem projection_coherent:
  assumes "projected opts s"
  shows "\<exists>out s'. deriveFull (se_events s) = Inr out \<and> deriveMessages s = Inr (map cloneChatMessage out, s')"
  using projected_ok[OF assms] deriveFull_total deriveMessages_cached by metis

end
