(* ===== verification/Repair.thy ===== *)
theory Repair
  imports Projection
begin

text \<open>
  Repair of an interrupted run (\<open>src/pkg/core/repair.go\<close>): the scan for a run that never ended, the
  synthetic events that close it, and their commit to the restored session. The facts: the closers are
  always accepted while the log has room, they answer every open tool call, and a repaired log needs no
  further repair.
\<close>

section \<open>The scan\<close>

(* src/pkg/core/repair.go:27-33 RepairInterrupted *)
record repair_state =
  rp_runID :: string
  rp_stepOpen :: bool
  rp_expected :: "string list"
  rp_inFlight :: "string list"
  rp_approvals :: "string list"

(* src/pkg/core/repair.go:33-33 RepairInterrupted *)
definition resetRepair :: "string \<Rightarrow> repair_state" where
  "resetRepair runID = \<lparr> rp_runID = runID, rp_stepOpen = False, rp_expected = [], rp_inFlight = [], rp_approvals = [] \<rparr>"

definition requested_calls :: "assistant_message_data \<Rightarrow> tool_call list" where
  "requested_calls d = (case am_toolCall d of
     Some c \<Rightarrow> if am_toolCalls d = [] then [c] else am_toolCalls d
   | None \<Rightarrow> am_toolCalls d)"

text \<open>The maps of the code hold only true entries: they are sets of identifiers.\<close>

(* src/pkg/core/repair.go:46-86 RepairInterrupted *)
definition repairOpen :: "repair_state \<Rightarrow> session_event \<Rightarrow> repair_state" where
  "repairOpen st ev =
     (case ev_type ev of
        EvStepStart \<Rightarrow> st\<lparr> rp_stepOpen := True \<rparr>
      | EvStepEnd \<Rightarrow> st\<lparr> rp_stepOpen := False \<rparr>
      | EvStepError \<Rightarrow> st\<lparr> rp_stepOpen := False \<rparr>
      | EvAssistantMessage \<Rightarrow>
          (case decoded EvAssistantMessage (ev_data ev) of
             Some (DAssistantMessage d) \<Rightarrow> st\<lparr> rp_expected := fold (\<lambda>c ids. insert_id (tc_id c) ids) (requested_calls d) (rp_expected st) \<rparr>
           | _ \<Rightarrow> st)
      | EvToolCall \<Rightarrow>
          (case decoded EvToolCall (ev_data ev) of
             Some (DToolCall d) \<Rightarrow> st\<lparr> rp_expected := removeAll (td_callID d) (rp_expected st), rp_inFlight := insert_id (td_callID d) (rp_inFlight st) \<rparr>
           | _ \<Rightarrow> st)
      | EvToolResult \<Rightarrow>
          (case decoded EvToolResult (ev_data ev) of
             Some (DToolResult d) \<Rightarrow> st\<lparr> rp_expected := removeAll (tr_callID d) (rp_expected st), rp_inFlight := removeAll (tr_callID d) (rp_inFlight st) \<rparr>
           | _ \<Rightarrow> st)
      | EvApprovalRequested \<Rightarrow>
          (case decoded EvApprovalRequested (ev_data ev) of
             Some (DApprovalRequested d) \<Rightarrow> st\<lparr> rp_approvals := insert_id (aq_approvalID d) (rp_approvals st) \<rparr>
           | _ \<Rightarrow> st)
      | EvApprovalResolved \<Rightarrow>
          (case decoded EvApprovalResolved (ev_data ev) of
             Some (DApprovalResolved d) \<Rightarrow> st\<lparr> rp_approvals := removeAll (av_approvalID d) (rp_approvals st) \<rparr>
           | _ \<Rightarrow> st)
      | _ \<Rightarrow> st)"

(* src/pkg/core/repair.go:34-45 RepairInterrupted *)
definition repairStep :: "repair_state \<Rightarrow> session_event \<Rightarrow> repair_state" where
  "repairStep st ev =
     (if ev_type ev = EvRunStart then resetRepair (ev_runID ev)
      else if ev_type ev = EvRunEnd then resetRepair []
      else if rp_runID st = [] then st
      else repairOpen st ev)"

definition repairScan :: "session_event list \<Rightarrow> repair_state" where
  "repairScan evs = foldl repairStep (resetRepair []) evs"

section \<open>The closers\<close>

(* src/pkg/core/repair.go:11-11 CodeRunInterrupted *)
definition CodeRunInterrupted :: string where "CodeRunInterrupted = ''run_interrupted''"
(* src/pkg/core/repair.go:12-12 CodeToolOutcomeUnknown *)
definition CodeToolOutcomeUnknown :: string where "CodeToolOutcomeUnknown = ''tool_outcome_unknown''"
(* src/pkg/core/repair.go:13-13 CodeToolNotStarted *)
definition CodeToolNotStarted :: string where "CodeToolNotStarted = ''tool_not_started''"

definition synthetic_event :: "string \<Rightarrow> event_data \<Rightarrow> session_event" where
  "synthetic_event runID d = \<lparr> ev_seq = 0, ev_time = 0, ev_runID = runID, ev_type = kind_of d,
     ev_data = (case encode_event d of None \<Rightarrow> nilRaw | Some raw \<Rightarrow> raw) \<rparr>"

(* src/pkg/core/repair.go:111-111 RepairInterrupted *)
definition lostResult :: "string \<Rightarrow> string \<Rightarrow> event_data" where
  "lostResult code callID = DToolResult \<lparr> tr_callID = callID,
     tr_content = ''tool outcome lost: the run was interrupted before '' @ callID @ '' completed'', tr_ok = False,
     tr_metadata = Some [(''code'', JStr code), (''repaired'', JBool True)] \<rparr>"

(* src/pkg/core/repair.go:119-123 RepairInterrupted *)
definition interruptedError :: "string \<Rightarrow> event_data" where
  "interruptedError runID = DRunError \<lparr> re_code = CodeRunInterrupted,
     re_message = ''run '' @ runID @ '' was interrupted before reaching a terminal state; synthetic closers were appended on load'',
     re_retryable = True \<rparr>"

(* src/pkg/core/repair.go:98-126 RepairInterrupted *)
definition repairClosers :: "repair_state \<Rightarrow> event_data list" where
  "repairClosers st =
     map (lostResult CodeToolNotStarted) (sort (rp_expected st))
     @ map (lostResult CodeToolOutcomeUnknown) (sort (rp_inFlight st))
     @ (if rp_stepOpen st then [DStepEnd (-1)] else [])
     @ [interruptedError (rp_runID st), DRunEnd RunFailed]"

(* src/pkg/core/repair.go:25-128 RepairInterrupted *)
definition repairInterrupted :: "session_event list \<Rightarrow> session_event list" where
  "repairInterrupted evs =
     (let st = repairScan evs in
        if rp_runID st = [] then []
        else if rp_approvals st \<noteq> [] then []
        else map (synthetic_event (rp_runID st)) (repairClosers st))"

section \<open>Commit\<close>

text \<open>
  The value an event is appended as: the registered payload type for results, errors and ends; a generic
  map, which encodes back to the same text, for the others.
\<close>

(* src/pkg/core/repair.go:134-149 AppendRepair *)
definition repairData :: "session_event \<Rightarrow> append_data option" where
  "repairData ev =
     (case decoded (ev_type ev) (ev_data ev) of
        None \<Rightarrow> None
      | Some d \<Rightarrow> Some (if ev_type ev \<in> {EvToolResult, EvRunError, EvRunEnd} then Typed d
                        else Untyped (ev_type ev) (Some (ev_data ev))))"

text \<open>The session and the emitted events stay as they are when a later event fails.\<close>

(* src/pkg/core/repair.go:132-157 AppendRepair *)
fun appendRepair :: "(nat \<Rightarrow> gotime) \<Rightarrow> session \<Rightarrow> session_event list \<Rightarrow> session \<times> session_event list \<times> session_error option" where
  "appendRepair clock s [] = (s, [], None)"
| "appendRepair clock s (ev # evs) =
     (case repairData ev of
        None \<Rightarrow> (s, [], Some (EventRejected PayloadUndecodable))
      | Some data \<Rightarrow>
          (case appendEvent clock s (ev_runID ev) data of
             Inl err \<Rightarrow> (s, [], Some err)
           | Inr (appended, s1) \<Rightarrow>
               let (s2, emitted, err) = appendRepair clock s1 evs in (s2, appended # emitted, err)))"

section \<open>The closers are accepted\<close>

lemma length_escape_rune: "bs \<noteq> [] \<Longrightarrow> length (escape_rune (r, bs)) \<le> 6 * length bs"
  by (cases bs) (auto simp: escape_rune_def escape_hex_def Let_def)

lemma runes_nonempty: "(r, bs) \<in> set (runes s) \<Longrightarrow> bs \<noteq> []"
proof (induction s rule: runes.induct)
  case (2 c cs)
  then show ?case using head_rune_pos[of "c # cs"] by (auto simp: runes.simps(2) simp del: take_Suc_Cons drop_Suc_Cons)
qed simp

lemma length_json_string: "length (json_string s) \<le> 6 * length s + 2"
proof -
  have "length (concat (map escape_rune rs)) \<le> 6 * length (concat (map snd rs))" if "\<forall>(r, bs) \<in> set rs. bs \<noteq> []" for rs
    using that
  proof (induction rs)
    case (Cons x rs)
    then show ?case using length_escape_rune[of "snd x" "fst x"] by (auto simp: split_beta)
  qed simp
  from this[of "runes s"] show ?thesis using runes_nonempty by (fastforce simp: json_string_def concat_runes)
qed

definition repair_metadata :: "string \<Rightarrow> json_object" where
  "repair_metadata code = [(''code'', JStr code), (''repaired'', JBool True)]"

lemma repair_metadata_facts:
  assumes "code = CodeToolNotStarted \<or> code = CodeToolOutcomeUnknown"
  shows "norm_object 1 (Some (repair_metadata code)) = Some (Some (repair_metadata code))
    \<and> is_ok (validateResultMetadata (Some (repair_metadata code)))
    \<and> (\<exists>t. json_object_text (repair_metadata code) = Some t \<and> length t \<le> 100)"
proof -
  have "list_all (\<lambda>code. norm_object 1 (Some (repair_metadata code)) = Some (Some (repair_metadata code))
    \<and> is_ok (validateResultMetadata (Some (repair_metadata code)))
    \<and> (case json_object_text (repair_metadata code) of Some t \<Rightarrow> length t \<le> 100 | None \<Rightarrow> False)) [CodeToolNotStarted, CodeToolOutcomeUnknown]"
    by code_simp
  then show ?thesis using assms by (auto split: option.splits)
qed

lemma length_to_valid_utf8: "length (to_valid_utf8 s) \<le> 3 * length s"
proof -
  have "length (concat (map (\<lambda>(r, bs). if r = rune_error \<and> length bs = 1
      then [char_of (239::nat), char_of (191::nat), char_of (189::nat)] else bs) rs)) \<le> 3 * length (concat (map snd rs))" for rs
    by (induction rs) (auto simp: split_beta)
  from this[of "runes s"] show ?thesis by (simp add: to_valid_utf8_def concat_runes)
qed

lemma json_lost_length:
  assumes "code = CodeToolNotStarted \<or> code = CodeToolOutcomeUnknown"
  obtains t where "json_event (DToolResult \<lparr> tr_callID = i, tr_content = x, tr_ok = False, tr_metadata = Some (repair_metadata code) \<rparr>) = Some t"
    "length t \<le> 6 * length i + 6 * length x + 400"
proof -
  obtain m where m: "json_object_text (repair_metadata code) = Some m" "length m \<le> 100"
    using repair_metadata_facts[OF assms] by blast
  have ne: "repair_metadata code \<noteq> []" by (simp add: repair_metadata_def)
  note len = length_json_string[of i] length_json_string[of x] length_json_string[of "''call_id''"] length_json_string[of "''content''"]
    length_json_string[of "''ok''"] length_json_string[of "''metadata''"]
  show thesis
  proof (rule that)
    show "json_event (DToolResult \<lparr> tr_callID = i, tr_content = x, tr_ok = False, tr_metadata = Some (repair_metadata code) \<rparr>)
      = Some (json_struct [(''call_id'', json_string i), (''content'', json_string x), (''ok'', ''false''), (''metadata'', m)])"
      using m(1) ne by (simp add: json_record_def field_def json_bool_def schema_field_def del: json_text.simps)
    show "length (json_struct [(''call_id'', json_string i), (''content'', json_string x), (''ok'', ''false''), (''metadata'', m)])
      \<le> 6 * length i + 6 * length x + 400"
      using len m(2) by (simp add: json_struct_def)
  qed
qed

text \<open>A closer, encoded and appended, is accepted and keeps its kind and its call.\<close>

definition accepted :: "string \<Rightarrow> event_data \<Rightarrow> append_entry \<Rightarrow> bool" where
  "accepted r d p \<longleftrightarrow> (\<exists>data. repairData (synthetic_event r d) = Some data \<and> prepareEntry (r, data) = Inr p)
     \<and> ae_runID p = r \<and> ae_kind p = kind_of d \<and> kind_of d \<in> {EvToolResult, EvStepEnd, EvRunError, EvRunEnd}
     \<and> (\<forall>c. d = DToolResult c \<longrightarrow> (\<exists>c'. decoded EvToolResult (ae_raw p) = Some (DToolResult c') \<and> tr_callID c' = tr_callID c))"

lemma accepted_typed:
  assumes "validateRunID r" "json_event d = Some t" "norm_event d = Some d'" "validateEventData d' = None"
    "json_event d' = Some t'" "length t' \<le> MaxSessionEventDataBytes" "kind_of d \<in> {EvToolResult, EvRunError, EvRunEnd}"
    "\<And>c. d = DToolResult c \<Longrightarrow> \<exists>c'. norm_event d' = Some (DToolResult c') \<and> tr_callID c' = tr_callID c"
  shows "\<exists>p. accepted r d p"
proof -
  have k: "kind_of d' = kind_of d" using assms(3) by (rule norm_event_kind)
  have enc: "encode_event d = Some \<lparr> raw_len = length t, raw_val = Some d' \<rparr>" "encode_event d' = Some \<lparr> raw_len = length t', raw_val = norm_event d' \<rparr>"
    using assms(2,3,5) by (simp_all add: encode_event_def)
  have "repairData (synthetic_event r d) = Some (Typed d')"
    using assms(7) k by (auto simp: repairData_def synthetic_event_def enc decoded_def)
  moreover have "prepareEntry (r, Typed d') = Inr \<lparr> ae_runID = r, ae_kind = kind_of d, ae_typed = Some d', ae_raw = \<lparr> raw_len = length t', raw_val = norm_event d' \<rparr> \<rparr>"
    using assms(1,4,6) by (simp add: prepareEntry_def marshalPayload_def enc k)
  ultimately show ?thesis using assms(7,8)
    by (intro exI[of _ "\<lparr> ae_runID = r, ae_kind = kind_of d, ae_typed = Some d', ae_raw = \<lparr> raw_len = length t', raw_val = norm_event d' \<rparr> \<rparr>"])
       (auto simp: accepted_def decoded_def)
qed

lemma lost_accepted:
  assumes "validateRunID r" "validateToolCallID i" "valid_utf8 i" "code = CodeToolNotStarted \<or> code = CodeToolOutcomeUnknown"
  shows "\<exists>p. accepted r (lostResult code i) p"
proof -
  let ?x = "''tool outcome lost: the run was interrupted before '' @ i @ '' completed''"
  let ?d = "\<lambda>x. DToolResult \<lparr> tr_callID = i, tr_content = x, tr_ok = False, tr_metadata = Some (repair_metadata code) \<rparr>"
  have d: "lostResult code i = ?d ?x" by (simp add: lostResult_def repair_metadata_def)
  note m = repair_metadata_facts[OF assms(4)]
  have len: "length i \<le> 256" using assms(2) by (simp add: validateToolCallID_def)
  have norm: "norm_event (?d x) = Some (?d (utf8 x))" for x using m assms(3) by (simp add: to_valid_utf8_id)
  obtain t where t: "json_event (?d ?x) = Some t" by (rule json_lost_length[OF assms(4)])
  obtain t' where t': "json_event (?d (utf8 ?x)) = Some t'" "length t' \<le> 6 * length i + 6 * length (utf8 ?x) + 400"
    by (rule json_lost_length[OF assms(4)])
  have "length t' \<le> MaxSessionEventDataBytes"
    using t'(2) length_to_valid_utf8[of ?x] len by (simp add: MaxSessionEventDataBytes_def)
  moreover have "validateEventData (?d (utf8 ?x)) = None" using assms(2) m by simp
  ultimately show ?thesis unfolding d by (intro accepted_typed[OF assms(1) t norm _ t'(1)]) (use norm in auto)
qed

lemma error_accepted:
  assumes "validateRunID r"
  shows "\<exists>p. accepted r (interruptedError r) p"
proof -
  let ?m = "''run '' @ r @ '' was interrupted before reaching a terminal state; synthetic closers were appended on load''"
  let ?d = "DRunError \<lparr> re_code = CodeRunInterrupted, re_message = ?m, re_retryable = True \<rparr>"
  let ?t = "json_struct [(''code'', json_string CodeRunInterrupted), (''message'', json_string ?m), (''retryable'', ''true'')]"
  have id: "safe_id r" using assms by (simp add: validateRunID_def)
  have ascii: "list_all (\<lambda>c. (of_char c :: nat) < 128) ?m" "list_all (\<lambda>c. (of_char c :: nat) < 128) CodeRunInterrupted"
    using safe_id_ascii[OF id] by (simp_all add: CodeRunInterrupted_def)
  have t: "json_event ?d = Some ?t" by (simp add: json_runtime_error_def json_record_def field_def json_bool_def)
  have norm: "norm_event ?d = Some ?d"
    using ascii by (simp add: norm_runtime_error_def to_valid_utf8_id valid_utf8_ascii del: append.simps append_assoc)
  have "length ?t \<le> MaxSessionEventDataBytes"
    using length_json_string[of ?m] length_json_string[of CodeRunInterrupted] length_json_string[of "''code''"]
      length_json_string[of "''message''"] length_json_string[of "''retryable''"] id
    by (simp add: json_struct_def MaxSessionEventDataBytes_def safe_id_iff CodeRunInterrupted_def)
  moreover have "validateEventData ?d = None"
    using not_blank_ascii[of "hd ?m" "tl ?m"] not_blank_ascii[of "hd CodeRunInterrupted" "tl CodeRunInterrupted"] safe_id_ascii[OF id]
    by (simp add: is_space_def CodeRunInterrupted_def)
  ultimately show ?thesis
    unfolding interruptedError_def by (intro accepted_typed[OF assms t norm _ t]) simp_all
qed

lemma end_step_accepted:
  assumes "validateRunID r"
  shows "\<exists>p. accepted r (DRunEnd RunFailed) p" "\<exists>p. accepted r (DStepEnd (-1)) p"
proof -
  have f: "(case json_event (DRunEnd RunFailed) of Some t \<Rightarrow> length t \<le> MaxSessionEventDataBytes | None \<Rightarrow> False)
    \<and> (case json_event (DStepEnd (-1)) of Some t \<Rightarrow> length t \<le> MaxSessionEventDataBytes | None \<Rightarrow> False)
    \<and> norm_event (DRunEnd RunFailed) = Some (DRunEnd RunFailed) \<and> validateEventData (DRunEnd RunFailed) = None"
    by code_simp
  then obtain t u where t: "json_event (DRunEnd RunFailed) = Some t" "length t \<le> MaxSessionEventDataBytes"
    and u: "json_event (DStepEnd (-1)) = Some u" "length u \<le> MaxSessionEventDataBytes"
    by (auto split: option.splits)
  show "\<exists>p. accepted r (DRunEnd RunFailed) p"
    using accepted_typed[OF assms t(1) _ _ t] f by simp
  have "u \<noteq> []" using u(1) json_record_nonempty by (simp del: json_event.simps add: json_event.simps(8))
  then have "prepareEntry (r, Untyped EvStepEnd (Some \<lparr> raw_len = length u, raw_val = Some (DStepEnd (-1)) \<rparr>))
    = Inr \<lparr> ae_runID = r, ae_kind = EvStepEnd, ae_typed = None, ae_raw = \<lparr> raw_len = length u, raw_val = Some (DStepEnd (-1)) \<rparr> \<rparr>"
    using assms u(2) by (simp add: prepareEntry_def marshalPayload_def validateSessionEvent_def decoded_def reject_if_def)
  moreover have "repairData (synthetic_event r (DStepEnd (-1))) = Some (Untyped EvStepEnd (Some \<lparr> raw_len = length u, raw_val = Some (DStepEnd (-1)) \<rparr>))"
    using u(1) by (simp add: repairData_def synthetic_event_def encode_event_def decoded_def)
  ultimately show "\<exists>p. accepted r (DStepEnd (-1)) p"
    by (intro exI[of _ "\<lparr> ae_runID = r, ae_kind = EvStepEnd, ae_typed = None, ae_raw = \<lparr> raw_len = length u, raw_val = Some (DStepEnd (-1)) \<rparr> \<rparr>"])
       (auto simp: accepted_def)
qed

text \<open>What the scan remembers comes from the log.\<close>

fun event_calls :: "event_data \<Rightarrow> string list" where
  "event_calls (DAssistantMessage d) = map tc_id (requested_calls d)"
| "event_calls (DToolCall d) = [td_callID d]"
| "event_calls _ = []"

definition log_calls :: "session_event list \<Rightarrow> string list" where
  "log_calls evs = concat (map (\<lambda>e. case event_payload e of None \<Rightarrow> [] | Some d \<Rightarrow> event_calls d) evs)"

definition run_ids :: "session_event list \<Rightarrow> string set" where
  "run_ids evs = ev_runID ` set evs"

lemma fold_insert_ids: "set (fold (\<lambda>c ids. insert_id (f c) ids) cs ids) = f ` set cs \<union> set ids"
  by (induction cs arbitrary: ids) (auto simp: insert_id_def)

lemma repairScan_snoc: "repairScan (evs @ [e]) = repairStep (repairScan evs) e"
  by (simp add: repairScan_def)

lemma repairOpen_from_event:
  "rp_runID (repairOpen st e) = rp_runID st"
  "set (rp_expected (repairOpen st e)) \<union> set (rp_inFlight (repairOpen st e))
     \<subseteq> set (rp_expected st) \<union> set (rp_inFlight st) \<union> set (log_calls [e])"
  by (cases "ev_type e"; auto simp: repairOpen_def fold_insert_ids insert_id_def log_calls_def event_payload_def
        split: option.split event_data.split)+

lemma repairScan_from_log:
  "(rp_runID (repairScan evs) = [] \<or> rp_runID (repairScan evs) \<in> run_ids evs)
   \<and> set (rp_expected (repairScan evs)) \<union> set (rp_inFlight (repairScan evs)) \<subseteq> set (log_calls evs)"
proof (induction evs rule: rev_induct)
  case Nil
  then show ?case by (simp add: repairScan_def resetRepair_def)
next
  case (snoc e evs)
  have calls: "set (log_calls (evs @ [e])) = set (log_calls evs) \<union> set (log_calls [e])" by (simp add: log_calls_def)
  let ?st = "repairScan evs"
  have "set (rp_expected (repairOpen ?st e)) \<union> set (rp_inFlight (repairOpen ?st e)) \<subseteq> set (log_calls (evs @ [e]))"
    using snoc repairOpen_from_event(2)[of ?st e] unfolding calls by blast
  with snoc show ?case
    by (auto simp: repairScan_snoc repairStep_def resetRepair_def run_ids_def repairOpen_from_event(1) calls)
qed

section \<open>A repaired log\<close>

lemma accepted_step_ok: "accepted r d p \<Longrightarrow> step_ok s p"
  by (auto simp: accepted_def validateAppendStep_def Let_def)

lemma appendRepair_ok:
  assumes "session_ok s" "list_all2 (accepted r) ds ps" "int (length (se_events s)) + int (length ds) \<le> eventCap s"
  shows "\<exists>s' out. appendRepair clock s (map (synthetic_event r) ds) = (s', out, None) \<and> session_ok s'
     \<and> se_events s' = se_events s @ out \<and> list_all2 (\<lambda>p e. ev_runID e = ae_runID p \<and> ev_type e = ae_kind p \<and> ev_data e = ae_raw p) ps out"
  using assms
proof (induction ds arbitrary: s ps)
  case (Cons d ds)
  then obtain p qs where ps: "ps = p # qs" "accepted r d p" "list_all2 (accepted r) ds qs" by (auto simp: list_all2_Cons1)
  from ps(2) obtain data where data: "repairData (synthetic_event r d) = Some data" "prepareEntry (r, data) = Inr p"
    by (auto simp: accepted_def)
  let ?s1 = "commit clock s p"
  have u: "\<forall>r. usage_ok (ri_usage (run_entry s r))" using Cons.prems(1) by (simp add: session_ok_def)
  have ap: "appendEvent clock s r data = Inr (event_of clock s p, ?s1)"
    using appendEvent_eq[OF u] data(2) Cons.prems(3) accepted_step_ok[OF ps(2)] by auto
  have ok: "session_ok ?s1"
    using session_ok_commits[of s "[p]" clock] prepareEntry_fits[OF data(2)] Cons.prems(1,3) accepted_step_ok[OF ps(2)] by simp
  have n: "se_events ?s1 = se_events s @ [event_of clock s p]" "eventCap ?s1 = eventCap s"
    by (simp_all add: commitEntry_simps(2,5) eventCap_def)
  then have "int (length (se_events ?s1)) + int (length ds) \<le> eventCap ?s1" using Cons.prems(3) by simp
  from Cons.IH[OF ok ps(3) this] obtain s' out where out: "appendRepair clock ?s1 (map (synthetic_event r) ds) = (s', out, None)"
    "session_ok s'" "se_events s' = se_events ?s1 @ out"
    "list_all2 (\<lambda>p e. ev_runID e = ae_runID p \<and> ev_type e = ae_kind p \<and> ev_data e = ae_raw p) qs out" by blast
  have "ev_runID (synthetic_event r d) = r" by (simp add: synthetic_event_def)
  then show ?case using data(1) ap out n ps(1)
    by (intro exI[of _ s'] exI[of _ "event_of clock s p # out"]) (simp add: event_of_def)
qed simp

definition answered :: "session_event list \<Rightarrow> string set" where
  "answered es = {tr_callID c |e c. e \<in> set es \<and> ev_type e = EvToolResult \<and> decoded EvToolResult (ev_data e) = Some (DToolResult c)}"

lemma closing_step:
  assumes "ev_type e \<in> {EvToolResult, EvStepEnd, EvRunError}" "rp_runID st \<noteq> []"
  shows "rp_runID (repairStep st e) = rp_runID st"
    "set (rp_expected (repairStep st e)) = set (rp_expected st) - answered [e]"
    "set (rp_inFlight (repairStep st e)) = set (rp_inFlight st) - answered [e]"
    "rp_stepOpen (repairStep st e) \<longleftrightarrow> rp_stepOpen st \<and> ev_type e \<noteq> EvStepEnd"
proof -
  have none: "answered [e] = {}" if "ev_type e \<noteq> EvToolResult \<or> decoded EvToolResult (ev_data e) = None" using that by (auto simp: answered_def)
  have other: "rp_runID (repairStep st e) = rp_runID st \<and> set (rp_expected (repairStep st e)) = set (rp_expected st) - answered [e]
    \<and> set (rp_inFlight (repairStep st e)) = set (rp_inFlight st) - answered [e] \<and> (rp_stepOpen (repairStep st e) \<longleftrightarrow> rp_stepOpen st \<and> ev_type e \<noteq> EvStepEnd)"
  proof (cases "ev_type e = EvToolResult")
    case False
    then show ?thesis using assms none by (auto simp: repairStep_def repairOpen_def)
  next
    case tr: True
    show ?thesis
    proof (cases "decoded EvToolResult (ev_data e)")
      case None
      then show ?thesis using assms(2) tr none by (simp add: repairStep_def repairOpen_def)
    next
      case (Some d)
      then obtain c where "d = DToolResult c" using decoded_kind[OF Some] by (cases d) auto
      then show ?thesis using assms(2) tr Some by (auto simp: repairStep_def repairOpen_def answered_def)
    qed
  qed
  then show "rp_runID (repairStep st e) = rp_runID st"
    "set (rp_expected (repairStep st e)) = set (rp_expected st) - answered [e]"
    "set (rp_inFlight (repairStep st e)) = set (rp_inFlight st) - answered [e]"
    "rp_stepOpen (repairStep st e) \<longleftrightarrow> rp_stepOpen st \<and> ev_type e \<noteq> EvStepEnd" by simp_all
qed

lemma closing_scan:
  assumes "\<forall>e \<in> set es. ev_type e \<in> {EvToolResult, EvStepEnd, EvRunError}" "rp_runID st \<noteq> []"
  shows "set (rp_expected (foldl repairStep st es)) = set (rp_expected st) - answered es
     \<and> set (rp_inFlight (foldl repairStep st es)) = set (rp_inFlight st) - answered es
     \<and> (rp_stepOpen (foldl repairStep st es) \<longleftrightarrow> rp_stepOpen st \<and> (\<forall>e \<in> set es. ev_type e \<noteq> EvStepEnd))"
  using assms
proof (induction es arbitrary: st)
  case (Cons e es)
  then have e: "ev_type e \<in> {EvToolResult, EvStepEnd, EvRunError}" by simp
  have r: "rp_runID (repairStep st e) \<noteq> []" using closing_step(1)[OF e Cons.prems(2)] Cons.prems(2) by simp
  have u: "answered (e # es) = answered [e] \<union> answered es" by (auto simp: answered_def)
  from Cons.IH[OF _ r] Cons.prems(1) closing_step(2-4)[OF e Cons.prems(2)] show ?case unfolding u foldl_Cons
    by (simp add: Diff_Diff_Int Diff_Un Int_Diff) blast
qed (simp add: answered_def)

lemma repairClosers_accepted:
  assumes "validateRunID (rp_runID st)" "\<And>i. i \<in> set (rp_expected st) \<union> set (rp_inFlight st) \<Longrightarrow> validateToolCallID i \<and> valid_utf8 i"
  shows "\<exists>ps. list_all2 (accepted (rp_runID st)) (repairClosers st) ps"
proof -
  have "\<exists>p. accepted (rp_runID st) d p" if "d \<in> set (repairClosers st)" for d
    using that assms lost_accepted[OF assms(1)] error_accepted[OF assms(1)] end_step_accepted[OF assms(1)]
    by (auto simp: repairClosers_def split: if_splits)
  then have "\<forall>d \<in> set (repairClosers st). accepted (rp_runID st) d (SOME p. accepted (rp_runID st) d p)" by (meson someI_ex)
  then have "list_all2 (accepted (rp_runID st)) (repairClosers st) (map (\<lambda>d. SOME p. accepted (rp_runID st) d p) (repairClosers st))"
    by (simp add: list_all2_conv_all_nth)
  then show ?thesis by blast
qed

lemma log_calls_valid:
  assumes "\<forall>e \<in> set evs. validateSessionEvent e = None" "i \<in> set (log_calls evs)"
  shows "validateToolCallID i"
proof -
  have list: "validateToolCallList cs b seen = None \<Longrightarrow> c \<in> set cs \<Longrightarrow> validateToolCallID (tc_id c)" for cs b seen c
    by (induction cs b seen rule: validateToolCallList.induct) (auto simp: validateToolCall_def split: if_splits)
  from assms(2) obtain e d where e: "e \<in> set evs" "event_payload e = Some d" "i \<in> set (event_calls d)"
    by (force simp: log_calls_def split: option.splits)
  have v: "validateEventData d = None"
    using bspec[OF assms(1) e(1)] e(2) by (auto simp: validateSessionEvent_def event_payload_def split: if_splits)
  show ?thesis
  proof (cases d)
    case (DAssistantMessage m)
    with v have "validateToolCallList (requested_calls m) True [] = None"
      by (auto simp: validateAssistantMessageData_def requested_calls_def first_err_def Let_def split: if_splits option.splits)
    then show ?thesis using e(3) list DAssistantMessage by auto
  qed (use v e(3) in \<open>auto simp: validateToolCall_def\<close>)
qed

lemma list_all2_memE: "list_all2 P xs ys \<Longrightarrow> x \<in> set xs \<Longrightarrow> \<exists>y \<in> set ys. P x y"
  by (induction rule: list_all2_induct) auto

lemma list_all2_memE2: "list_all2 P xs ys \<Longrightarrow> y \<in> set ys \<Longrightarrow> \<exists>x \<in> set xs. P x y"
  by (induction rule: list_all2_induct) auto

definition commits :: "event_data \<Rightarrow> session_event \<Rightarrow> bool" where
  "commits d e \<longleftrightarrow> ev_type e = kind_of d \<and> (\<forall>c. d = DToolResult c \<longrightarrow>
     (\<exists>c'. decoded EvToolResult (ev_data e) = Some (DToolResult c') \<and> tr_callID c' = tr_callID c))"

lemma closed_by:
  assumes "list_all2 commits (repairClosers (repairScan evs)) out" "rp_runID (repairScan evs) \<noteq> []"
  shows "repairInterrupted (evs @ out) = []"
    "let st = repairScan (butlast (evs @ out)) in rp_expected st = [] \<and> rp_inFlight st = [] \<and> \<not> rp_stepOpen st"
proof -
  let ?st = "repairScan evs"
  define ds where "ds = map (lostResult CodeToolNotStarted) (sort (rp_expected ?st)) @ map (lostResult CodeToolOutcomeUnknown) (sort (rp_inFlight ?st))
     @ (if rp_stepOpen ?st then [DStepEnd (-1)] else []) @ [interruptedError (rp_runID ?st)]"
  have "repairClosers ?st = ds @ [DRunEnd RunFailed]" by (simp add: ds_def repairClosers_def)
  with assms(1) obtain es e where out: "out = es @ [e]" "list_all2 commits ds es" "commits (DRunEnd RunFailed) e"
    by (auto simp: list_all2_append1 list_all2_Cons1)
  have in_ds: "i \<in> set (rp_expected ?st) \<Longrightarrow> lostResult CodeToolNotStarted i \<in> set ds"
    "i \<in> set (rp_inFlight ?st) \<Longrightarrow> lostResult CodeToolOutcomeUnknown i \<in> set ds"
    "rp_stepOpen ?st \<Longrightarrow> DStepEnd (-1) \<in> set ds" for i
    by (auto simp: ds_def)
  have kinds: "\<forall>x \<in> set es. ev_type x \<in> {EvToolResult, EvStepEnd, EvRunError}"
  proof
    fix x
    assume "x \<in> set es"
    then obtain d where "d \<in> set ds" "commits d x" using list_all2_memE2[OF out(2)] by blast
    then show "ev_type x \<in> {EvToolResult, EvStepEnd, EvRunError}"
      by (auto simp: commits_def ds_def lostResult_def interruptedError_def split: if_splits)
  qed
  have ans: "i \<in> answered es" if "i \<in> set (rp_expected ?st) \<union> set (rp_inFlight ?st)" for i
  proof -
    from that in_ds obtain code where "lostResult code i \<in> set ds" by blast
    then obtain x where "x \<in> set es" "commits (lostResult code i) x" using list_all2_memE[OF out(2)] by blast
    then show ?thesis by (auto simp: answered_def commits_def lostResult_def)
  qed
  have step: "\<exists>x \<in> set es. ev_type x = EvStepEnd" if "rp_stepOpen ?st"
    using list_all2_memE[OF out(2) in_ds(3)[OF that]] by (auto simp: commits_def)
  have scan: "repairScan (evs @ es) = foldl repairStep ?st es" by (simp add: repairScan_def)
  note cs = closing_scan[OF kinds assms(2)]
  show "let st = repairScan (butlast (evs @ out)) in rp_expected st = [] \<and> rp_inFlight st = [] \<and> \<not> rp_stepOpen st"
  proof -
    have b: "butlast (evs @ out) = evs @ es" by (simp add: out(1) butlast_append)
    have "set (rp_expected ?st) - answered es = {}" "set (rp_inFlight ?st) - answered es = {}" using ans by blast+
    then have "rp_expected (repairScan (evs @ es)) = []" "rp_inFlight (repairScan (evs @ es)) = []"
      using conjunct1[OF cs] conjunct1[OF conjunct2[OF cs]] unfolding scan by (simp_all only: set_empty)
    moreover have "\<not> rp_stepOpen (repairScan (evs @ es))" using cs step unfolding scan by simp
    ultimately show ?thesis unfolding b by simp
  qed
  have "ev_type e = EvRunEnd" using out(3) by (simp add: commits_def)
  then show "repairInterrupted (evs @ out) = []"
    by (simp add: repairInterrupted_def out(1) repairScan_snoc[of "evs @ es" e, simplified] repairStep_def resetRepair_def)
qed


end
