(* ===== verification/Tool_Guard.thy ===== *)
theory Tool_Guard
  imports Run_Effects Repair
begin

text \<open>
  The enforcement funnel of a run (\<open>src/pkg/core/agent_tool_guard.go\<close>, \<open>agent_guard_support.go\<close>,
  \<open>hooks.go\<close>): every tool call of the model loop, of a fast route and of a composite provider passes the
  run budget, the argument schema, the hook, the capability budget, the rate limit, the approval and the
  journal before a provider sees it. Telemetry only observes and is left out.

  A provider may invoke tools through the funnel, which recurses; the depth is the fuel of \<open>execute\<close>, and
  \<open>None\<close> is its exhaustion. The budget of the run bounds the depth.
\<close>

section \<open>Refusals\<close>

(* src/pkg/core/hooks.go:165-173 CodeApprovalDenied *)
definition CodeApprovalDenied :: string where "CodeApprovalDenied = ''approval_denied''"
definition CodeApprovalUnavailable :: string where "CodeApprovalUnavailable = ''approval_unavailable''"
definition CodeApprovalFailed :: string where "CodeApprovalFailed = ''approval_failed''"
definition CodeInvalidArgs :: string where "CodeInvalidArgs = ''invalid_tool_args''"
definition CodeBudgetExceeded :: string where "CodeBudgetExceeded = ''capability_budget_exceeded''"
definition CodeHookDenied :: string where "CodeHookDenied = ''hook_denied''"
definition CodeRateLimited :: string where "CodeRateLimited = ''capability_rate_limited''"

(* src/pkg/core/tool_journal.go:34-37 CodeToolJournalUnavailable *)
definition CodeToolJournalUnavailable :: string where "CodeToolJournalUnavailable = ''tool_journal_unavailable''"
definition CodeToolIdempotencyConflict :: string where "CodeToolIdempotencyConflict = ''tool_idempotency_conflict''"

(* src/pkg/core/hooks.go:177-183 deniedResult *)
definition deniedResult :: "string \<Rightarrow> string \<Rightarrow> capability_result" where
  "deniedResult code message = \<lparr> cr_content = message, cr_ok = False, cr_metadata = Some [(''code'', JStr code)] \<rparr>"

(* src/pkg/core/hooks.go:186-195 approvalDeniedFor *)
definition approvalDeniedFor :: "string \<Rightarrow> tool_call \<Rightarrow> capability_result" where
  "approvalDeniedFor code call =
     (if code = CodeApprovalUnavailable
      then deniedResult code (''tool '' @ tc_name call @ '' requires approval but no approver is configured'')
      else if code = CodeApprovalFailed
      then deniedResult code (''tool '' @ tc_name call @ '' approval could not be completed'')
      else deniedResult code (''tool '' @ tc_name call @ '' was not approved''))"

definition emptyResult :: capability_result where
  "emptyResult = \<lparr> cr_content = [], cr_ok = False, cr_metadata = None \<rparr>"

section \<open>Appending to the log\<close>

(* src/pkg/core/agent.go:743-751 safeEventCallback *)
fun deliverEvents :: "(session_event \<Rightarrow> 'w \<Rightarrow> unit outcome \<times> 'w) \<Rightarrow> session_event list \<Rightarrow> ('w, go_error option) act" where
  "deliverEvents f [] = ret None"
| "deliverEvents f (ev # evs) = do {
     r \<leftarrow> foreign (f ev);
     rest \<leftarrow> deliverEvents f evs;
     ret (case r of Panics \<Rightarrow> Some (plain_error ''event callback panicked'') | Returns _ \<Rightarrow> rest) }"

(* src/pkg/core/agent.go:713-727 appendBatch *)
definition appendEntries :: "'w agent_options \<Rightarrow> (string \<times> append_data) list \<Rightarrow> ('w, go_error option) act" where
  "appendEntries opts entries = do {
     s \<leftarrow> gets ag_session;
     case appendBatch (ao_clock opts) s entries of
       Inl e \<Rightarrow> ret (Some (plain_error (ao_text opts (SessionFault e))))
     | Inr (evs, s') \<Rightarrow> do {
         modify (\<lambda>a. a\<lparr> ag_session := s' \<rparr>);
         (case ao_onEvent opts of None \<Rightarrow> ret None | Some f \<Rightarrow> deliverEvents f evs) } }"

(* src/pkg/core/agent.go:709-711 append *)
definition appendOne :: "'w agent_options \<Rightarrow> string \<Rightarrow> event_data \<Rightarrow> ('w, go_error option) act" where
  "appendOne opts runID data = appendEntries opts [(runID, Typed data)]"

section \<open>Approval\<close>

datatype approval_outcome = ApprovalGranted | ApprovalRefused capability_result | ApprovalSuspends run_error

(* src/pkg/core/agent_guard_support.go:18-41 requestApproval *)
definition durableApproval :: "tool_call \<Rightarrow> approval_request \<Rightarrow> go_error + approval_resolution \<Rightarrow> ('w, approval_outcome) act" where
  "durableApproval call request answer =
     (case answer of
        Inl _ \<Rightarrow> ret (ApprovalRefused (approvalDeniedFor CodeApprovalFailed call))
      | Inr resolution \<Rightarrow>
          if \<not> validateApprovalID (as_approvalID resolution)
          then ret (ApprovalRefused (approvalDeniedFor CodeApprovalFailed call))
          else if as_decision resolution = ApprovalPending then ret (ApprovalSuspends (PendingError request resolution))
          else if as_decision resolution = ApprovalApproved then do {
            modify (\<lambda>a. a\<lparr> ag_resolutions := mput (as_approvalID resolution) resolution (ag_resolutions a) \<rparr>);
            ret ApprovalGranted }
          else if as_decision resolution = ApprovalDenied \<or> as_decision resolution = ApprovalExpired then do {
            modify (\<lambda>a. a\<lparr> ag_resolutions := mput (as_approvalID resolution) resolution (ag_resolutions a) \<rparr>);
            ret (ApprovalRefused (approvalDeniedFor CodeApprovalDenied call)) }
          else ret (ApprovalRefused (approvalDeniedFor CodeApprovalUnavailable call)))"

(* src/pkg/core/agent_guard_support.go:43-59 requestApproval *)
definition immediateApproval :: "tool_call \<Rightarrow> go_error + approval_decision \<Rightarrow> approval_outcome" where
  "immediateApproval call answer =
     (case answer of
        Inl _ \<Rightarrow> ApprovalRefused (approvalDeniedFor CodeApprovalFailed call)
      | Inr decision \<Rightarrow>
          if decision = ApprovalApproved then ApprovalGranted
          else if decision = ApprovalDenied then ApprovalRefused (approvalDeniedFor CodeApprovalDenied call)
          else ApprovalRefused (approvalDeniedFor CodeApprovalUnavailable call))"

(* src/pkg/core/agent_guard_support.go:8-60 requestApproval *)
definition requestApproval :: "'w agent_options \<Rightarrow> run_info \<Rightarrow> tool_call \<Rightarrow> capability_manifest \<Rightarrow> ('w, approval_outcome) act" where
  "requestApproval opts info call manifest =
     (let request = \<lparr> ap_run = ri_run info, ap_session = ri_session info, ap_principal = ri_principal info,
                      ap_call = call, ap_manifest = manifest \<rparr>
      in case ao_approver opts of
           None \<Rightarrow> ret (ApprovalRefused (approvalDeniedFor CodeApprovalUnavailable call))
         | Some (Durable f) \<Rightarrow> do {
             r \<leftarrow> foreign (f request);
             durableApproval call request (safeCallValueError ''durable approver panicked'' r) }
         | Some (Immediate f) \<Rightarrow> do {
             r \<leftarrow> foreign (f request);
             ret (immediateApproval call (safeCallValueError ''approver panicked'' r)) })"

section \<open>The journal\<close>

(* src/pkg/core/agent_tool_guard.go:333-361 journalReplayResult *)
definition journalReplayResult :: "'w agent_options \<Rightarrow> tool_record \<Rightarrow> tool_invocation \<Rightarrow> capability_manifest option
    \<Rightarrow> replay_fault + capability_result" where
  "journalReplayResult opts record invocation manifest =
     (if tj_inv record \<noteq> invocation then Inl ReplayIdentity
      else case (if tj_state record = InvCompleted then tj_result record else None) of
             None \<Rightarrow> Inl ReplayNotCompleted
           | Some stored \<Rightarrow>
               let result = cloneCapabilityResult stored;
                   limit = (case manifest of
                              Some m \<Rightarrow> if cm_maxOutputBytes m > 0 then cm_maxOutputBytes m else DefaultMaxCapabilityOutputBytes
                            | None \<Rightarrow> DefaultMaxCapabilityOutputBytes)
               in if \<not> validateCapabilityResult result then Inl ReplayResult
                  else if int (length (cr_content result)) > limit then Inl ReplayTooLarge
                  else (case manifest of
                         None \<Rightarrow> Inr result
                       | Some m \<Rightarrow>
                           if \<not> cr_ok result \<or> schema_empty (cm_outputSchema m) then Inr result
                           else (case ao_unmarshal opts (cr_content result) of
                                   None \<Rightarrow> Inl ReplayNotJson
                                 | Some output \<Rightarrow>
                                     if validateJSONValue (ao_rx opts) (cm_outputSchema m) output \<noteq> None then Inl ReplaySchema
                                     else Inr result)))"

definition journal_panic :: string where
  "journal_panic = ''tool invocation journal panicked''"

text \<open>Where the funnel stands after the journal was asked: stop with an outcome, or run the provider.\<close>

datatype journal_gate = GateStop exec_result | GateRefuse capability_result | GateRun "tool_invocation option"

(* src/pkg/core/agent_tool_guard.go:209-249 Execute *)
definition journalDecision :: "'w agent_options \<Rightarrow> tool_call \<Rightarrow> capability_manifest option \<Rightarrow> tool_invocation
    \<Rightarrow> tool_record \<times> invocation_decision option \<Rightarrow> journal_gate" where
  "journalDecision opts call manifest invocation answer =
     (case snd answer of
        Some Replay \<Rightarrow>
          (case journalReplayResult opts (fst answer) invocation manifest of
             Inl e \<Rightarrow> GateRefuse (deniedResult CodeToolJournalUnavailable (ao_text opts (ReplayFault e)))
           | Inr result \<Rightarrow> GateRefuse result)
      | Some OutcomeUnknown \<Rightarrow>
          GateRefuse (deniedResult CodeToolOutcomeUnknown
            (''tool '' @ tc_name call @ '' may already have executed; automatic replay is unsafe''))
      | Some InvocationConflict \<Rightarrow>
          GateRefuse (deniedResult CodeToolIdempotencyConflict
            (''tool call identity '' @ tc_id call @ '' was reused with different capability or arguments''))
      | Some ExecuteNew \<Rightarrow> GateRun (Some invocation)
      | Some ExecuteRetry \<Rightarrow>
          if \<not> ti_idempotent invocation
          then GateRefuse (deniedResult CodeToolJournalUnavailable ''journal requested an unsafe non-idempotent retry'')
          else GateRun (Some invocation)
      | None \<Rightarrow> GateRefuse (deniedResult CodeToolJournalUnavailable ''journal returned an invalid tool invocation decision''))"

(* src/pkg/core/agent_tool_guard.go:185-250 Execute *)
definition journalBegin :: "'w agent_options \<Rightarrow> run_info \<Rightarrow> tool_call \<Rightarrow> capability_manifest option \<Rightarrow> ('w, journal_gate) act" where
  "journalBegin opts info call manifest =
     (case ao_journal opts of
        None \<Rightarrow> ret (GateRun None)
      | Some journal \<Rightarrow>
          (case newToolInvocation info call (case manifest of None \<Rightarrow> False | Some m \<Rightarrow> cm_idempotent m) of
             Inl e \<Rightarrow> ret (GateRefuse (deniedResult CodeInvalidArgs (ao_text opts (InvocationFault e))))
           | Inr invocation \<Rightarrow> do {
               r \<leftarrow> foreign (jo_begin journal invocation);
               w \<leftarrow> gets ag_world;
               case safeCallValueError journal_panic r of
                 Inl e \<Rightarrow>
                   (case ao_done opts w of
                      Some why \<Rightarrow> ret (GateStop (emptyResult, Some (OtherError
                        (e\<lparr> er_text := why @ [CHR 0x0A] @ er_text e, er_cancelled := True \<rparr>))))
                    | None \<Rightarrow> ret (GateRefuse (deniedResult CodeToolJournalUnavailable ''tool invocation journal is unavailable'')))
               | Inr answer \<Rightarrow> ret (journalDecision opts call manifest invocation answer) }))"

(* src/pkg/core/agent_tool_guard.go:273-295 Execute *)
definition journalFinish :: "'w agent_options \<Rightarrow> tool_call \<Rightarrow> capability_manifest option \<Rightarrow> tool_invocation option
    \<Rightarrow> exec_result \<Rightarrow> ('w, exec_result) act" where
  "journalFinish opts call manifest minted outcome =
     (case (ao_journal opts, minted) of
        (Some journal, Some invocation) \<Rightarrow>
          (case outcome of
             (result, Some err) \<Rightarrow> do {
               notify (jo_uncertain journal invocation ''provider_error'');
               ret (result, Some err) }
           | (result, None) \<Rightarrow> do {
               r \<leftarrow> foreign (jo_complete journal invocation result);
               case safeCallValueError journal_panic r of
                 Inl _ \<Rightarrow> do {
                   notify (jo_uncertain journal invocation CodeToolJournalUnavailable);
                   ret (deniedResult CodeToolOutcomeUnknown
                     (''tool '' @ tc_name call @ '' completed but its durable outcome could not be recorded''), None) }
               | Inr record \<Rightarrow>
                   (case journalReplayResult opts record invocation manifest of
                      Inl e \<Rightarrow> ret (deniedResult CodeToolJournalUnavailable (ao_text opts (ReplayFault e)), None)
                    | Inr canonical \<Rightarrow> ret (canonical, None)) })
      | _ \<Rightarrow> ret outcome)"

section \<open>The gates before the journal\<close>

(* src/pkg/core/agent_tool_guard.go:324-331 safeManifestFor *)
definition safeManifestFor :: "'w tool_runtime \<Rightarrow> string \<Rightarrow> capability_manifest option" where
  "safeManifestFor tools name =
     (case rt_manifestFor tools of None \<Rightarrow> None | Some f \<Rightarrow> safeCallValue None (f name))"

(* src/pkg/core/agent_tool_guard.go:393-400 safeBudgetFor *)
definition safeBudgetFor :: "'w tool_runtime \<Rightarrow> string \<Rightarrow> int" where
  "safeBudgetFor tools name =
     (case rt_budgetFor tools of None \<Rightarrow> 0 | Some f \<Rightarrow> safeCallValue 0 (f name))"

(* src/pkg/core/agent_tool_guard.go:117-126 Execute *)
definition argsFault :: "'w agent_options \<Rightarrow> capability_manifest option \<Rightarrow> tool_call \<Rightarrow> schema_fault option" where
  "argsFault opts manifest call =
     (case manifest of
        None \<Rightarrow> None
      | Some m \<Rightarrow>
          let schema = (case cm_tool m of
                          Some t \<Rightarrow> if te_parameters t \<noteq> None then te_parameters t else cm_inputSchema m
                        | None \<Rightarrow> cm_inputSchema m)
          in validateArgs (ao_rx opts) schema (case tc_args call of None \<Rightarrow> [] | Some args \<Rightarrow> args))"

(* src/pkg/core/agent_tool_guard.go:135-136 Execute *)
definition beforeTool :: "'w agent_options \<Rightarrow> run_info \<Rightarrow> tool_call \<Rightarrow> ('w, go_error option) act" where
  "beforeTool opts info call =
     (case ao_hooks opts of
        None \<Rightarrow> ret None
      | Some h \<Rightarrow> do {
          r \<leftarrow> foreign (hk_beforeTool h info call);
          ret (safeCallError ''run hook OnBeforeTool panicked'' r) })"

(* src/pkg/core/agent_tool_guard.go:158-160 Execute *)
definition rateAllows :: "'w agent_options \<Rightarrow> run_info \<Rightarrow> tool_call \<Rightarrow> ('w, bool) act" where
  "rateAllows opts info call =
     (case ao_limiter opts of
        None \<Rightarrow> ret True
      | Some f \<Rightarrow> do {
          r \<leftarrow> foreign (f (pr_tenant (ri_principal info)) (tc_name call));
          ret (safeCallValue False r) })"

(* src/pkg/core/agent_tool_guard.go:145-180 Execute *)
definition manifestGates :: "'w agent_options \<Rightarrow> run_info \<Rightarrow> bool \<Rightarrow> capability_manifest option \<Rightarrow> tool_call
    \<Rightarrow> ('w, approval_outcome) act" where
  "manifestGates opts info resuming manifest call =
     (case manifest of
        None \<Rightarrow> ret ApprovalGranted
      | Some m \<Rightarrow> do {
          counts \<leftarrow> gets ag_counts;
          let limit = safeBudgetFor (ao_tools opts) (tc_name call);
          if \<not> resuming \<and> limit > 0 \<and> mget 0 counts (tc_name call) \<ge> limit
          then ret (ApprovalRefused (deniedResult CodeBudgetExceeded
            (''tool '' @ tc_name call @ '' reached its per-run budget of '' @ int_str limit @ '' calls'')))
          else do {
            allowed \<leftarrow> (if resuming then ret True else rateAllows opts info call);
            if \<not> allowed
            then ret (ApprovalRefused (deniedResult CodeRateLimited
              (''tool '' @ tc_name call @ '' exceeded its cross-run rate limit for this tenant'')))
            else if cm_requiresApproval m then requestApproval opts info call m
            else ret ApprovalGranted } })"

section \<open>The funnel\<close>

(* src/pkg/core/agent_tool_guard.go:107-111 Execute *)
definition answerCall :: "'w agent_options \<Rightarrow> run_info \<Rightarrow> tool_call \<Rightarrow> capability_result \<Rightarrow> ('w, exec_result option) act" where
  "answerCall opts info call result = do {
     (case ao_hooks opts of None \<Rightarrow> ret () | Some h \<Rightarrow> notify (hk_afterTool h info call result));
     ret (Some (result, None)) }"

text \<open>
  A script runs to its end; each nested call goes through \<open>invoke\<close>. \<open>None\<close> is the exhaustion of the
  nested funnel.
\<close>

primrec runScript :: "(tool_call \<Rightarrow> ('w, exec_result option) act) \<Rightarrow> 'w script \<Rightarrow> ('w, exec_result outcome option) act" where
  "runScript invoke (Finish r w) = do { modify (\<lambda>a. a\<lparr> ag_world := w \<rparr>); ret (Some r) }"
| "runScript invoke (Nested call w k) = do {
     modify (\<lambda>a. a\<lparr> ag_world := w \<rparr>);
     r \<leftarrow> invoke call;
     w' \<leftarrow> gets ag_world;
     case r of None \<Rightarrow> ret None | Some x \<Rightarrow> runScript invoke (k x w') }"

(* src/pkg/core/agent_tool_guard.go:402-420 safeProtectedExecute *)
definition runtimeOutcome :: "exec_result outcome \<Rightarrow> exec_result" where
  "runtimeOutcome r = (case r of Returns x \<Rightarrow> x | Panics \<Rightarrow> (deniedResult ''tool_runtime_panic'' ''tool runtime panicked'', None))"

(* src/pkg/core/agent_tool_guard.go:253-267 Execute *)
definition runProvider :: "'w agent_options \<Rightarrow> (tool_call \<Rightarrow> ('w, exec_result option) act) \<Rightarrow> run_info \<Rightarrow> tool_call
    \<Rightarrow> tool_invocation option \<Rightarrow> ('w, exec_result option) act" where
  "runProvider opts invoke info call minted = do {
     a \<leftarrow> gets id;
     let ctx = \<lparr> tx_invocation = \<lparr> in_session = ri_session info, in_run = ri_run info, in_call = tc_id call \<rparr>,
                 tx_remaining = max 0 (ao_maxToolCalls opts - ag_toolCalls a), tx_revision = ag_revision a,
                 tx_accepted = map_option (\<lambda>i. \<lparr> ac_invocation = i, ac_scope = se_scope (ag_session a),
                   ac_principal = clonePrincipal (ri_principal info) \<rparr>) minted \<rparr>;
     r \<leftarrow> (case rt_execute (ao_tools opts) of
             Plain f \<Rightarrow> do { x \<leftarrow> foreign (f ctx call); ret (Some x) }
           | Protected f \<Rightarrow> runScript invoke (f ctx call (ag_world a)));
     ret (map_option runtimeOutcome r) }"

(* src/pkg/core/agent_tool_guard.go:251-299 Execute *)
definition runAccepted :: "'w agent_options \<Rightarrow> (tool_call \<Rightarrow> ('w, exec_result option) act) \<Rightarrow> run_info \<Rightarrow> tool_call
    \<Rightarrow> capability_manifest option \<Rightarrow> tool_invocation option \<Rightarrow> ('w, exec_result option) act" where
  "runAccepted opts invoke info call manifest minted = do {
     r \<leftarrow> runProvider opts invoke info call minted;
     case r of
       None \<Rightarrow> ret None
     | Some outcome \<Rightarrow>
         if minted \<noteq> None \<and> isApprovalPending (snd outcome) \<noteq> None then ret (Some (emptyResult, snd outcome))
         else do {
           final \<leftarrow> journalFinish opts call manifest minted outcome;
           (case ao_hooks opts of None \<Rightarrow> ret () | Some h \<Rightarrow> notify (hk_afterTool h info call (fst final)));
           ret (Some final) } }"

definition run_info_of :: "'w agent \<Rightarrow> run_info" where
  "run_info_of a = \<lparr> ri_run = ag_runID a, ri_session = se_id (ag_session a), ri_profile = se_profileID (ag_session a),
     ri_step = 0, ri_principal = se_principal (ag_session a) \<rparr>"

(* src/pkg/core/agent_tool_guard.go:95-116 Execute *)
definition consumeBudget :: "tool_call \<Rightarrow> bool \<Rightarrow> ('w, unit) act" where
  "consumeBudget call resuming =
     (if resuming then modify (\<lambda>a. a\<lparr> ag_resumeIDs := removeAll (tc_id call) (ag_resumeIDs a) \<rparr>)
      else modify (\<lambda>a. a\<lparr> ag_toolCalls := ag_toolCalls a + 1 \<rparr>))"

text \<open>What follows once the call has been counted.\<close>

(* src/pkg/core/agent_tool_guard.go:117-250 Execute *)
definition afterBudget :: "'w agent_options \<Rightarrow> (tool_call \<Rightarrow> ('w, exec_result option) act) \<Rightarrow> run_info \<Rightarrow> bool \<Rightarrow> tool_call
    \<Rightarrow> ('w, exec_result option) act" where
  "afterBudget opts invoke info resuming call =
     (let manifest = safeManifestFor (ao_tools opts) (tc_name call) in
      case argsFault opts manifest call of
        Some e \<Rightarrow> answerCall opts info call (deniedResult CodeInvalidArgs (ao_text opts (ArgsFault e)))
      | None \<Rightarrow> do {
          denied \<leftarrow> beforeTool opts info call;
          case denied of
            Some e \<Rightarrow> answerCall opts info call (deniedResult CodeHookDenied (er_text e))
          | None \<Rightarrow> do {
              gate \<leftarrow> manifestGates opts info resuming manifest call;
              case gate of
                ApprovalSuspends err \<Rightarrow> ret (Some (emptyResult, Some err))
              | ApprovalRefused result \<Rightarrow> answerCall opts info call result
              | ApprovalGranted \<Rightarrow> do {
                  (if resuming then ret ()
                   else modify (\<lambda>a. a\<lparr> ag_counts := mput (tc_name call) (mget 0 (ag_counts a) (tc_name call) + 1) (ag_counts a) \<rparr>));
                  journal \<leftarrow> journalBegin opts info call manifest;
                  case journal of
                    GateStop outcome \<Rightarrow> ret (Some outcome)
                  | GateRefuse result \<Rightarrow> answerCall opts info call result
                  | GateRun minted \<Rightarrow> runAccepted opts invoke info call manifest minted } } })"

(* src/pkg/core/agent_tool_guard.go:95-300 Execute *)
definition guardedExecute :: "'w agent_options \<Rightarrow> (tool_call \<Rightarrow> ('w, exec_result option) act) \<Rightarrow> tool_call
    \<Rightarrow> ('w, exec_result option) act" where
  "guardedExecute opts invoke call = do {
     a \<leftarrow> gets id;
     let resuming = tc_id call \<in> set (ag_resumeIDs a);
     let info = run_info_of a;
     if \<not> resuming \<and> ag_toolCalls a \<ge> ao_maxToolCalls opts
     then answerCall opts info call (deniedResult CodeBudgetExceeded
       (''run reached its maximum of '' @ int_str (ao_maxToolCalls opts) @ '' tool calls''))
     else do {
       consumeBudget call resuming;
       afterBudget opts invoke info resuming call } }"

section \<open>Nested calls\<close>

(* src/pkg/core/agent_tool_guard.go:51-65 InvokeTool *)
definition recordNested :: "'w agent_options \<Rightarrow> tool_call \<Rightarrow> exec_result option \<Rightarrow> ('w, exec_result option) act" where
  "recordNested opts call r =
     (case r of
        None \<Rightarrow> ret None
      | Some (result, err) \<Rightarrow>
          if isApprovalPending err \<noteq> None then ret (Some (emptyResult, err))
          else do {
            runID \<leftarrow> gets ag_runID;
            let logged = (case err of None \<Rightarrow> result | Some e \<Rightarrow> \<lparr> cr_content = er_text (error_of e), cr_ok = False, cr_metadata = None \<rparr>);
            failed \<leftarrow> appendOne opts runID (DToolResult \<lparr> tr_callID = tc_id call, tr_content = cr_content logged,
              tr_ok = cr_ok logged, tr_metadata = cr_metadata logged \<rparr>);
            case failed of Some e \<Rightarrow> ret (Some (emptyResult, Some (OtherError e))) | None \<Rightarrow> ret (Some (result, err)) })"

(* src/pkg/core/agent_tool_guard.go:37-66 InvokeTool *)
definition invokeTool :: "'w agent_options \<Rightarrow> (tool_call \<Rightarrow> ('w, exec_result option) act) \<Rightarrow> tool_call
    \<Rightarrow> ('w, exec_result option) act" where
  "invokeTool opts exec call = do {
     a \<leftarrow> gets id;
     let fail = (\<lambda>e. Some (emptyResult, Some (OtherError (plain_error (ao_text opts (SessionFault e))))));
     case toolResult (ag_session a) (ag_runID a) (tc_id call) of
       Inl e \<Rightarrow> ret (fail e)
     | Inr (Some result) \<Rightarrow> ret (Some (result, None))
     | Inr None \<Rightarrow>
         (case hasToolCall (ag_session a) (ag_runID a) (tc_id call) of
            Inl e \<Rightarrow> ret (fail e)
          | Inr known \<Rightarrow> do {
              failed \<leftarrow> (if known then ret None
                else appendOne opts (ag_runID a)
                  (DToolCall \<lparr> td_callID = tc_id call, td_name = tc_name call, td_args = tc_args call \<rparr>));
              case failed of
                Some e \<Rightarrow> ret (Some (emptyResult, Some (OtherError e)))
              | None \<Rightarrow> do { r \<leftarrow> exec call; recordNested opts call r } }) }"

text \<open>The funnel with at most \<open>n\<close> levels of nested calls below it.\<close>

fun executeTool :: "nat \<Rightarrow> 'w agent_options \<Rightarrow> tool_call \<Rightarrow> ('w, exec_result option) act" where
  "executeTool 0 opts call = ret None"
| "executeTool (Suc n) opts call = guardedExecute opts (invokeTool opts (executeTool n opts)) call"

text \<open>
  The calls a run may still start: what is left of its budget and the resumed calls not yet repeated. Each
  level of nesting uses one, so this many levels are enough.
\<close>

definition calls_left :: "'w agent_options \<Rightarrow> 'w agent \<Rightarrow> nat" where
  "calls_left opts a = nat (ao_maxToolCalls opts - ag_toolCalls a) + card (set (ag_resumeIDs a))"

definition execute :: "'w agent_options \<Rightarrow> tool_call \<Rightarrow> ('w, exec_result) act" where
  "execute opts call = do {
     a \<leftarrow> gets id;
     r \<leftarrow> executeTool (Suc (calls_left opts a)) opts call;
     ret (case r of Some outcome \<Rightarrow> outcome | None \<Rightarrow> (emptyResult, None)) }"

end
