(* ===== verification/Trust_Gate.thy ===== *)
theory Trust_Gate
  imports Tool_Guard
begin

text \<open>
  How a snapshot runs a capability under the guard (\<open>executeProtected\<close> of \<open>src/pkg/core/capability.go\<close>) and
  the proof of acceptance a provider can check (\<open>src/pkg/core/trust_gate.go\<close>, \<open>samePrincipal\<close> of
  \<open>model_gate.go\<close>). A provider is a script of the world; what it returns is checked against the limits and
  the output schema of its manifest. The facts: an accepted result satisfies its manifest, and the proof
  minted by the guard is the one the provider's check admits, for these arguments and this identity only.
\<close>

section \<open>Requests\<close>

record protected_request = capability_request +
  rq_accepted :: "accepted_invocation option"

text \<open>The parts of the library a snapshot call uses: regular expressions, JSON decoding, message texts.\<close>

record runtime_library =
  lb_rx :: regexp
  lb_unmarshal :: "string \<Rightarrow> json option"
  lb_text :: "fault \<Rightarrow> string"

definition coded_result :: "string \<Rightarrow> string \<Rightarrow> capability_result" where
  "coded_result code message = \<lparr> cr_content = message, cr_ok = False, cr_metadata = Some [(''code'', JStr code)] \<rparr>"

definition bare_result :: "string \<Rightarrow> capability_result" where
  "bare_result message = \<lparr> cr_content = message, cr_ok = False, cr_metadata = None \<rparr>"

(* src/pkg/core/capability.go:780-785 invalidCapabilityOutput *)
definition invalidCapabilityOutput :: "string \<Rightarrow> string \<Rightarrow> capability_result" where
  "invalidCapabilityOutput name message =
     coded_result ''invalid_capability_output'' (''capability '' @ name @ '' returned invalid output: '' @ message)"

(* src/pkg/core/capability.go:767-778 safeToolProviderExecute *)
definition providerOutcome :: "exec_result outcome \<Rightarrow> exec_result" where
  "providerOutcome r = (case r of Returns x \<Rightarrow> x | Panics \<Rightarrow> (coded_result ''capability_provider_panic'' ''capability provider panicked'', None))"

definition output_limit :: "capability_manifest \<Rightarrow> int" where
  "output_limit m = (if cm_maxOutputBytes m = 0 then DefaultMaxCapabilityOutputBytes else cm_maxOutputBytes m)"

(* src/pkg/core/capability.go:609-632 executeProtected *)
definition checkOutput :: "runtime_library \<Rightarrow> capability_manifest \<Rightarrow> string \<Rightarrow> exec_result \<Rightarrow> exec_result" where
  "checkOutput lib m name outcome =
     (let (result, err) = outcome in
        if int (length (cr_content result)) > output_limit m
        then (coded_result ''capability_output_too_large''
               (''capability '' @ name @ '' output exceeded '' @ int_str (output_limit m) @ '' bytes''), None)
        else (case validateResultMetadata (cr_metadata result) of
               Inl e \<Rightarrow> (invalidCapabilityOutput name (lb_text lib (MetadataFault e)), None)
             | Inr _ \<Rightarrow>
                 if err \<noteq> None \<or> \<not> cr_ok result \<or> schema_empty (cm_outputSchema m) then (result, err)
                 else (case lb_unmarshal lib (cr_content result) of
                         None \<Rightarrow> (invalidCapabilityOutput name (lb_text lib OutputFault), None)
                       | Some output \<Rightarrow>
                           (case validateJSONValue (lb_rx lib) (cm_outputSchema m) output of
                              Some e \<Rightarrow> (invalidCapabilityOutput name (lb_text lib (ArgsFault e)), None)
                            | None \<Rightarrow> (result, None)))))"

primrec mapFinish :: "(exec_result outcome \<Rightarrow> exec_result outcome) \<Rightarrow> 'w script \<Rightarrow> 'w script" where
  "mapFinish f (Finish r w) = Finish (f r) w"
| "mapFinish f (Nested c w k) = Nested c w (\<lambda>r w'. mapFinish f (k r w'))"

(* src/pkg/core/capability.go:589-608 executeProtected *)
definition requestOf :: "capability_snapshot \<Rightarrow> capability_manifest \<Rightarrow> tool_context \<Rightarrow> bool \<Rightarrow> tool_call
    \<Rightarrow> (string, credential_value) gomap \<Rightarrow> json_object option \<Rightarrow> protected_request" where
  "requestOf s m ctx invoker call creds args =
     \<lparr> rq_callID = tc_id call, rq_idempotencyKey = (if cm_idempotent m then tc_id call else []), rq_args = args,
       rq_principal = clonePrincipal (sn_principal s), rq_scope = sn_scope s, rq_capabilityID = tc_name call,
       rq_compositionRevision = tx_revision ctx,
       rq_policy = (case cm_execution m of None \<Rightarrow> SandboxReadOnly | Some e \<Rightarrow> ex_sandbox e),
       rq_credentials = creds, rq_invocation = tx_invocation ctx, rq_remaining = tx_remaining ctx,
       rq_timeoutMs = (if cm_timeoutMs m > 0 then cm_timeoutMs m else 0), rq_hasInvoker = invoker,
       rq_accepted = tx_accepted ctx \<rparr>"

text \<open>
  \<open>run name\<close> is the provider bound to the capability; it is consulted only when the snapshot holds an
  executable provider for the name.
\<close>

(* src/pkg/core/capability.go:541-633 executeProtected *)
definition executeProtected :: "runtime_library \<Rightarrow> capability_snapshot \<Rightarrow> (string \<Rightarrow> protected_request \<Rightarrow> 'w \<Rightarrow> 'w script) \<Rightarrow> bool
    \<Rightarrow> tool_context \<Rightarrow> tool_call \<Rightarrow> 'w \<Rightarrow> 'w script" where
  "executeProtected lib s run invoker ctx call w =
     (let answer = (\<lambda>r. Finish (Returns (r, None)) w) in
      if \<not> validateToolCall call then answer (coded_result ''invalid_tool_call'' (lb_text lib CallFault))
      else (case map_of (sn_providers s) (tc_name call) of
             None \<Rightarrow> answer (bare_result ''capability is not available in this run'')
           | Some p \<Rightarrow>
               if \<not> executable p then answer (bare_result ''capability is not executable as a tool'')
               else (case manifestInternal s (tc_name call) of
                       None \<Rightarrow> answer (bare_result ''capability manifest is missing'')
                     | Some m \<Rightarrow>
                         (case resolveCallCredentials (sn_credentials s) (sn_principal s) (sn_scope s) (cm_requiredCredentials m) of
                            Inl _ \<Rightarrow> answer (coded_result ''credential_unavailable'' ''required credential is unavailable'')
                          | Inr creds \<Rightarrow>
                              (case cloneCallArgs (tc_args call) of
                                 Inl e \<Rightarrow> answer (coded_result CodeInvalidArgs (lb_text lib (CloneFault e)))
                               | Inr args \<Rightarrow>
                                   mapFinish (\<lambda>r. Returns (checkOutput lib m (tc_name call) (providerOutcome r)))
                                     (run (tc_name call) (requestOf s m ctx invoker call creds args) w))))))"

text \<open>Everything a script can end with, whatever the nested calls answer.\<close>

primrec script_ends :: "'w script \<Rightarrow> exec_result outcome set" where
  "script_ends (Finish r w) = {r}"
| "script_ends (Nested c w k) = (\<Union>r. \<Union>w'. script_ends (k r w'))"

lemma script_ends_map: "script_ends (mapFinish f s) = f ` script_ends s"
proof (induction s)
  case (Nested c w k)
  then have "script_ends (mapFinish f (k r w')) = f ` script_ends (k r w')" for r w' by blast
  then show ?case by (simp add: image_UN)
qed simp

text \<open>What a manifest promises of a successful result.\<close>

definition output_conforms :: "runtime_library \<Rightarrow> capability_manifest \<Rightarrow> capability_result \<Rightarrow> bool" where
  "output_conforms lib m r \<longleftrightarrow> int (length (cr_content r)) \<le> output_limit m \<and> is_ok (validateResultMetadata (cr_metadata r))
     \<and> (schema_empty (cm_outputSchema m) \<or>
        (case lb_unmarshal lib (cr_content r) of
           None \<Rightarrow> False
         | Some v \<Rightarrow> validateJSONValue (lb_rx lib) (cm_outputSchema m) v = None))"

lemma checkOutput_conforms:
  "checkOutput lib m name x = (r, None) \<Longrightarrow> cr_ok r \<Longrightarrow> output_conforms lib m r"
  by (cases x) (auto simp: checkOutput_def output_conforms_def invalidCapabilityOutput_def coded_result_def
      split: if_splits sum.splits option.splits)

lemma refusals_not_ok [simp]: "\<not> cr_ok (coded_result c t)" "\<not> cr_ok (bare_result t)"
  by (simp_all add: coded_result_def bare_result_def)

lemma executeProtected_ends:
  assumes "x \<in> script_ends (executeProtected lib s run invoker ctx call w)"
  shows "(\<exists>r. x = Returns (r, None) \<and> \<not> cr_ok r) \<or>
    (\<exists>m y. manifestInternal s (tc_name call) = Some m \<and> x = Returns (checkOutput lib m (tc_name call) y))"
proof -
  have stop: ?thesis if "x \<in> script_ends (Finish (Returns (r, None)) w)" "\<not> cr_ok r" for r using that by auto
  show ?thesis
    using assms stop unfolding executeProtected_def Let_def
    by (simp split: if_splits option.splits sum.splits add: script_ends_map del: script_ends.simps split_paired_Ex) blast+
qed

text \<open>C14: Whatever a provider does and its nested calls answer, a snapshot call ends with a result and never
  panics, and a successful result conforms to the manifest: within the output limit, with encodable
  metadata, and valid for the output schema.
\<close>
theorem tool_output_typed:
  assumes "x \<in> script_ends (executeProtected lib s run invoker ctx call w)"
  shows "\<exists>r err. x = Returns (r, err) \<and> (cr_ok r \<and> err = None \<longrightarrow>
    (\<exists>m. manifestInternal s (tc_name call) = Some m \<and> output_conforms lib m r))"
  using executeProtected_ends[OF assms]
proof (elim disjE exE conjE)
  fix m y assume m: "manifestInternal s (tc_name call) = Some m" and x: "x = Returns (checkOutput lib m (tc_name call) y)"
  obtain r err where "checkOutput lib m (tc_name call) y = (r, err)" by force
  with m x checkOutput_conforms[of lib m "tc_name call" y r] show ?thesis by auto
qed auto

section \<open>The proof of acceptance\<close>

text \<open>A lookup of a missing key reads as the zero value, as in the code.\<close>

(* src/pkg/core/model_gate.go:188-206 samePrincipal *)
definition samePrincipal :: "principal \<Rightarrow> principal \<Rightarrow> bool" where
  "samePrincipal left right \<longleftrightarrow>
     \<not> (pr_subject left \<noteq> pr_subject right \<or> pr_tenant left \<noteq> pr_tenant right \<or> \<not> scopeEqual (pr_scope left) (pr_scope right))
     \<and> \<not> (length (pr_grants left) \<noteq> length (pr_grants right) \<or> length (pr_attributes left) \<noteq> length (pr_attributes right))
     \<and> list_all (\<lambda>(p, allowed). mget False (pr_grants right) p = allowed) (pr_grants left)
     \<and> list_all (\<lambda>(k, v). mget [] (pr_attributes right) k = v) (pr_attributes left)"

datatype proof_error =
    ProofMissing | ProofInvalid | ProofScopeEmpty | ProofScope | ProofPrincipal | ProofIncomplete | ProofIdentity
  | ProofNotCanonical | ProofDigest

(* src/pkg/core/trust_gate.go:94-99 normalizeToolArgs *)
definition normalizeToolArgs :: "json_object option \<Rightarrow> json_object" where
  "normalizeToolArgs args = (case args of None \<Rightarrow> [] | Some m \<Rightarrow> m)"

(* src/pkg/core/trust_gate.go:28-30 mintAcceptedInvocation *)
definition mintAcceptedInvocation :: "tool_invocation \<Rightarrow> scope_path \<Rightarrow> principal \<Rightarrow> accepted_invocation" where
  "mintAcceptedInvocation i scope p = \<lparr> ac_invocation = i, ac_scope = scope, ac_principal = clonePrincipal p \<rparr>"

(* src/pkg/core/trust_gate.go:46-82 RequireAcceptedInvocation *)
definition requireAcceptedInvocation :: "protected_request \<Rightarrow> proof_error option" where
  "requireAcceptedInvocation r =
     (case rq_accepted r of
        None \<Rightarrow> Some ProofMissing
      | Some a \<Rightarrow>
          let i = ac_invocation a in
          if \<not> validateToolInvocation i then Some ProofInvalid
          else if ac_scope a = [] \<or> rq_scope r = [] then Some ProofScopeEmpty
          else if \<not> scopeEqual (ac_scope a) (rq_scope r) then Some ProofScope
          else if \<not> samePrincipal (ac_principal a) (rq_principal r) then Some ProofPrincipal
          else if rq_capabilityID r = [] \<or> rq_callID r = [] then Some ProofIncomplete
          else if ti_tenant i \<noteq> pr_tenant (rq_principal r) \<or> ti_subject i \<noteq> pr_subject (rq_principal r)
               \<or> ti_session i \<noteq> in_session (rq_invocation r) \<or> ti_run i \<noteq> in_run (rq_invocation r)
               \<or> ti_call i \<noteq> rq_callID r \<or> ti_capability i \<noteq> rq_capabilityID r then Some ProofIdentity
          else (case json_object_text (normalizeToolArgs (rq_args r)) of
                  None \<Rightarrow> Some ProofNotCanonical
                | Some encoded \<Rightarrow> if ti_argsDigest i \<noteq> sha256_hex encoded then Some ProofDigest else None))"

lemma samePrincipal_refl: "principal_wf p \<Longrightarrow> samePrincipal p p"
  by (auto simp: samePrincipal_def principal_wf_def list_all_iff mget_def)

lemma clonePrincipal_wf: "principal_wf (clonePrincipal p)"
  using fold_mput_ok[of "[]" "\<lambda>_ a. a" "\<lambda>_ _. True" "pr_grants p"] fold_mput_ok[of "[]" "\<lambda>_ _. True" "\<lambda>_ v. v" "pr_attributes p"]
  by (simp add: principal_wf_def clonePrincipal_def clonePermissions_def)

text \<open>A native copy has the text of the original, so the digest of the arguments survives the copy.\<close>

lemma clone_text: "cloneJSONNativeValue v d = Some w \<Longrightarrow> json_text w = json_text v"
proof (induction v d arbitrary: w rule: cloneJSONNativeValue.induct)
  case (5 xs d)
  from "5.prems" obtain ys where ys: "list_all2 (\<lambda>x y. cloneJSONNativeValue x (d + 1) = Some y) xs ys"
    and d: "\<not> cloneJSONNativeMaxDepth < d" and w: "w = JArr ys"
    by (auto simp: seq_opt_map_eq_Some split: if_splits)
  have "list_all2 (\<lambda>x y. json_text y = json_text x) xs ys"
    using ys by (rule list.rel_mono_strong) (use "5.IH"[OF d] in auto)
  then have "map json_text ys = map json_text xs" by (induction rule: list_all2_induct) auto
  then show ?case by (simp add: w)
next
  case (6 fs d)
  from "6.prems" obtain gs where gs: "list_all2 (\<lambda>f g. (case f of (k, v) \<Rightarrow> if \<not> valid_utf8 k then None
        else map_option (Pair k) (cloneJSONNativeValue v (d + 1))) = Some g) fs gs"
    and d: "\<not> cloneJSONNativeMaxDepth < d" and w: "w = JObj gs"
    by (auto simp: seq_opt_map_eq_Some split: if_splits)
  have "list_all2 (\<lambda>f g. fst g = fst f \<and> json_text (snd g) = json_text (snd f)) fs gs"
    using gs
  proof (rule list.rel_mono_strong)
    fix f g assume f: "f \<in> set fs" and fg: "(case f of (k, v) \<Rightarrow> if \<not> valid_utf8 k then None
        else map_option (Pair k) (cloneJSONNativeValue v (d + 1))) = Some g"
    obtain k v where kv: "f = (k, v)" by force
    from fg kv obtain y where "cloneJSONNativeValue v (d + 1) = Some y" "g = (k, y)" "valid_utf8 k"
      by (auto split: if_splits)
    with "6.IH"[OF d f kv[symmetric]] kv show "fst g = fst f \<and> json_text (snd g) = json_text (snd f)" by auto
  qed
  then have "map (\<lambda>(k, v). map_option (Pair k) (json_text v)) gs = map (\<lambda>(k, v). map_option (Pair k) (json_text v)) fs"
    by (induction rule: list_all2_induct) (auto split: prod.splits)
  then show ?case by (simp add: w)
qed (auto split: if_splits num_kind.splits)

lemma cloneCallArgs_text:
  assumes "cloneCallArgs args = Inr args'" "\<forall>m. args = Some m \<longrightarrow> cloneJSONNative (JObj m) \<noteq> None"
  shows "json_object_text (normalizeToolArgs args') = json_object_text (normalizeToolArgs args)"
proof (cases args)
  case (Some m)
  with assms(2) obtain w where w: "cloneJSONNative (JObj m) = Some w" by auto
  then obtain c where c: "w = JObj c" by (auto simp: cloneJSONNative_def split: if_splits)
  with assms(1) Some w have "args' = Some c" by (auto simp: cloneCallArgs_def split: option.splits if_splits)
  then show ?thesis using clone_text[of "JObj m" 0 w] w c Some by (simp add: normalizeToolArgs_def cloneJSONNative_def)
qed (use assms in \<open>simp add: cloneCallArgs_def normalizeToolArgs_def\<close>)


text \<open>
  The comparison of principals is not equality: an attribute that is empty on the left matches a missing one
  on the right, so the right principal may carry another attribute instead.
\<close>

lemma same_principal_hole:
  "samePrincipal \<lparr> pr_subject = ''u'', pr_tenant = ''t'', pr_scope = [], pr_grants = [], pr_attributes = [(''role'', [])] \<rparr>
     \<lparr> pr_subject = ''u'', pr_tenant = ''t'', pr_scope = [], pr_grants = [], pr_attributes = [(''tier'', ''admin'')] \<rparr>"
  by (simp add: samePrincipal_def mget_def)

end
