(* ===== verification/Disclose.thy ===== *)
theory Disclose
  imports Trust_Gate
begin

text \<open>
  Progressive disclosure of tools (\<open>src/pkg/core/disclose.go\<close>): instead of every tool schema the model is
  offered the few of hot kinds, a tool library that can be searched, listed and described, and the tools it
  has recently found or used. The selection is rebuilt from the message history. The facts: what is offered
  always comes from the current snapshot, whatever the history claims, and the selection stays bounded.

  Parameters stand for \<open>strings.ToLower\<close> (the Unicode case tables) and for decoding the library's answer.
  Token sets are lists without repetition; only membership and size of them matter.
\<close>

section \<open>Data\<close>

(* src/pkg/core/disclose.go:13-22 disclosedLibraryID *)
definition disclosedLibraryID :: string where "disclosedLibraryID = ''harness.tool.library''"
definition discloseListLimit :: int where "discloseListLimit = 20"
definition discloseMaxListLimit :: int where "discloseMaxListLimit = 50"
definition discloseSearchTopK :: int where "discloseSearchTopK = 8"
definition discloseMaxSearchTopK :: int where "discloseMaxSearchTopK = 32"
definition discloseSummaryRunes :: nat where "discloseSummaryRunes = 240"
definition discloseActiveLimit :: nat where "discloseActiveLimit = 8"

(* src/pkg/core/disclose.go:24-36 libraryDoc *)
record library_doc =
  ld_id :: string
  ld_library :: string
  ld_name :: string
  ld_description :: string
  ld_schema :: "json_object option"
  ld_triggers :: "string list"
  ld_notFor :: "string list"
  ld_nameTokens :: "string list"
  ld_descTokens :: "string list"
  ld_notTokens :: "string list"
  ld_allTokens :: "string list"

(* src/pkg/core/disclose.go:42-46 libraryIndex *)
record library_index =
  lx_docs :: "library_doc list"
  lx_byID :: "(string, nat) gomap"
  lx_byName :: "(string, nat list) gomap"

(* src/pkg/core/disclose.go:48-52 disclosedRuntime *)
record disclosed_runtime =
  di_inner :: capability_snapshot
  di_index :: library_index
  di_hotSchemas :: "tool_schema list"

section \<open>Tokens\<close>

text \<open>\<open>strings.Fields\<close>.\<close>

fun fields_from :: "string \<Rightarrow> (nat \<times> string) list \<Rightarrow> string list" where
  "fields_from acc [] = (if acc = [] then [] else [acc])"
| "fields_from acc ((r, bs) # rest) =
     (if is_space r then (if acc = [] then fields_from [] rest else acc # fields_from [] rest)
      else fields_from (acc @ bs) rest)"

definition strings_fields :: "string \<Rightarrow> string list" where
  "strings_fields s = fields_from [] (runes s)"

text \<open>\<open>strings.Trim\<close> with an ASCII cut set.\<close>

definition trim_chars :: "string \<Rightarrow> string \<Rightarrow> string" where
  "trim_chars cutset s = rev (dropWhile (\<lambda>c. c \<in> set cutset) (rev (dropWhile (\<lambda>c. c \<in> set cutset) s)))"

(* src/pkg/core/disclose.go:482-490 discloseTokens *)
definition discloseTokens :: "(string \<Rightarrow> string) \<Rightarrow> string \<Rightarrow> string list" where
  "discloseTokens lower s =
     (let normalized = map (\<lambda>c. if c \<in> set ''-_/.'' then CHR '' '' else c) (lower s)
      in remdups (filter (\<lambda>t. t \<noteq> []) (map (trim_chars ''.,;:!?'') (strings_fields normalized))))"

(* src/pkg/core/disclose.go:564-567 discloseStopwords *)
definition discloseStopwords :: "string list" where
  "discloseStopwords = [''a'', ''an'', ''the'', ''to'', ''for'', ''of'', ''and'', ''or'', ''in'', ''on'', ''with'', ''into'']"

(* src/pkg/core/disclose.go:467-480 discloseQueryTokens *)
definition discloseQueryTokens :: "(string \<Rightarrow> string) \<Rightarrow> string \<Rightarrow> string list" where
  "discloseQueryTokens lower s =
     (let tokens = discloseTokens lower s;
          filtered = filter (\<lambda>t. t \<notin> set discloseStopwords) tokens
      in if filtered = [] then tokens else filtered)"

(* src/pkg/core/disclose.go:492-500 discloseMergeTokens *)
definition discloseMergeTokens :: "string list \<Rightarrow> string list \<Rightarrow> string list" where
  "discloseMergeTokens a b = remdups (a @ b)"

(* src/pkg/core/disclose.go:502-510 discloseOverlap *)
definition discloseOverlap :: "string list \<Rightarrow> string list \<Rightarrow> nat" where
  "discloseOverlap query doc = length (filter (\<lambda>t. t \<in> set doc) query)"

text \<open>An ill-formed byte is read, and written, as the replacement character.\<close>

(* src/pkg/core/disclose.go:512-531 discloseSummary *)
fun summaryRunes :: "nat \<Rightarrow> (nat \<times> string) list \<Rightarrow> string" where
  "summaryRunes 0 rs = []"
| "summaryRunes (Suc n) [] = []"
| "summaryRunes (Suc n) ((r, bs) # rs) =
     (if r = 10 \<or> r = 9 then CHR '' '' # summaryRunes n rs
      else if is_control r then summaryRunes (Suc n) rs
      else bs @ summaryRunes n rs)"

definition discloseSummary :: "string \<Rightarrow> string" where
  "discloseSummary s = summaryRunes discloseSummaryRunes (runes (to_valid_utf8 s))"

section \<open>The index\<close>

(* src/pkg/core/disclose.go:569-597 deriveSiblingNotFor *)
definition siblingNotFor :: "(string \<Rightarrow> string) \<Rightarrow> library_doc list \<Rightarrow> nat \<Rightarrow> string list" where
  "siblingNotFor lower docs i =
     (let doc = docs ! i;
          mine = discloseTokens lower (ld_description doc @ '' '' @ ld_name doc);
          siblings = filter (\<lambda>j. j \<noteq> i \<and> ld_name (docs ! j) = ld_name doc) [0..<length docs]
      in remdups (filter (\<lambda>t. t \<notin> set mine \<and> t \<notin> set discloseStopwords)
           (concat (map (\<lambda>j. discloseTokens lower (ld_description (docs ! j))) siblings))))"

definition deriveSiblingNotFor :: "(string \<Rightarrow> string) \<Rightarrow> library_doc list \<Rightarrow> library_doc list" where
  "deriveSiblingNotFor lower docs = map (\<lambda>i. (docs ! i)\<lparr> ld_notFor := ld_notFor (docs ! i) @ siblingNotFor lower docs i \<rparr>) [0..<length docs]"

(* src/pkg/core/disclose.go:118-125 newLibraryIndex *)
definition indexDoc :: "(string \<Rightarrow> string) \<Rightarrow> library_doc \<Rightarrow> library_doc" where
  "indexDoc lower doc =
     (let name = discloseTokens lower (ld_name doc);
          desc = discloseTokens lower (ld_description doc @ '' '' @ join_with '' '' (ld_triggers doc))
      in doc\<lparr> ld_nameTokens := name, ld_descTokens := desc,
              ld_notTokens := discloseTokens lower (join_with '' '' (ld_notFor doc)),
              ld_allTokens := discloseMergeTokens name desc \<rparr>)"

(* src/pkg/core/disclose.go:111-130 newLibraryIndex *)
definition newLibraryIndex :: "(string \<Rightarrow> string) \<Rightarrow> library_doc list \<Rightarrow> library_index" where
  "newLibraryIndex lower docs =
     \<lparr> lx_docs = map (indexDoc lower) docs,
       lx_byID = fold (\<lambda>(i, doc). mput (ld_id doc) i) (enumerate 0 docs) [],
       lx_byName = fold (\<lambda>(i, doc) m. mput (ld_name doc) (mget [] m (ld_name doc) @ [i]) m) (enumerate 0 docs) [] \<rparr>"

(* src/pkg/core/disclose.go:132-139 hotKind *)
definition hotKind :: "string \<Rightarrow> bool" where
  "hotKind kind \<longleftrightarrow> kind \<in> set [''memory'', ''agent'', ''workflow'', ''router'', ''knowledge'']"

text \<open>The part of an id behind its last dot, unless nothing follows it.\<close>

(* src/pkg/core/disclose.go:87-90 discloseToolRuntime *)
definition shortName :: "string \<Rightarrow> string" where
  "shortName i = (let tail = last (split_on (CHR ''.'') i) in if tail = [] then i else tail)"

(* src/pkg/core/disclose.go:80-83 discloseToolRuntime *)
definition exposedSchema :: "capability_manifest \<Rightarrow> tool_exposure \<Rightarrow> json_object option" where
  "exposedSchema m t = (case te_parameters t of None \<Rightarrow> cm_inputSchema m | Some p \<Rightarrow> Some p)"

(* src/pkg/core/disclose.go:72-85 discloseToolRuntime *)
definition hotSchema :: "capability_manifest \<Rightarrow> tool_exposure \<Rightarrow> tool_schema" where
  "hotSchema m t =
     \<lparr> ts_name = cm_id m,
       ts_description = (if te_description t \<noteq> [] then te_description t
                         else if cm_description m \<noteq> [] then cm_description m else cm_name m),
       ts_parameters = exposedSchema m t \<rparr>"

(* src/pkg/core/disclose.go:87-102 discloseToolRuntime *)
definition docOf :: "capability_manifest \<Rightarrow> tool_exposure \<Rightarrow> library_doc" where
  "docOf m t =
     \<lparr> ld_id = cm_id m, ld_library = cm_kind m, ld_name = shortName (cm_id m),
       ld_description = (if te_description t \<noteq> [] then te_description t else cm_description m),
       ld_schema = exposedSchema m t, ld_triggers = [], ld_notFor = [],
       ld_nameTokens = [], ld_descTokens = [], ld_notTokens = [], ld_allTokens = [] \<rparr>"

text \<open>The capabilities a snapshot can disclose: executable and exposed as a tool.\<close>

(* src/pkg/core/disclose.go:64-70 discloseToolRuntime *)
definition exposedTools :: "capability_snapshot \<Rightarrow> (capability_manifest \<times> tool_exposure) list" where
  "exposedTools snap = List.map_filter (\<lambda>c.
     if executable (snapshot_provider snap (cm_id (sc_manifest c)))
     then map_option (Pair (sc_manifest c)) (cm_tool (sc_manifest c)) else None) (sn_capabilities snap)"

text \<open>\<open>None\<close>: the runtime stays as it is.\<close>

(* src/pkg/core/disclose.go:54-109 discloseToolRuntime *)
definition discloseToolRuntime :: "(string \<Rightarrow> string) \<Rightarrow> capability_snapshot \<Rightarrow> disclosed_runtime option" where
  "discloseToolRuntime lower snap =
     (if map_of (sn_providers snap) disclosedLibraryID \<noteq> None then None
      else let docs = map (\<lambda>(m, t). docOf m t) (filter (\<lambda>(m, _). \<not> hotKind (cm_kind m)) (exposedTools snap));
               hot = map (\<lambda>(m, t). hotSchema m t) (filter (\<lambda>(m, _). hotKind (cm_kind m)) (exposedTools snap))
           in if docs = [] then None
              else Some \<lparr> di_inner = snap, di_index = newLibraryIndex lower (deriveSiblingNotFor lower docs),
                          di_hotSchemas = hot \<rparr>)"

section \<open>What the model is offered\<close>

definition jint :: "int \<Rightarrow> json" where
  "jint n = JNum KInt (of_int n) (int_str n)"

(* src/pkg/core/disclose.go:451-465 discloseLibrarySchema *)
definition discloseLibrarySchema :: json_object where
  "discloseLibrarySchema =
     (let stringType = JObj [(''type'', JStr ''string'')] in
      [(''type'', JStr ''object''),
       (''properties'', JObj
          [(''action'', JObj [(''type'', JStr ''string''), (''enum'', JArr [JStr ''search'', JStr ''list'', JStr ''describe''])]),
           (''query'', stringType), (''id'', stringType), (''name'', stringType),
           (''offset'', JObj [(''type'', JStr ''integer''), (''minimum'', jint 0)]),
           (''limit'', JObj [(''type'', JStr ''integer''), (''minimum'', jint 1), (''maximum'', jint discloseMaxListLimit)]),
           (''top_k'', JObj [(''type'', JStr ''integer''), (''minimum'', jint 1), (''maximum'', jint discloseMaxSearchTopK)])]),
       (''required'', JArr [JStr ''action''])])"

(* src/pkg/core/disclose.go:442-449 discloseLibraryManifest *)
definition discloseLibraryManifest :: "nat \<Rightarrow> capability_manifest" where
  "discloseLibraryManifest n =
     \<lparr> cm_id = disclosedLibraryID, cm_version = ''1.0.0'', cm_name = disclosedLibraryID,
       cm_description = ''Tool library over '' @ nat_str n @ '' capabilities. Search, then describe one id, then call that id.'',
       cm_kind = ''knowledge'', cm_contract = ''harness.tool.library/v1'', cm_requiredPermissions = [], cm_requiredCredentials = [],
       cm_inputSchema = None, cm_outputSchema = None, cm_maxOutputBytes = 0, cm_perTurnBudget = 0, cm_timeoutMs = 0,
       cm_idempotent = False, cm_requiresApproval = False,
       cm_tool = Some \<lparr> te_description = [], te_parameters = Some discloseLibrarySchema \<rparr>,
       cm_execution = None, cm_metadata = [] \<rparr>"

(* src/pkg/core/disclose.go:217-224 cloneToolSchemas *)
definition cloneToolSchemas :: "tool_schema list \<Rightarrow> tool_schema list" where
  "cloneToolSchemas = map (\<lambda>t. t\<lparr> ts_parameters := cloneMap (ts_parameters t) \<rparr>)"

(* src/pkg/core/disclose.go:141-149 Schemas *)
definition disclosedSchemas :: "disclosed_runtime \<Rightarrow> tool_schema list" where
  "disclosedSchemas d = cloneToolSchemas (di_hotSchemas d) @
     [\<lparr> ts_name = disclosedLibraryID,
        ts_description = ''Search the tool library, then describe one id. Call discovered tools by their qualified id.'',
        ts_parameters = Some discloseLibrarySchema \<rparr>]"

definition call_arg :: "tool_call \<Rightarrow> string \<Rightarrow> json option" where
  "call_arg call key = map_of (case tc_args call of None \<Rightarrow> [] | Some m \<Rightarrow> m) key"

text \<open>A string argument; anything else reads as the empty string.\<close>

definition string_arg :: "tool_call \<Rightarrow> string \<Rightarrow> string" where
  "string_arg call key = (case call_arg call key of Some (JStr s) \<Rightarrow> s | _ \<Rightarrow> [])"

text \<open>
  The document a paired tool result activates: the one a successful description names, provided it is the
  one that was asked for, or the one the call itself named. \<open>decode\<close> reads status and id of the library's
  answer.
\<close>

(* src/pkg/core/disclose.go:175-197 schemasForMessages *)
definition activatedID :: "(string \<Rightarrow> (string \<times> string) option) \<Rightarrow> disclosed_runtime \<Rightarrow> tool_call \<Rightarrow> string \<Rightarrow> string option" where
  "activatedID decode d call content =
     (if tc_name call \<noteq> disclosedLibraryID then Some (tc_name call)
      else if call_arg call ''action'' \<noteq> Some (JStr ''describe'') \<or> length content > MaxCapabilityManifestBytes then None
      else case decode content of
             None \<Rightarrow> None
           | Some (status, resultID) \<Rightarrow>
               if status \<noteq> ''ok'' then None
               else (case map_of (lx_byID (di_index d)) resultID of
                       None \<Rightarrow> None
                     | Some index \<Rightarrow>
                         let requestedID = trim_space (string_arg call ''id''); requestedName = string_arg call ''name'' in
                         if (requestedID \<noteq> [] \<and> requestedID \<noteq> resultID)
                            \<or> (requestedID = [] \<and> trim_space requestedName \<noteq> ld_name (lx_docs (di_index d) ! index))
                         then None else Some resultID))"

text \<open>The selected documents, the least recently used first.\<close>

(* src/pkg/core/disclose.go:201-207 schemasForMessages *)
definition selectDoc :: "nat \<Rightarrow> nat list \<Rightarrow> nat list" where
  "selectDoc index selected =
     (let kept = (if index \<in> set selected then remove1 index selected
                  else if length selected = discloseActiveLimit then tl selected else selected)
      in kept @ [index])"

(* src/pkg/core/disclose.go:154-208 schemasForMessages *)
definition selectMessage :: "(string \<Rightarrow> (string \<times> string) option) \<Rightarrow> disclosed_runtime \<Rightarrow> chat_message
    \<Rightarrow> (string, tool_call) gomap \<times> nat list \<Rightarrow> (string, tool_call) gomap \<times> nat list" where
  "selectMessage decode d message st =
     (let (pending, selected) = st in
      if ch_role message = RoleAssistant
      then let calls = (case (ch_toolCalls message, ch_toolCall message) of ([], Some c) \<Rightarrow> [c] | (cs, _) \<Rightarrow> cs)
           in (fold (\<lambda>call. mput (tc_id call) call) calls pending, selected)
      else if ch_role message \<noteq> RoleTool then st
      else let pending' = mdel (ch_toolCallID message) pending in
        case map_of pending (ch_toolCallID message) of
          None \<Rightarrow> (pending', selected)
        | Some call \<Rightarrow>
            (case Option.bind (activatedID decode d call (ch_content message)) (map_of (lx_byID (di_index d))) of
               None \<Rightarrow> (pending', selected)
             | Some index \<Rightarrow> (pending', selectDoc index selected)))"

(* src/pkg/core/disclose.go:154-215 schemasForMessages *)
definition schemasForMessages :: "(string \<Rightarrow> (string \<times> string) option) \<Rightarrow> disclosed_runtime \<Rightarrow> chat_message list \<Rightarrow> tool_schema list" where
  "schemasForMessages decode d messages =
     (let (_, selected) = fold (selectMessage decode d) messages ([], [])
      in disclosedSchemas d @ map (\<lambda>index. let doc = lx_docs (di_index d) ! index in
           \<lparr> ts_name = ld_id doc, ts_description = ld_description doc, ts_parameters = cloneMap (ld_schema doc) \<rparr>) selected)"

section \<open>The library\<close>

(* src/pkg/core/disclose.go:374-382 libraryHit *)
record library_hit =
  lh_id :: string
  lh_library :: string
  lh_name :: string
  lh_description :: string
  lh_score :: nat
  lh_sameName :: "string list"

(* src/pkg/core/disclose.go:389-417 search *)
definition searchDoc :: "library_index \<Rightarrow> string list \<Rightarrow> library_doc \<Rightarrow> library_hit option" where
  "searchDoc index query doc =
     (let nameScore = discloseOverlap query (ld_nameTokens doc);
          descScore = discloseOverlap query (ld_descTokens doc);
          covered = discloseOverlap query (ld_allTokens doc);
          notScore = discloseOverlap query (ld_notTokens doc)
      in if notScore > 0 \<and> notScore \<ge> descScore \<and> notScore \<ge> nameScore then None
         else if covered = 0 then None
         else if length query \<ge> 2 \<and> descScore = 0 \<and> covered < length query then None
         else if length query \<ge> 2 \<and> covered * 2 < length query then None
         else Some \<lparr> lh_id = ld_id doc, lh_library = ld_library doc, lh_name = ld_name doc,
                     lh_description = discloseSummary (ld_description doc), lh_score = descScore * 3 + nameScore,
                     lh_sameName = filter (\<lambda>i. i \<noteq> ld_id doc)
                       (map (\<lambda>j. ld_id (lx_docs index ! j)) (mget [] (lx_byName index) (ld_name doc))) \<rparr>)"

text \<open>
  Best score first, then by id; ids are unique, so the order is total. \<open>None\<close> is the nil slice of a query
  without tokens.
\<close>

(* src/pkg/core/disclose.go:384-430 search *)
definition searchIndex :: "(string \<Rightarrow> string) \<Rightarrow> library_index \<Rightarrow> string \<Rightarrow> int \<Rightarrow> library_hit list option" where
  "searchIndex lower index query topK =
     (let tokens = discloseQueryTokens lower query in
      if tokens = [] then None
      else let hits = sort_key (\<lambda>h. - int (lh_score h)) (sort_key lh_id (List.map_filter (searchDoc index tokens) (lx_docs index)))
           in Some (if topK > 0 \<and> int (length hits) > topK then take (nat topK) hits else hits))"

definition json_hit :: "library_hit \<Rightarrow> string option" where
  "json_hit h = json_record
     [field ''id'' (Some (json_string (lh_id h))), string_field ''library'' (lh_library h),
      field ''name'' (Some (json_string (lh_name h))), field ''description'' (Some (json_string (lh_description h))),
      field ''score'' (Some (nat_str (lh_score h))), flag_field ''ambiguous'' (lh_sameName h \<noteq> []),
      omit_if (lh_sameName h = []) (field ''same_name'' (json_strings (lh_sameName h)))]"

(* src/pkg/core/disclose.go:432-440 discloseCards *)
definition discloseCards :: "library_doc list \<Rightarrow> json" where
  "discloseCards docs = JArr (map (\<lambda>doc. JObj [(''id'', JStr (ld_id doc)), (''library'', JStr (ld_library doc)),
     (''name'', JStr (ld_name doc)), (''description'', JStr (discloseSummary (ld_description doc)))]) docs)"

text \<open>
  An integer argument. Numbers of a call that was decoded from text are float64 values; of the sized integer
  types the code admits int64. A \<open>json.Number\<close> must be an integer literal in the range of int64.
\<close>

(* src/pkg/core/disclose.go:533-554 discloseIntArg *)
definition discloseIntArg :: "tool_call \<Rightarrow> string \<Rightarrow> int \<Rightarrow> int option" where
  "discloseIntArg call key fallback =
     (case call_arg call key of
        None \<Rightarrow> Some fallback
      | Some JNull \<Rightarrow> Some fallback
      | Some (JNum k v lit) \<Rightarrow>
          (let whole = (if of_int \<lfloor>v\<rfloor> = v \<and> - (2 ^ 63) \<le> \<lfloor>v\<rfloor> \<and> \<lfloor>v\<rfloor> < 2 ^ 63 then Some \<lfloor>v\<rfloor> else None)
           in case k of
                KInt \<Rightarrow> Some \<lfloor>v\<rfloor>
              | KSizedInt \<Rightarrow> Some \<lfloor>v\<rfloor>
              | KFloat64 \<Rightarrow> whole
              | KNumber \<Rightarrow> if list_all is_digit (case lit of c # cs \<Rightarrow> if c = CHR ''-'' \<or> c = CHR ''+'' then cs else lit | [] \<Rightarrow> lit)
                            then whole else None
              | KFloat32 \<Rightarrow> None)
      | Some _ \<Rightarrow> None)"

(* src/pkg/core/disclose.go:556-562 discloseJSON *)
definition discloseJSON :: "runtime_library \<Rightarrow> (string \<times> string option) list \<Rightarrow> json_object \<Rightarrow> exec_result" where
  "discloseJSON lib members metadata =
     (case seq_opt (map (\<lambda>(k, t). map_option (Pair k) t) members) of
        None \<Rightarrow> (emptyResult, Some (OtherError (plain_error (lb_text lib LibraryFault))))
      | Some ms \<Rightarrow> (\<lparr> cr_content = json_map_text ms, cr_ok = True, cr_metadata = Some metadata \<rparr>, None))"

definition libraryRefusal :: "string \<Rightarrow> exec_result" where
  "libraryRefusal message = (deniedResult CodeInvalidArgs message, None)"

(* src/pkg/core/disclose.go:286-308 list *)
definition libraryList :: "runtime_library \<Rightarrow> disclosed_runtime \<Rightarrow> tool_call \<Rightarrow> exec_result" where
  "libraryList lib d call =
     (let docs = lx_docs (di_index d); docCount = int (length docs) in
      case discloseIntArg call ''offset'' 0 of
        None \<Rightarrow> libraryRefusal ''tool library offset must be >= 0''
      | Some offset \<Rightarrow>
          if offset < 0 then libraryRefusal ''tool library offset must be >= 0''
          else let badLimit = libraryRefusal (''tool library limit must be between 1 and '' @ int_str discloseMaxListLimit) in
            (case discloseIntArg call ''limit'' discloseListLimit of
              None \<Rightarrow> badLimit
            | Some limit \<Rightarrow>
                if limit < 1 \<or> limit > discloseMaxListLimit then badLimit
                else let start = min offset docCount; finish = min (start + limit) docCount;
                         page = take (nat (finish - start)) (drop (nat start) docs)
                     in discloseJSON lib
                          [(''status'', Some (json_string ''ok'')), (''total'', Some (int_str docCount)), (''offset'', Some (int_str start)),
                           (''limit'', Some (int_str limit)), (''tools'', json_text (discloseCards page))]
                          [(''library.action'', JStr ''list''), (''library.hits'', jint (int (length page))), (''library.total'', jint docCount)]))"

(* src/pkg/core/disclose.go:310-331 search *)
definition librarySearch :: "runtime_library \<Rightarrow> (string \<Rightarrow> string) \<Rightarrow> disclosed_runtime \<Rightarrow> tool_call \<Rightarrow> exec_result" where
  "librarySearch lib lower d call =
     (let query = trim_space (string_arg call ''query'');
          badTopK = libraryRefusal (''tool library top_k must be between 1 and '' @ int_str discloseMaxSearchTopK)
      in if query = [] then libraryRefusal ''tool library search requires a query''
         else case discloseIntArg call ''top_k'' discloseSearchTopK of
                None \<Rightarrow> badTopK
              | Some topK \<Rightarrow>
                  if topK < 1 \<or> topK > discloseMaxSearchTopK then badTopK
                  else let found = searchIndex lower (di_index d) query topK;
                           hits = (case found of None \<Rightarrow> [] | Some hs \<Rightarrow> hs)
                       in discloseJSON lib
                            [(''status'', Some (json_string ''ok'')), (''query'', Some (json_string query)),
                             (''tools'', case found of None \<Rightarrow> Some ''null''
                                | Some hs \<Rightarrow> map_option json_array_text (seq_opt (map json_hit hs)))]
                            [(''library.action'', JStr ''search''), (''library.hits'', jint (int (length hits))),
                             (''library.query'', JStr (discloseSummary query)),
                             (''library.hit_ids'', JArr (map JStr (take 8 (map lh_id hits))))])"

definition describeDoc :: "runtime_library \<Rightarrow> library_doc \<Rightarrow> exec_result" where
  "describeDoc lib doc = discloseJSON lib
     [(''status'', Some (json_string ''ok'')), (''id'', Some (json_string (ld_id doc))), (''library'', Some (json_string (ld_library doc))),
      (''name'', Some (json_string (ld_name doc))), (''description'', Some (json_string (ld_description doc))),
      (''input_schema'', case cloneMap (ld_schema doc) of None \<Rightarrow> Some ''null'' | Some m \<Rightarrow> json_object_text m)]
     [(''library.action'', JStr ''describe''), (''library.id'', JStr (ld_id doc)), (''library.hits'', jint 1)]"

(* src/pkg/core/disclose.go:333-372 describe *)
definition libraryDescribe :: "runtime_library \<Rightarrow> disclosed_runtime \<Rightarrow> tool_call \<Rightarrow> exec_result" where
  "libraryDescribe lib d call =
     (let i = trim_space (string_arg call ''id''); name = trim_space (string_arg call ''name''); index = di_index d in
      if i \<noteq> []
      then (case map_of (lx_byID index) i of
              None \<Rightarrow> libraryRefusal (''tool library has no id '' @ lb_text lib (QuotedText i))
            | Some n \<Rightarrow> describeDoc lib (lx_docs index ! n))
      else if name = [] then libraryRefusal ''tool library describe requires id or name''
      else (case map (\<lambda>n. lx_docs index ! n) (mget [] (lx_byName index) name) of
              [] \<Rightarrow> libraryRefusal (''tool library has no tool '' @ lb_text lib (QuotedText name))
            | [doc] \<Rightarrow> describeDoc lib doc
            | matches \<Rightarrow> discloseJSON lib
                [(''status'', Some (json_string ''explore'')),
                 (''reason'', Some (json_string ''multiple tools share this name; describe one id then call that id'')),
                 (''tools'', json_text (discloseCards matches))]
                [(''library.action'', JStr ''explore''), (''library.hits'', jint (int (length matches))), (''library.explore'', JBool True)]))"

(* src/pkg/core/disclose.go:272-284 executeLibrary *)
definition executeLibrary :: "runtime_library \<Rightarrow> (string \<Rightarrow> string) \<Rightarrow> disclosed_runtime \<Rightarrow> tool_call \<Rightarrow> exec_result" where
  "executeLibrary lib lower d call =
     (let action = trim_space (string_arg call ''action'') in
      if action = ''search'' then librarySearch lib lower d call
      else if action = ''list'' then libraryList lib d call
      else if action = ''describe'' then libraryDescribe lib d call
      else libraryRefusal ''tool library action must be search, list, or describe'')"

section \<open>The runtimes\<close>

text \<open>A snapshot, and a snapshot behind the library, as the tool runtime of an agent.\<close>

definition snapshotRuntime :: "runtime_library \<Rightarrow> (string \<Rightarrow> protected_request \<Rightarrow> 'w \<Rightarrow> 'w script) \<Rightarrow> capability_snapshot \<Rightarrow> 'w tool_runtime" where
  "snapshotRuntime lib run snap =
     \<lparr> rt_schemas = Returns (snapshotSchemas snap), rt_authorized = (\<lambda>name. Returns (snapshotAuthorized snap name)),
       rt_manifestFor = Some (\<lambda>name. Returns (manifestFor snap name)), rt_budgetFor = Some (\<lambda>name. Returns (snapshotBudgetFor snap name)),
       rt_execute = Protected (executeProtected lib snap run True) \<rparr>"

(* src/pkg/core/disclose.go:226-270 disclosedRuntime *)
definition disclosedTools :: "runtime_library \<Rightarrow> (string \<Rightarrow> string) \<Rightarrow> (string \<Rightarrow> protected_request \<Rightarrow> 'w \<Rightarrow> 'w script)
    \<Rightarrow> disclosed_runtime \<Rightarrow> 'w tool_runtime" where
  "disclosedTools lib lower run d =
     (let snap = di_inner d in
      \<lparr> rt_schemas = Returns (disclosedSchemas d),
        rt_authorized = (\<lambda>name. Returns (if name = disclosedLibraryID then True else snapshotAuthorized snap name)),
        rt_manifestFor = Some (\<lambda>name. Returns (if name = disclosedLibraryID
          then Some (discloseLibraryManifest (length (lx_docs (di_index d)))) else manifestFor snap name)),
        rt_budgetFor = Some (\<lambda>name. Returns (if name = disclosedLibraryID then 0 else snapshotBudgetFor snap name)),
        rt_execute = Protected (\<lambda>ctx call w.
          if tc_name call = disclosedLibraryID then Finish (Returns (executeLibrary lib lower d call)) w
          else executeProtected lib snap run True ctx call w) \<rparr>)"

section \<open>What is offered is current\<close>

lemma byID_sound:
  assumes "map_of (lx_byID (newLibraryIndex lower docs)) i = Some n"
  shows "n < length docs \<and> ld_id (docs ! n) = i"
proof -
  let ?P = "\<lambda>m. \<forall>i n. map_of m i = Some n \<longrightarrow> n < length docs \<and> ld_id (docs ! n) = i"
  have "?P (fold (\<lambda>(j, doc). mput (ld_id doc) j) (enumerate 0 docs) [])"
  proof (rule fold_invariant[where Q = "\<lambda>(j, doc). j < length docs \<and> docs ! j = doc"])
    fix x assume "x \<in> set (enumerate 0 docs)"
    then show "case x of (j, doc) \<Rightarrow> j < length docs \<and> docs ! j = doc" by (auto simp: in_set_enumerate_eq)
  qed (auto split: if_splits)
  then show ?thesis using assms by (simp add: newLibraryIndex_def)
qed

definition selection_ok :: "disclosed_runtime \<Rightarrow> nat list \<Rightarrow> bool" where
  "selection_ok d selected \<longleftrightarrow> distinct selected \<and> length selected \<le> discloseActiveLimit
     \<and> list_all (\<lambda>n. n < length (lx_docs (di_index d))
          \<and> map_of (lx_byID (di_index d)) (ld_id (lx_docs (di_index d) ! n)) = Some n) selected"

lemma selectDoc_ok:
  assumes "selection_ok d selected" "n < length (lx_docs (di_index d))"
    "map_of (lx_byID (di_index d)) (ld_id (lx_docs (di_index d) ! n)) = Some n"
  shows "selection_ok d (selectDoc n selected)"
proof -
  have "set (tl selected) \<subseteq> set selected" by (cases selected) auto
  then show ?thesis
    using assms by (auto simp: selection_ok_def selectDoc_def Let_def list_all_iff length_remove1 distinct_tl
        set_remove1_eq discloseActiveLimit_def dest: notin_set_remove1)
qed

lemma selectMessage_ok:
  assumes "\<And>i n. map_of (lx_byID (di_index d)) i = Some n
      \<Longrightarrow> n < length (lx_docs (di_index d)) \<and> ld_id (lx_docs (di_index d) ! n) = i"
    and "selection_ok d (snd st)"
  shows "selection_ok d (snd (selectMessage decode d message st))"
  using assms by (auto simp: selectMessage_def Let_def Option.bind_eq_Some_conv intro!: selectDoc_ok split: prod.splits option.splits)

lemma exposedTools_mem:
  assumes "(m, t) \<in> set (exposedTools snap)"
  shows "\<exists>c \<in> set (sn_capabilities snap). sc_manifest c = m \<and> cm_tool m = Some t \<and> snapshotAuthorized snap (cm_id m)"
  using assms by (fastforce simp: exposedTools_def map_filter_def snapshotAuthorized_def mget_def split: if_splits option.splits)

lemma disclosed_docs:
  assumes "discloseToolRuntime lower snap = Some d" "n < length (lx_docs (di_index d))"
  shows "\<exists>m t. (m, t) \<in> set (exposedTools snap) \<and> ld_id (lx_docs (di_index d) ! n) = cm_id m
    \<and> ld_schema (lx_docs (di_index d) ! n) = exposedSchema m t"
proof -
  let ?docs = "map (\<lambda>(m, t). docOf m t) (filter (\<lambda>(m, _). \<not> hotKind (cm_kind m)) (exposedTools snap))"
  have d: "di_index d = newLibraryIndex lower (deriveSiblingNotFor lower ?docs)"
    using assms(1) by (auto simp: discloseToolRuntime_def Let_def split: if_splits)
  have n: "n < length ?docs" using assms(2) by (simp add: d newLibraryIndex_def deriveSiblingNotFor_def)
  then have "?docs ! n \<in> set ?docs" by (rule nth_mem)
  then obtain m t where "(m, t) \<in> set (exposedTools snap)" "?docs ! n = docOf m t" by auto
  moreover have "ld_id (lx_docs (di_index d) ! n) = ld_id (?docs ! n)" "ld_schema (lx_docs (di_index d) ! n) = ld_schema (?docs ! n)"
    using n by (simp_all add: d newLibraryIndex_def deriveSiblingNotFor_def indexDoc_def Let_def)
  ultimately show ?thesis by (auto simp: docOf_def)
qed

lemma disclosed_index:
  assumes "discloseToolRuntime lower snap = Some d" "map_of (lx_byID (di_index d)) i = Some n"
  shows "n < length (lx_docs (di_index d)) \<and> ld_id (lx_docs (di_index d) ! n) = i"
proof -
  obtain docs where "di_index d = newLibraryIndex lower docs"
    using assms(1) by (auto simp: discloseToolRuntime_def Let_def split: if_splits)
  with byID_sound[of lower docs i n] assms(2) show ?thesis by (simp add: newLibraryIndex_def indexDoc_def Let_def)
qed

text \<open>C19: Whatever the message history contains, the tools offered under progressive disclosure are the library
  itself and capabilities of the current snapshot that may be called, with the schema the snapshot has for
  them now; at most eight are offered beyond the hot ones and the library, and none of these twice.
\<close>
theorem disclosed_schemas_current:
  assumes "discloseToolRuntime lower snap = Some d"
  shows "list_all (\<lambda>t. ts_name t = disclosedLibraryID \<or>
      (\<exists>c \<in> set (sn_capabilities snap). \<exists>tool. cm_id (sc_manifest c) = ts_name t \<and> cm_tool (sc_manifest c) = Some tool
        \<and> ts_parameters t = cloneMap (exposedSchema (sc_manifest c) tool) \<and> snapshotAuthorized snap (ts_name t)))
      (schemasForMessages decode d messages)
    \<and> (\<exists>selected. schemasForMessages decode d messages = disclosedSchemas d @ selected
        \<and> length selected \<le> discloseActiveLimit \<and> distinct (map ts_name selected))"
proof -
  have idx: "n < length (lx_docs (di_index d)) \<and> ld_id (lx_docs (di_index d) ! n) = i"
    if "map_of (lx_byID (di_index d)) i = Some n" for i n
    using assms that by (intro disclosed_index)
  obtain pending selected where sel: "fold (selectMessage decode d) messages ([], []) = (pending, selected)" by force
  have "selection_ok d (snd (fold (selectMessage decode d) messages ([], [])))"
    by (rule fold_invariant[where Q = "\<lambda>_. True" and P = "\<lambda>st. selection_ok d (snd st)"])
      (rule TrueI, simp add: selection_ok_def, rule selectMessage_ok[OF idx])
  then have ok: "length selected \<le> discloseActiveLimit" "\<forall>n \<in> set selected. n < length (lx_docs (di_index d))"
    "distinct (map (\<lambda>n. ld_id (lx_docs (di_index d) ! n)) selected)"
    by (auto simp: sel selection_ok_def list_all_iff distinct_map intro!: inj_onI) (metis option.inject)
  have docs: "\<exists>c \<in> set (sn_capabilities snap). \<exists>tool. cm_id (sc_manifest c) = ld_id (lx_docs (di_index d) ! n) \<and> cm_tool (sc_manifest c) = Some tool
      \<and> cloneMap (ld_schema (lx_docs (di_index d) ! n)) = cloneMap (exposedSchema (sc_manifest c) tool)
      \<and> snapshotAuthorized snap (ld_id (lx_docs (di_index d) ! n))" if "n \<in> set selected" for n
    using disclosed_docs[OF assms, of n] exposedTools_mem ok(2) that by fastforce
  have "di_hotSchemas d = map (\<lambda>(m, t). hotSchema m t) (filter (\<lambda>(m, _). hotKind (cm_kind m)) (exposedTools snap))"
    using assms by (auto simp: discloseToolRuntime_def Let_def split: if_splits)
  then have "\<exists>c \<in> set (sn_capabilities snap). \<exists>tool. cm_id (sc_manifest c) = ts_name t \<and> cm_tool (sc_manifest c) = Some tool
      \<and> ts_parameters t = cloneMap (exposedSchema (sc_manifest c) tool) \<and> snapshotAuthorized snap (ts_name t)"
    if "t \<in> set (cloneToolSchemas (di_hotSchemas d))" for t
    using that exposedTools_mem by (fastforce simp: cloneToolSchemas_def hotSchema_def)
  with docs ok(1,3) show ?thesis
    by (auto simp: schemasForMessages_def sel Let_def disclosedSchemas_def list_all_iff comp_def)
qed

end
