(* ===== verification/Compaction.thy ===== *)
theory Compaction
  imports Projection
begin

text \<open>
  The default context compactor of \<open>src/pkg/core/context.go\<close> and the fused fast path of
  \<open>session.go\<close> that applies it while projecting. The compactor only ever removes whole turns from the
  front and replaces the text of stale tool results by a marker.
\<close>

section \<open>The compactor\<close>

(* src/pkg/core/context.go:36-39 RecentTurnsCompactor *)
record recent_turns =
  rt_maxMessages :: int
  rt_maxToolResultChars :: int

(* src/pkg/core/context.go:42-42 ElidedToolResultMarker *)
definition ElidedToolResultMarker :: string where
  "ElidedToolResultMarker = ''[earlier tool result elided''"

(* src/pkg/core/context.go:96-105 elidedToolResult *)
definition elidedToolResult :: "recent_turns \<Rightarrow> string \<Rightarrow> string option" where
  "elidedToolResult c content =
     (if rt_maxToolResultChars c \<le> 0 \<or> int (length content) \<le> rt_maxToolResultChars c then None
      else let chars = rune_count content in
        if int chars \<le> rt_maxToolResultChars c then None
        else Some (ElidedToolResultMarker @ '': '' @ int_str (int chars) @ '' chars]''))"

text \<open>The index of the last user message, or -1.\<close>

(* src/pkg/core/session.go:1206-1214 lastUserIndex *)
definition lastUserIndex :: "chat_message list \<Rightarrow> int" where
  "lastUserIndex ms = foldl (\<lambda>result (i, m). if ch_role m = RoleUser then int i else result) (-1) (enumerate 0 ms)"

definition elideMessage :: "recent_turns \<Rightarrow> chat_message \<Rightarrow> chat_message" where
  "elideMessage c m =
     (if ch_role m \<noteq> RoleTool then m
      else case elidedToolResult c (ch_content m) of None \<Rightarrow> m | Some t \<Rightarrow> m\<lparr> ch_content := t \<rparr>)"

(* src/pkg/core/context.go:56-91 pruneOldToolResults *)
definition pruneOldToolResults :: "recent_turns \<Rightarrow> chat_message list \<Rightarrow> chat_message list" where
  "pruneOldToolResults c ms =
     (let lastUser = lastUserIndex ms in
        if lastUser \<le> 0 then ms
        else (case find (\<lambda>i. ch_role (ms ! i) = RoleTool \<and> elidedToolResult c (ch_content (ms ! i)) \<noteq> None) [0..<nat lastUser] of
                None \<Rightarrow> ms
              | Some firstPrunable \<Rightarrow>
                  take firstPrunable ms
                  @ map (elideMessage c) (drop firstPrunable (take (nat lastUser) ms))
                  @ drop (nat lastUser) ms))"

(* src/pkg/core/context.go:127-137 windowTurns *)
definition windowScan :: "recent_turns \<Rightarrow> chat_message list \<Rightarrow> nat \<times> nat" where
  "windowScan c ms = foldl (\<lambda>(firstFitting, lastBoundary) (i, m).
       if ch_role m = RoleUser \<and> i > 0
       then (if firstFitting = 0 \<and> int (length ms) - int i \<le> rt_maxMessages c then i else firstFitting, i)
       else (firstFitting, lastBoundary)) (0, 0) (enumerate 0 ms)"

(* src/pkg/core/context.go:123-146 windowTurns *)
definition windowTurns :: "recent_turns \<Rightarrow> chat_message list \<Rightarrow> chat_message list" where
  "windowTurns c ms =
     (if int (length ms) \<le> rt_maxMessages c then ms
      else let (firstFitting, lastBoundary) = windowScan c ms;
               keep = (if firstFitting = 0 then lastBoundary else firstFitting)
           in if keep = 0 then ms else drop keep ms)"

(* src/pkg/core/context.go:44-53 Compact *)
definition compact :: "recent_turns \<Rightarrow> chat_message list \<Rightarrow> chat_message list" where
  "compact c ms =
     (let out = (if rt_maxToolResultChars c > 0 then pruneOldToolResults c ms else ms)
      in if rt_maxMessages c > 0 then windowTurns c out else out)"

section \<open>The fused path\<close>

text \<open>
  The backward scan over the indexed events, newest first: \<open>seen\<close> counts the visible events passed;
  the result is \<open>exceeded\<close>, \<open>latestBoundary\<close> and \<open>candidate\<close>, or nothing when a summary is met.
\<close>

(* src/pkg/core/session.go:1117-1145 deriveRecentCompactedMessages *)
fun recentScan :: "int \<Rightarrow> int \<Rightarrow> int \<Rightarrow> int \<Rightarrow> (nat \<times> session_event) list \<Rightarrow> (bool \<times> int \<times> int) option" where
  "recentScan limit seen latestBoundary candidate [] = Some (False, latestBoundary, candidate)"
| "recentScan limit seen latestBoundary candidate ((i, ev) # older) =
     (if ev_type ev = EvContextSummary then None
      else if \<not> modelVisibleEvent ev then recentScan limit seen latestBoundary candidate older
      else let boundary = (ev_type ev = EvUserMessage \<and> seen > 0);
               latest = (if boundary \<and> latestBoundary < 0 then int i else latestBoundary)
           in if boundary \<and> seen + 1 > limit then Some (True, latest, candidate)
              else let candidate' = (if boundary then int i else candidate) in
                if seen + 1 > limit \<and> latest \<ge> 0 then Some (True, latest, candidate')
                else recentScan limit (seen + 1) latest candidate' older)"

(* src/pkg/core/session.go:1115-1153 deriveRecentCompactedMessages *)
definition recentStart :: "recent_turns \<Rightarrow> session_event list \<Rightarrow> nat option" where
  "recentStart c evs =
     (if rt_maxMessages c > 0
      then map_option (\<lambda>(exceeded, latest, candidate).
             if exceeded \<and> candidate \<ge> 0 then nat candidate
             else if exceeded \<and> latest \<ge> 0 then nat latest
             else 0) (recentScan (rt_maxMessages c) 0 (-1) (-1) (rev (enumerate 0 evs)))
      else Some 0)"

text \<open>The common last stage: elide old tool results before the last user message kept.\<close>

definition elideBefore :: "recent_turns \<Rightarrow> chat_message list \<Rightarrow> chat_message list" where
  "elideBefore c ms =
     (let lastUser = lastUserIndex ms in
        if lastUser > 0 then map (elideMessage c) (take (nat lastUser) ms) @ drop (nat lastUser) ms else ms)"

(* src/pkg/core/session.go:1107-1204 deriveRecentCompactedMessages *)
definition deriveRecentCompacted :: "recent_turns \<Rightarrow> session \<Rightarrow> chat_message list option" where
  "deriveRecentCompacted c s =
     (if se_summaryEvents s \<noteq> 0 then None
      else case recentStart c (se_events s) of
             None \<Rightarrow> None
           | Some firstEvent \<Rightarrow>
               if se_projValid s \<and> se_projCount s = length (se_events s) \<and> se_projSummaries s = 0
               then let startSeq = (if firstEvent < length (se_events s) then ev_seq (se_events s ! firstEvent) else -1);
                        cached = map cloneChatMessage (filter (\<lambda>m. startSeq < 0 \<or> ch_sourceSeq m \<ge> startSeq) (se_projCache s))
                    in Some (elideBefore c cached)
               else if list_ex (\<lambda>ev. ev_type ev = EvContextSummary) (drop firstEvent (se_events s)) then None
               else Some (elideBefore c (map cloneChatMessage (List.map_filter projectEvent (drop firstEvent (se_events s))))))"

section \<open>Window facts\<close>

abbreviation user_at :: "chat_message list \<Rightarrow> nat \<Rightarrow> bool" where
  "user_at ms i \<equiv> ch_role (ms ! i) = RoleUser"

definition turn_starts :: "chat_message list \<Rightarrow> nat set" where
  "turn_starts ms = {i. 0 < i \<and> i < length ms \<and> user_at ms i}"

definition fitting_starts :: "recent_turns \<Rightarrow> chat_message list \<Rightarrow> nat set" where
  "fitting_starts c ms = {i \<in> turn_starts ms. int (length ms) - int i \<le> rt_maxMessages c}"

definition min_or :: "nat set \<Rightarrow> nat" where "min_or A = (if A = {} then 0 else Min A)"
definition max_or :: "nat set \<Rightarrow> nat" where "max_or A = (if A = {} then 0 else Max A)"

lemma finite_turn_starts [simp]: "finite (turn_starts ms)" "finite (fitting_starts c ms)"
  by (auto simp: turn_starts_def fitting_starts_def)

lemma min_or_insert:
  assumes "finite A" "\<And>a. a \<in> A \<Longrightarrow> 0 < a \<and> a < j"
  shows "min_or (insert j A) = (if min_or A = 0 then j else min_or A)"
proof (cases "A = {}")
  case False
  then have "Min A \<in> A" using assms(1) by (intro Min_in)
  moreover have "Min (insert j A) = min j (Min A)" using assms(1) False by simp
  ultimately show ?thesis using assms(2)[of "Min A"] False by (simp add: min_or_def)
qed (simp add: min_or_def)

lemma max_or_insert:
  assumes "finite A" "\<And>a. a \<in> A \<Longrightarrow> a < j"
  shows "max_or (insert j A) = j"
  using Max_eqI[of "insert j A" j] assms by (auto simp: max_or_def dest: less_imp_le)

lemma windowScan_eq: "windowScan c ms = (min_or (fitting_starts c ms), max_or (turn_starts ms))"
proof -
  let ?n = "length ms"
  let ?T = "\<lambda>j. {i \<in> turn_starts ms. i < j}" and ?F = "\<lambda>j. {i \<in> fitting_starts c ms. i < j}"
  let ?step = "\<lambda>(firstFitting, lastBoundary) (i, m).
       if ch_role m = RoleUser \<and> i > 0
       then (if firstFitting = 0 \<and> int ?n - int i \<le> rt_maxMessages c then i else firstFitting, i)
       else (firstFitting, lastBoundary)"
  have "j \<le> ?n \<Longrightarrow> foldl ?step (0, 0) (take j (enumerate 0 ms)) = (min_or (?F j), max_or (?T j))" for j
  proof (induction j)
    case 0
    then show ?case by (simp add: min_or_def max_or_def)
  next
    case (Suc j)
    have e: "take (Suc j) (enumerate 0 ms) = take j (enumerate 0 ms) @ [(j, ms ! j)]"
      using Suc.prems by (simp add: take_Suc_conv_app_nth nth_enumerate_eq)
    have T: "?T (Suc j) = (if user_at ms j \<and> 0 < j then insert j (?T j) else ?T j)"
      using Suc.prems by (auto simp: less_Suc_eq turn_starts_def)
    have F: "?F (Suc j) = (if user_at ms j \<and> 0 < j \<and> int ?n - int j \<le> rt_maxMessages c then insert j (?F j) else ?F j)"
      using Suc.prems by (auto simp: less_Suc_eq fitting_starts_def turn_starts_def)
    have "max_or (insert j (?T j)) = j" by (rule max_or_insert) auto
    moreover have "min_or (insert j (?F j)) = (if min_or (?F j) = 0 then j else min_or (?F j))"
      by (rule min_or_insert) (auto simp: fitting_starts_def turn_starts_def)
    ultimately show ?case unfolding e T F using Suc by simp
  qed
  from this[of ?n] have "windowScan c ms = (min_or (?F ?n), max_or (?T ?n))" by (simp add: windowScan_def)
  moreover have "?F ?n = fitting_starts c ms" "?T ?n = turn_starts ms" by (auto simp: fitting_starts_def turn_starts_def)
  ultimately show ?thesis by simp
qed

definition keep_from :: "recent_turns \<Rightarrow> chat_message list \<Rightarrow> nat" where
  "keep_from c ms = (if int (length ms) \<le> rt_maxMessages c then 0
     else if fitting_starts c ms = {} then max_or (turn_starts ms) else min_or (fitting_starts c ms))"

lemma windowTurns_eq: "windowTurns c ms = drop (keep_from c ms) ms"
proof -
  have "min_or (fitting_starts c ms) = 0 \<longleftrightarrow> fitting_starts c ms = {}"
  proof (cases "fitting_starts c ms = {}")
    case False
    then have "Min (fitting_starts c ms) \<in> fitting_starts c ms" by (intro Min_in) auto
    then have "0 < Min (fitting_starts c ms)" unfolding fitting_starts_def turn_starts_def by blast
    with False show ?thesis by (simp add: min_or_def)
  qed (simp add: min_or_def)
  then show ?thesis by (auto simp: windowTurns_def windowScan_eq keep_from_def Let_def)
qed

lemma keep_from_turn: "keep_from c ms = 0 \<or> keep_from c ms \<in> turn_starts ms"
proof -
  have "turn_starts ms \<noteq> {} \<Longrightarrow> Max (turn_starts ms) \<in> turn_starts ms" by (intro Max_in) auto
  moreover have "fitting_starts c ms \<noteq> {} \<Longrightarrow> Min (fitting_starts c ms) \<in> fitting_starts c ms" by (intro Min_in) auto
  ultimately show ?thesis by (auto simp: keep_from_def min_or_def max_or_def fitting_starts_def)
qed

section \<open>Pruning facts\<close>

lemma elideMessage_fields [simp]:
  "ch_role (elideMessage c m) = ch_role m" "ch_toolCall (elideMessage c m) = ch_toolCall m"
  "ch_toolCalls (elideMessage c m) = ch_toolCalls m" "ch_toolCallID (elideMessage c m) = ch_toolCallID m"
  "ch_sourceSeq (elideMessage c m) = ch_sourceSeq m"
  by (simp_all add: elideMessage_def split: option.split)

lemma elideMessage_not_tool: "ch_role m \<noteq> RoleTool \<Longrightarrow> elideMessage c m = m"
  by (simp add: elideMessage_def)

lemma elideMessage_off: "rt_maxToolResultChars c \<le> 0 \<Longrightarrow> elideMessage c m = m"
  by (simp add: elideMessage_def elidedToolResult_def)

lemma lastUserIndex_eq:
  "lastUserIndex ms = (if \<exists>m \<in> set ms. ch_role m = RoleUser then int (Max {i. i < length ms \<and> user_at ms i}) else -1)"
proof (induction ms rule: rev_induct)
  case Nil
  then show ?case by (simp add: lastUserIndex_def)
next
  case (snoc m ms)
  have step: "lastUserIndex (ms @ [m]) = (if ch_role m = RoleUser then int (length ms) else lastUserIndex ms)"
    by (simp add: lastUserIndex_def enumerate_append_eq)
  let ?U = "\<lambda>ms. {i. i < length ms \<and> user_at ms i}"
  have U: "?U (ms @ [m]) = (if ch_role m = RoleUser then insert (length ms) (?U ms) else ?U ms)"
    by (auto simp: nth_append less_Suc_eq)
  have "Max (insert (length ms) (?U ms)) = length ms" by (intro Max_eqI) auto
  then show ?case unfolding step U using snoc.IH by simp
qed

definition prune_at :: "recent_turns \<Rightarrow> nat \<Rightarrow> chat_message list \<Rightarrow> chat_message list" where
  "prune_at c k ms = map (elideMessage c) (take k ms) @ drop k ms"

lemma elideBefore_eq: "elideBefore c ms = prune_at c (nat (lastUserIndex ms)) ms"
  by (auto simp: elideBefore_def prune_at_def Let_def)

lemma map_same: "(\<And>x. x \<in> set xs \<Longrightarrow> f x = x) \<Longrightarrow> map f xs = xs"
  by (induction xs) simp_all

lemma pruneOldToolResults_eq: "pruneOldToolResults c ms = prune_at c (nat (lastUserIndex ms)) ms"
proof (cases "lastUserIndex ms \<le> 0")
  case True
  then show ?thesis by (simp add: pruneOldToolResults_def prune_at_def Let_def)
next
  case False
  let ?k = "nat (lastUserIndex ms)"
  let ?P = "\<lambda>i. ch_role (ms ! i) = RoleTool \<and> elidedToolResult c (ch_content (ms ! i)) \<noteq> None"
  have keep: "\<not> ?P i \<Longrightarrow> elideMessage c (ms ! i) = ms ! i" for i
    by (auto simp: elideMessage_def split: option.split)
  have pre: "map (elideMessage c) (take j ms) = take j ms" if "\<forall>i < j. \<not> ?P i" for j
    using that keep by (intro nth_equalityI) auto
  show ?thesis
  proof (cases "find ?P [0..<?k]")
    case None
    then have "\<forall>i < ?k. \<not> ?P i" by (auto simp: find_None_iff)
    with pre[of ?k] show ?thesis using False None by (simp add: pruneOldToolResults_def prune_at_def Let_def)
  next
    case (Some f)
    then have f: "f < ?k" "\<forall>i < f. \<not> ?P i" by (auto simp: find_Some_iff)
    have "take f ms @ drop f (take ?k ms) = take ?k ms"
      using append_take_drop_id[of f "take ?k ms"] f(1) by simp
    then have "map (elideMessage c) (take ?k ms) = map (elideMessage c) (take f ms) @ map (elideMessage c) (drop f (take ?k ms))"
      by (simp flip: map_append)
    then have "map (elideMessage c) (take ?k ms) = take f ms @ map (elideMessage c) (drop f (take ?k ms))"
      unfolding pre[OF f(2)] .
    then show ?thesis using False Some by (simp add: pruneOldToolResults_def prune_at_def Let_def)
  qed
qed

lemma prune_at_nth: "i < length ms \<Longrightarrow> prune_at c k ms ! i = (if i < k then elideMessage c (ms ! i) else ms ! i)"
  by (auto simp: prune_at_def nth_append min_def)

lemma prune_at_length [simp]: "length (prune_at c k ms) = length ms"
  by (simp add: prune_at_def)

lemma prune_at_role: "i < length ms \<Longrightarrow> ch_role (prune_at c k ms ! i) = ch_role (ms ! i)"
  by (simp add: prune_at_nth)

lemma prune_at_off: "rt_maxToolResultChars c \<le> 0 \<Longrightarrow> prune_at c k ms = ms"
  by (intro nth_equalityI) (simp_all add: prune_at_nth elideMessage_off)

lemma keep_from_cong:
  assumes "length a = length b" "\<And>i. i < length b \<Longrightarrow> ch_role (a ! i) = ch_role (b ! i)"
  shows "keep_from c a = keep_from c b"
proof -
  have "turn_starts a = turn_starts b" using assms by (auto simp: turn_starts_def)
  moreover from this have "fitting_starts c a = fitting_starts c b" using assms(1) by (simp add: fitting_starts_def)
  ultimately show ?thesis using assms(1) by (simp add: keep_from_def)
qed

definition keep_point :: "recent_turns \<Rightarrow> chat_message list \<Rightarrow> nat" where
  "keep_point c ms = (if rt_maxMessages c > 0 then keep_from c ms else 0)"

lemma compact_eq: "compact c ms = drop (keep_point c ms) (prune_at c (nat (lastUserIndex ms)) ms)"
proof -
  let ?p = "prune_at c (nat (lastUserIndex ms)) ms"
  have "(if rt_maxToolResultChars c > 0 then pruneOldToolResults c ms else ms) = ?p"
    by (simp add: pruneOldToolResults_eq prune_at_off)
  moreover have "keep_from c ?p = keep_from c ms" by (rule keep_from_cong) (simp_all add: prune_at_role)
  ultimately show ?thesis by (simp add: compact_def Let_def windowTurns_eq keep_point_def)
qed

section \<open>What compaction keeps\<close>

definition same_but_tool_text :: "chat_message \<Rightarrow> chat_message \<Rightarrow> bool" where
  "same_but_tool_text m m' \<longleftrightarrow> m' = m \<or> (ch_role m = RoleTool \<and> (\<exists>t. m' = m\<lparr> ch_content := ElidedToolResultMarker @ t \<rparr>))"

lemma elideMessage_same: "same_but_tool_text m (elideMessage c m)"
  by (auto simp: same_but_tool_text_def elideMessage_def elidedToolResult_def Let_def split: option.split if_splits)

lemma keep_point_turn: "keep_point c ms = 0 \<or> keep_point c ms \<in> turn_starts ms"
  using keep_from_turn by (simp add: keep_point_def)

lemma max_or_ge: "finite A \<Longrightarrow> a \<in> A \<Longrightarrow> a \<le> max_or A"
  by (auto simp: max_or_def)

lemma keep_point_fits:
  assumes "rt_maxMessages c > 0" "int (length ms - keep_point c ms) > rt_maxMessages c"
  shows "\<forall>i \<in> turn_starts ms. i \<le> keep_point c ms"
proof -
  have k: "keep_point c ms = keep_from c ms" using assms(1) by (simp add: keep_point_def)
  have big: "\<not> int (length ms) \<le> rt_maxMessages c" using assms(2) by linarith
  have "fitting_starts c ms = {}"
  proof (rule ccontr)
    assume ne: "fitting_starts c ms \<noteq> {}"
    then have "Min (fitting_starts c ms) \<in> fitting_starts c ms" by (intro Min_in) auto
    moreover have "keep_from c ms = Min (fitting_starts c ms)" using ne big by (simp add: keep_from_def min_or_def)
    ultimately have "int (length ms) - int (keep_from c ms) \<le> rt_maxMessages c" "keep_from c ms < length ms"
      by (auto simp: fitting_starts_def turn_starts_def)
    with assms(2) k show False by linarith
  qed
  then have "keep_from c ms = max_or (turn_starts ms)" using big by (simp add: keep_from_def)
  with k max_or_ge[OF finite_turn_starts(1)[of ms]] show ?thesis by simp
qed

text \<open>C24: Compaction is subtractive. The result is the conversation from some turn boundary on, message
  for message, where only tool results before the latest user message may have their text replaced by the
  elision marker; the latest turn is always kept, and the window is within \<open>MaxMessages\<close> unless that
  latest turn alone exceeds it.\<close>
theorem compact_subtractive:
  "\<exists>k. (k = 0 \<or> k < length ms \<and> ch_role (ms ! k) = RoleUser)
     \<and> list_all2 same_but_tool_text (drop k ms) (compact c ms)
     \<and> (let lastUser = nat (lastUserIndex ms) in k \<le> lastUser \<and> drop (lastUser - k) (compact c ms) = drop lastUser ms)
     \<and> (rt_maxMessages c > 0 \<longrightarrow> int (length (compact c ms)) \<le> rt_maxMessages c
          \<or> (\<forall>i. k < i \<and> i < length ms \<longrightarrow> ch_role (ms ! i) \<noteq> RoleUser))"
proof (intro exI[of _ "keep_point c ms"] conjI impI)
  let ?k = "keep_point c ms" and ?l = "nat (lastUserIndex ms)"
  have t: "?k = 0 \<or> ?k \<in> turn_starts ms" by (rule keep_point_turn)
  then show "?k = 0 \<or> ?k < length ms \<and> ch_role (ms ! ?k) = RoleUser" by (auto simp: turn_starts_def)
  show "list_all2 same_but_tool_text (drop ?k ms) (compact c ms)"
    unfolding list_all2_conv_all_nth compact_eq
    by (auto simp: prune_at_nth elideMessage_same) (simp add: same_but_tool_text_def)
  have "?k \<le> ?l"
  proof (cases "?k = 0")
    case False
    with t have k: "?k < length ms" "user_at ms ?k" by (auto simp: turn_starts_def)
    then have "?k \<le> Max {i. i < length ms \<and> user_at ms i}" by (intro Max_ge) auto
    moreover have "\<exists>m \<in> set ms. ch_role m = RoleUser" using k nth_mem by blast
    ultimately show ?thesis by (simp add: lastUserIndex_eq)
  qed simp
  moreover from this have "drop (?l - ?k) (compact c ms) = drop ?l (prune_at c ?l ms)" by (simp add: compact_eq)
  moreover have "drop ?l (prune_at c ?l ms) = drop ?l ms"
    by (intro nth_equalityI) (simp_all add: prune_at_nth)
  ultimately show "let lastUser = ?l in ?k \<le> lastUser \<and> drop (lastUser - ?k) (compact c ms) = drop lastUser ms"
    by (simp add: Let_def)
  assume pos: "rt_maxMessages c > 0"
  show "int (length (compact c ms)) \<le> rt_maxMessages c \<or> (\<forall>i. ?k < i \<and> i < length ms \<longrightarrow> ch_role (ms ! i) \<noteq> RoleUser)"
  proof (rule disjCI, rule ccontr)
    assume users: "\<not> (\<forall>i. ?k < i \<and> i < length ms \<longrightarrow> ch_role (ms ! i) \<noteq> RoleUser)"
      and "\<not> int (length (compact c ms)) \<le> rt_maxMessages c"
    then have "int (length ms - ?k) > rt_maxMessages c" by (simp add: compact_eq)
    then have "\<forall>i \<in> turn_starts ms. i \<le> ?k" by (rule keep_point_fits[OF pos])
    moreover from users obtain i where i: "?k < i" "i < length ms" "user_at ms i" by blast
    moreover from this have "i \<in> turn_starts ms" by (simp add: turn_starts_def)
    ultimately show False by (meson leD)
  qed
qed

section \<open>The fused scan\<close>

text \<open>The scan over the visible events only, as pairs of event index and user flag.\<close>

fun flagScan :: "int \<Rightarrow> int \<Rightarrow> int \<Rightarrow> int \<Rightarrow> (nat \<times> bool) list \<Rightarrow> bool \<times> int \<times> int" where
  "flagScan limit seen latest candidate [] = (False, latest, candidate)"
| "flagScan limit seen latest candidate ((i, user) # older) =
     (let boundary = (user \<and> seen > 0);
          latest' = (if boundary \<and> latest < 0 then int i else latest);
          candidate' = (if boundary then int i else candidate)
      in if boundary \<and> seen + 1 > limit then (True, latest', candidate)
         else if seen + 1 > limit \<and> latest' \<ge> 0 then (True, latest', candidate')
         else flagScan limit (seen + 1) latest' candidate' older)"

definition flags :: "nat \<Rightarrow> session_event list \<Rightarrow> (nat \<times> bool) list" where
  "flags k evs = map (\<lambda>(i, ev). (i, ev_type ev = EvUserMessage)) (filter (modelVisibleEvent \<circ> snd) (enumerate k evs))"

lemma recentScan_flags:
  assumes "\<forall>(i, ev) \<in> set xs. ev_type ev \<noteq> EvContextSummary"
  shows "recentScan limit seen latest candidate xs =
    Some (flagScan limit seen latest candidate (map (\<lambda>(i, ev). (i, ev_type ev = EvUserMessage)) (filter (modelVisibleEvent \<circ> snd) xs)))"
  using assms
  by (induction limit seen latest candidate xs rule: recentScan.induct) (simp_all add: Let_def)

definition bounds_from :: "(nat \<times> bool) list \<Rightarrow> nat \<Rightarrow> nat set" where
  "bounds_from V k = {p. k \<le> p \<and> p + 1 < length V \<and> snd (V ! p)}"

definition fits_from :: "int \<Rightarrow> (nat \<times> bool) list \<Rightarrow> nat \<Rightarrow> nat set" where
  "fits_from limit V k = {p \<in> bounds_from V k. int (length V) - int p \<le> limit}"

definition latest_at :: "(nat \<times> bool) list \<Rightarrow> nat \<Rightarrow> int" where
  "latest_at V k = (if bounds_from V k = {} then -1 else int (fst (V ! Max (bounds_from V k))))"

definition fitting_at :: "int \<Rightarrow> (nat \<times> bool) list \<Rightarrow> nat \<Rightarrow> int" where
  "fitting_at limit V k = (if fits_from limit V k = {} then -1 else int (fst (V ! Min (fits_from limit V k))))"

lemma finite_bounds [simp]: "finite (bounds_from V k)" "finite (fits_from limit V k)"
  by (auto simp: bounds_from_def fits_from_def intro: finite_subset[of _ "{..<length V}"])

lemma bounds_from_step:
  "bounds_from V p = (if p + 1 < length V \<and> snd (V ! p) then insert p (bounds_from V (Suc p)) else bounds_from V (Suc p))"
  by (auto simp: bounds_from_def le_less Suc_le_eq)

lemma fits_from_step:
  "fits_from limit V p = (if p + 1 < length V \<and> snd (V ! p) \<and> int (length V) - int p \<le> limit
     then insert p (fits_from limit V (Suc p)) else fits_from limit V (Suc p))"
  unfolding fits_from_def bounds_from_step[of V p] by auto

lemma latest_at_step:
  "latest_at V p = (if p + 1 < length V \<and> snd (V ! p) \<and> latest_at V (Suc p) < 0 then int (fst (V ! p)) else latest_at V (Suc p))"
proof (cases "bounds_from V (Suc p) = {}")
  case False
  then have "Max (bounds_from V (Suc p)) \<in> bounds_from V (Suc p)" by (intro Max_in) auto
  then have "max p (Max (bounds_from V (Suc p))) = Max (bounds_from V (Suc p))" by (simp add: bounds_from_def)
  with False show ?thesis by (auto simp: latest_at_def bounds_from_step[of V p])
qed (auto simp: latest_at_def bounds_from_step[of V p])

lemma fitting_at_step:
  "fitting_at limit V p = (if p + 1 < length V \<and> snd (V ! p) \<and> int (length V) - int p \<le> limit then int (fst (V ! p)) else fitting_at limit V (Suc p))"
proof -
  have "p \<le> q" if "q \<in> fits_from limit V (Suc p)" for q using that by (simp add: fits_from_def bounds_from_def)
  then have "Min (insert p (fits_from limit V (Suc p))) = p" by (intro Min_eqI) auto
  then show ?thesis by (simp add: fitting_at_def fits_from_step[of limit V p])
qed

lemma latest_at_neg [simp]: "latest_at V k < 0 \<longleftrightarrow> bounds_from V k = {}"
  by (simp add: latest_at_def)

lemma latest_at_whole: "bounds_from V p \<noteq> {} \<Longrightarrow> latest_at V p = latest_at V 0 \<and> bounds_from V 0 \<noteq> {}"
proof (induction p)
  case (Suc p)
  then have "latest_at V p = latest_at V (Suc p)" "bounds_from V p \<noteq> {}"
    by (simp_all add: latest_at_step[of V p] bounds_from_step[of V p])
  with Suc.IH show ?case by simp
qed simp

lemma fitting_at_whole: "int (length V) - int p > limit \<Longrightarrow> fitting_at limit V p = fitting_at limit V 0"
proof (induction p)
  case (Suc p)
  then have "fitting_at limit V (Suc p) = fitting_at limit V p" by (simp add: fitting_at_step[of limit V p])
  with Suc show ?case by simp
qed simp

lemma flagScan_spec:
  assumes "k \<le> length V" "int (length V) - int k > limit \<longrightarrow> bounds_from V k = {}"
  shows "flagScan limit (int (length V) - int k) (latest_at V k) (fitting_at limit V k) (rev (take k V))
     = (int (length V) > limit \<and> bounds_from V 0 \<noteq> {}, latest_at V 0, fitting_at limit V 0)"
  using assms
proof (induction k)
  case (Suc p)
  obtain i user where v: "V ! p = (i, user)" by fastforce
  let ?b = "user \<and> int (length V) - int (Suc p) > 0"
  have b: "?b \<longleftrightarrow> p + 1 < length V \<and> snd (V ! p)" using v by auto
  have list: "rev (take (Suc p) V) = (i, user) # rev (take p V)" using Suc.prems(1) v by (simp add: take_Suc_conv_app_nth)
  have latest: "(if ?b \<and> latest_at V (Suc p) < 0 then int i else latest_at V (Suc p)) = latest_at V p"
    unfolding latest_at_step[of V p] b using v by simp
  have seen: "int (length V) - int (Suc p) + 1 = int (length V) - int p" by simp
  have stop: ?case if "int (length V) - int p > limit" "bounds_from V p \<noteq> {}"
  proof -
    have w: "latest_at V p = latest_at V 0" "bounds_from V 0 \<noteq> {}" "fitting_at limit V p = fitting_at limit V 0"
      using latest_at_whole[OF that(2)] fitting_at_whole[OF that(1)] by auto
    have f: "fitting_at limit V (Suc p) = fitting_at limit V p" using that(1) by (simp add: fitting_at_step[of limit V p])
    have "0 \<le> latest_at V p" using that(2) by (simp add: latest_at_def)
    then have "flagScan limit (int (length V) - int (Suc p)) (latest_at V (Suc p)) (fitting_at limit V (Suc p)) (rev (take (Suc p) V))
        = (True, latest_at V p, fitting_at limit V (Suc p))"
      unfolding list flagScan.simps Let_def latest seen using that(1) by simp
    with w f that(1) show ?thesis by auto
  qed
  have go: ?case if n: "\<not> (int (length V) - int p > limit \<and> bounds_from V p \<noteq> {})"
  proof -
    have nb: "?b \<longrightarrow> int (length V) - int p \<le> limit"
      using n b bounds_from_step[of V p] by fastforce
    then have cand: "(if ?b then int i else fitting_at limit V (Suc p)) = fitting_at limit V p"
      unfolding fitting_at_step[of limit V p] b using v b by auto
    have "flagScan limit (int (length V) - int (Suc p)) (latest_at V (Suc p)) (fitting_at limit V (Suc p)) (rev (take (Suc p) V))
       = flagScan limit (int (length V) - int p) (latest_at V p) (fitting_at limit V p) (rev (take p V))"
      unfolding list flagScan.simps Let_def latest seen cand using nb n by (auto simp flip: not_less)
    with Suc n show ?thesis by simp
  qed
  show ?case using stop go by blast
qed simp

section \<open>Fused and staged compaction agree\<close>

lemma visible_projects:
  assumes "validateSessionEvent e = None"
  shows "case projectEvent e of None \<Rightarrow> \<not> modelVisibleEvent e
    | Some m \<Rightarrow> modelVisibleEvent e \<and> ch_sourceSeq m = ev_seq e \<and> (ch_role m = RoleUser \<longleftrightarrow> ev_type e = EvUserMessage)"
proof -
  obtain d where d: "decoded (ev_type e) (ev_data e) = Some d" if "modelVisibleEvent e"
    using assms by (auto simp: validateSessionEvent_def modelVisibleEvent_def split: if_splits option.splits event_type.splits)
  then have "kind_of d = ev_type e" if "modelVisibleEvent e" using that decoded_kind by blast
  with d show ?thesis
    by (cases "ev_type e"; cases d) (auto simp: projectEvent_def modelVisibleEvent_def plain_message_def Let_def RoleUser_def RoleAssistant_def RoleTool_def)
qed

lemma flags_Cons: "flags k (ev # evs) = (if modelVisibleEvent ev then [(k, ev_type ev = EvUserMessage)] else []) @ flags (Suc k) evs"
  by (simp add: flags_def)

lemma flags_ge: "(i, u) \<in> set (flags k evs) \<Longrightarrow> k \<le> i \<and> i < k + length evs"
  by (auto simp: flags_def dest: in_set_enumerate_eq[THEN iffD1])

lemma messages_aligned:
  assumes "\<forall>e \<in> set evs. validateSessionEvent e = None"
  shows "list_all2 (\<lambda>m v. ch_role m = RoleUser \<longleftrightarrow> snd v) (List.map_filter projectEvent evs) (flags k evs)
    \<and> (\<forall>p < length (flags k evs). List.map_filter projectEvent (drop (fst (flags k evs ! p) - k) evs) = drop p (List.map_filter projectEvent evs))"
  using assms
proof (induction evs arbitrary: k)
  case Nil
  then show ?case by (simp add: flags_def List.map_filter_def)
next
  case (Cons e evs)
  let ?W = "flags (Suc k) evs"
  have IH: "list_all2 (\<lambda>m v. ch_role m = RoleUser \<longleftrightarrow> snd v) (List.map_filter projectEvent evs) ?W"
    "\<And>p. p < length ?W \<Longrightarrow> List.map_filter projectEvent (drop (fst (?W ! p) - Suc k) evs) = drop p (List.map_filter projectEvent evs)"
    using Cons.IH[of "Suc k"] Cons.prems by auto
  have ge: "p < length ?W \<Longrightarrow> Suc k \<le> fst (?W ! p)" for p
    using flags_ge[of "fst (?W ! p)" "snd (?W ! p)" "Suc k" evs] by simp
  then have tl: "p < length ?W \<Longrightarrow> drop (fst (?W ! p) - k) (e # evs) = drop (fst (?W ! p) - Suc k) evs" for p
    by (metis Suc_diff_Suc Suc_le_lessD drop_Suc_Cons)
  show ?case
  proof (cases "projectEvent e")
    case None
    then have "\<not> modelVisibleEvent e" using visible_projects[of e] Cons.prems by simp
    with None IH tl show ?thesis by (simp add: flags_Cons)
  next
    case (Some m)
    then have v: "modelVisibleEvent e" "ch_role m = RoleUser \<longleftrightarrow> ev_type e = EvUserMessage"
      using visible_projects[of e] Cons.prems by simp_all
    with Some IH tl show ?thesis
      by (auto simp: flags_Cons nth_Cons less_Suc_eq_0_disj split: nat.split)
  qed
qed

lemma lastUserIndex_unique:
  assumes "j < length ms" "user_at ms j" "\<forall>i. j < i \<and> i < length ms \<longrightarrow> \<not> user_at ms i"
  shows "lastUserIndex ms = int j"
proof -
  have "Max {i. i < length ms \<and> user_at ms i} = j" using assms by (intro Max_eqI) (auto intro: leI)
  moreover have "\<exists>m \<in> set ms. ch_role m = RoleUser" using assms(1,2) nth_mem by blast
  ultimately show ?thesis by (simp add: lastUserIndex_eq)
qed

lemma last_user_exists:
  assumes "k < length ms" "user_at ms k"
  obtains j where "k \<le> j" "j < length ms" "user_at ms j" "\<forall>i. j < i \<and> i < length ms \<longrightarrow> \<not> user_at ms i"
proof -
  let ?U = "{i. i < length ms \<and> user_at ms i}"
  have fin: "finite ?U" by simp
  have "Max ?U \<in> ?U" using assms fin by (intro Max_in) auto
  moreover have "i \<le> Max ?U" if "i \<in> ?U" for i using fin that by (rule Max_ge)
  ultimately show thesis using assms by (intro that[of "Max ?U"]) (auto simp: leD)
qed

lemma elideBefore_drop:
  assumes "k = 0 \<or> k \<in> turn_starts ms"
  shows "elideBefore c (drop k ms) = drop k (prune_at c (nat (lastUserIndex ms)) ms)"
proof (cases "k = 0")
  case True
  then show ?thesis by (simp add: elideBefore_eq)
next
  case False
  with assms have k: "k < length ms" "user_at ms k" by (auto simp: turn_starts_def)
  then obtain j where j: "k \<le> j" "j < length ms" "user_at ms j" "\<forall>i. j < i \<and> i < length ms \<longrightarrow> \<not> user_at ms i"
    by (rule last_user_exists)
  have "lastUserIndex ms = int j" using j(2-4) by (rule lastUserIndex_unique)
  moreover have "lastUserIndex (drop k ms) = int (j - k)"
  proof (rule lastUserIndex_unique)
    have "\<not> user_at ms (k + i)" if "j - k < i" "i < length ms - k" for i using j(4)[rule_format, of "k + i"] that by linarith
    then show "\<forall>i. j - k < i \<and> i < length (drop k ms) \<longrightarrow> \<not> user_at (drop k ms) i" using k by simp
  qed (use j k in auto)
  moreover have "prune_at c (j - k) (drop k ms) = drop k (prune_at c j ms)"
    by (intro nth_equalityI) (auto simp: prune_at_nth)
  ultimately show ?thesis by (simp add: elideBefore_eq)
qed

lemma max_or_minus_zero: "finite B \<Longrightarrow> B \<noteq> {} \<Longrightarrow> max_or (B - {0}) = Max B"
proof -
  assume B: "finite B" "B \<noteq> {}"
  show ?thesis
  proof (cases "B - {0} = {}")
    case True
    with B(2) have "B = {0}" by blast
    then show ?thesis by (simp add: max_or_def)
  next
    case False
    then have "Max (B - {0}) \<in> B - {0}" using B(1) by (intro Max_in) auto
    then have "Max B = Max (B - {0})" using B(1) False by (intro Max_eqI) (auto intro: Max_ge simp: Max_ge_iff)
    with False show ?thesis by (simp add: max_or_def)
  qed
qed

lemma recentStart_eq:
  assumes valid: "\<forall>e \<in> set evs. validateSessionEvent e = None" and none: "\<forall>e \<in> set evs. ev_type e \<noteq> EvContextSummary"
    and ms: "ms = List.map_filter projectEvent evs" and tail: "ms \<noteq> [] \<longrightarrow> ch_role (last ms) \<noteq> RoleUser"
  shows "\<exists>f. recentStart c evs = Some f \<and> List.map_filter projectEvent (drop f evs) = drop (keep_point c ms) ms \<and> (f < length evs \<or> evs = [] \<and> f = 0)"
proof (cases "rt_maxMessages c > 0")
  case False
  then show ?thesis by (auto simp: recentStart_def keep_point_def ms)
next
  case True
  let ?L = "rt_maxMessages c" and ?V = "flags 0 evs"
  let ?B = "bounds_from ?V 0" and ?F = "fits_from ?L ?V 0"
  note al = messages_aligned[OF valid, of 0, folded ms]
  then have len: "length ms = length ?V" and role: "\<And>p. p < length ?V \<Longrightarrow> user_at ms p \<longleftrightarrow> snd (?V ! p)"
    by (auto simp: list_all2_conv_all_nth)
  have dropV: "List.map_filter projectEvent (drop (fst (?V ! p)) evs) = drop p ms" "fst (?V ! p) < length evs" if "p < length ?V" for p
    using al that flags_ge[of "fst (?V ! p)" "snd (?V ! p)" 0 evs] by simp_all
  have lastu: "\<not> snd (?V ! p)" if "p < length ?V" "\<not> p + 1 < length ?V" for p
  proof -
    have p: "p = length ms - 1" "ms \<noteq> []" using that len by auto
    then have "ms ! p = last ms" by (simp add: last_conv_nth)
    with role[OF that(1)] tail p(2) show ?thesis by simp
  qed
  have ts: "turn_starts ms = ?B - {0}"
    using role lastu len by (auto simp: turn_starts_def bounds_from_def)
  have inV: "p < length ?V" if "p \<in> ?B" for p using that by (simp add: bounds_from_def)
  have sc: "recentScan ?L 0 (-1) (-1) (rev (enumerate 0 evs)) = Some (int (length ?V) > ?L \<and> ?B \<noteq> {}, latest_at ?V 0, fitting_at ?L ?V 0)"
  proof -
    have s0: "bounds_from ?V (length ?V) = {}" "fits_from ?L ?V (length ?V) = {}"
      by (auto simp: bounds_from_def fits_from_def)
    have "rev ?V = map (\<lambda>(i, ev). (i, ev_type ev = EvUserMessage)) (filter (modelVisibleEvent \<circ> snd) (rev (enumerate 0 evs)))"
      by (simp add: flags_def rev_map rev_filter)
    moreover have "\<forall>(i, ev) \<in> set (rev (enumerate 0 evs)). ev_type ev \<noteq> EvContextSummary"
      using none by (auto simp: in_set_enumerate_eq)
    ultimately have "recentScan ?L 0 (-1) (-1) (rev (enumerate 0 evs)) = Some (flagScan ?L 0 (-1) (-1) (rev ?V))"
      by (simp only: recentScan_flags)
    then show ?thesis using flagScan_spec[of "length ?V" ?V ?L] s0 by (simp add: latest_at_def fitting_at_def)
  qed
  show ?thesis
  proof (cases "int (length ?V) > ?L \<and> ?B \<noteq> {}")
    case False
    then have "keep_point c ms = 0"
      using True len ts by (auto simp: keep_point_def keep_from_def max_or_def fitting_starts_def)
    with sc False True show ?thesis by (auto simp: recentStart_def ms)
  next
    case over: True
    have fs: "fitting_starts c ms = ?F"
      using over by (auto simp: fitting_starts_def ts fits_from_def len)
    define p where "p = (if ?F = {} then Max ?B else Min ?F)"
    have "p \<in> ?B"
    proof (cases "?F = {}")
      case False
      then have "Min ?F \<in> ?F" by (intro Min_in) auto
      moreover have "?F \<subseteq> ?B" by (auto simp: fits_from_def)
      ultimately have "Min ?F \<in> ?B" by (rule rev_subsetD)
      then show ?thesis unfolding p_def if_not_P[OF False] .
    qed (use over in \<open>simp add: p_def\<close>)
    then have p: "p < length ?V" by (rule inV)
    have "keep_point c ms = p"
      using True over len max_or_minus_zero[of ?B] by (simp add: keep_point_def keep_from_def fs ts p_def min_or_def)
    moreover have "recentStart c evs = Some (fst (?V ! p))"
      using True over sc by (simp add: recentStart_def latest_at_def fitting_at_def p_def)
    ultimately show ?thesis using dropV[OF p] by blast
  qed
qed

lemma deriveFull_plain:
  assumes "\<forall>e \<in> set evs. ev_type e \<noteq> EvContextSummary"
  shows "deriveFull evs = Inr (List.map_filter projectEvent evs)"
proof -
  have r: "collectRanges evs = Inr []"
    using assms by (induction evs rule: rev_induct) (simp_all add: collectRanges_def foldr_err_append)
  have "projectLoop [] [] evs = List.map_filter projectEvent evs"
    using assms by (induction evs) (auto simp: emitSummaries_def isShadowed_def List.map_filter_def split: option.split)
  then show ?thesis by (simp add: deriveFull_def r sortRanges_def mergeRanges_def Let_def)
qed

lemma cached_suffix:
  assumes "log_ok evs" "\<forall>e \<in> set evs. validateSessionEvent e = None"
  shows "filter (\<lambda>m. int f \<le> ch_sourceSeq m) (List.map_filter projectEvent evs) = List.map_filter projectEvent (drop f evs)"
proof -
  have src: "filter (\<lambda>m. int f \<le> ch_sourceSeq m) (List.map_filter projectEvent es) = List.map_filter projectEvent (filter (\<lambda>e. int f \<le> ev_seq e) es)"
    if "\<forall>e \<in> set es. validateSessionEvent e = None" for es
    using that
  proof (induction es)
    case (Cons e es)
    then show ?case using visible_projects[of e] by (cases "projectEvent e") auto
  qed (simp add: List.map_filter_def)
  have nth: "\<And>i. i < length evs \<Longrightarrow> ev_seq (evs ! i) = int i" using assms(1) by (simp add: log_ok_def)
  have "filter (\<lambda>e. int f \<le> ev_seq e) (take f evs) = []" "filter (\<lambda>e. int f \<le> ev_seq e) (drop f evs) = drop f evs"
    using nth by (auto simp: filter_empty_conv filter_id_conv in_set_conv_nth)
  then have "filter (\<lambda>e. int f \<le> ev_seq e) evs = drop f evs"
    by (metis append_Nil append_take_drop_id filter_append)
  with src[OF assms(2)] show ?thesis by simp
qed

lemma clone_roles [simp]: "ch_role (cloneChatMessage m) = ch_role m" "ch_sourceSeq (cloneChatMessage m) = ch_sourceSeq m"
  by (simp_all add: cloneChatMessage_def)

lemma fused_at:
  assumes "list_all2 (\<lambda>m m'. ch_role m = ch_role m') ms ms'"
  shows "elideBefore c (drop (keep_point c ms) ms') = compact c ms'"
proof -
  have "keep_point c ms = keep_point c ms'"
    using keep_from_cong[of ms ms' c] assms by (simp add: keep_point_def list_all2_conv_all_nth)
  then show ?thesis using elideBefore_drop[OF keep_point_turn[of c ms']] by (simp add: compact_eq)
qed

text \<open>C23: On a log without summaries the fused path, which scans the events backwards and projects only the
  turns it keeps, gives exactly what the default compactor makes of the full projection, provided the
  conversation does not end in a user message.\<close>
theorem fused_equals_compact:
  assumes "projected opts s" "se_summaryEvents s = 0" "deriveMessages s = Inr (ms, s')" "ms = [] \<or> ch_role (last ms) \<noteq> RoleUser"
  shows "deriveRecentCompacted c s = Some (compact c ms)"
proof -
  let ?evs = "se_events s" and ?p = "List.map_filter projectEvent (se_events s)"
  have ok: "log_valid s" "cache_ok s" using projected_ok[OF assms(1)] by simp_all
  have valid: "\<forall>e \<in> set ?evs. validateSessionEvent e = None" and lo: "log_ok ?evs"
    using ok(1) by (simp_all add: log_valid_def session_ok_def)
  have none: "\<forall>e \<in> set ?evs. ev_type e \<noteq> EvContextSummary"
    using ok(1) assms(2) by (auto simp: log_valid_def session_ok_def filter_empty_conv)
  note full = deriveFull_plain[OF none]
  have ms: "ms = map cloneChatMessage ?p" using deriveMessages_cached[OF ok full] assms(3) by auto
  have tail: "?p \<noteq> [] \<longrightarrow> ch_role (last ?p) \<noteq> RoleUser" using assms(4) by (auto simp: ms last_map)
  obtain f where f: "recentStart c ?evs = Some f" "List.map_filter projectEvent (drop f ?evs) = drop (keep_point c ?p) ?p"
    "f < length ?evs \<or> ?evs = [] \<and> f = 0"
    using recentStart_eq[OF valid none refl tail] by blast
  have out: "elideBefore c (map cloneChatMessage (List.map_filter projectEvent (drop f ?evs))) = compact c ms"
    unfolding f(2) ms drop_map[symmetric] by (rule fused_at) (simp add: list_all2_conv_all_nth)
  show ?thesis
  proof (cases "se_projValid s")
    case True
    then have c: "se_projCount s = length ?evs" "se_projSummaries s = 0" "se_projCache s = ?p"
      using ok(2) assms(2) full by (simp_all add: cache_ok_def)
    have "filter (\<lambda>m. startSeq < 0 \<or> startSeq \<le> ch_sourceSeq m) ?p = List.map_filter projectEvent (drop f ?evs)"
      if "startSeq = (if f < length ?evs then ev_seq (?evs ! f) else -1)" for startSeq
      using f(3) that cached_suffix[OF lo valid, of f] lo by (auto simp: log_ok_def List.map_filter_def)
    then show ?thesis using True c assms(2) f(1) out by (simp add: deriveRecentCompacted_def Let_def)
  next
    case False
    moreover have "\<not> list_ex (\<lambda>ev. ev_type ev = EvContextSummary) (drop f ?evs)"
      using none in_set_dropD by (fastforce simp: list_ex_iff)
    ultimately show ?thesis using assms(2) f(1) out by (simp add: deriveRecentCompacted_def)
  qed
qed

end
