(* ===== verification/Model_Call.thy ===== *)
theory Model_Call
  imports Model_Stream Disclose Compaction
begin

text \<open>
  One call of the model (\<open>src/pkg/core/agent_model_call.go\<close>, \<open>model_gate.go\<close>, \<open>model_context.go\<close>): the context
  for the model is assembled, the identity of the call is validated and authorized by the gate, which mints
  the proof that a trusted adapter demands, and the stream is consumed. The facts: what reaches the adapter
  carries a proof exactly for the call the gate admitted.
\<close>

section \<open>Data\<close>

(* src/pkg/core/model_gate.go:19-22 ModelCallBudget *)
record model_call_budget =
  mb_input :: int
  mb_output :: int

(* src/pkg/core/model_gate.go:26-36 ModelCallRequest *)
record model_call_request =
  mq_principal :: principal
  mq_scope :: scope_path
  mq_session :: string
  mq_run :: string
  mq_step :: int
  mq_provider :: string
  mq_model :: string
  mq_deadline :: gotime
  mq_budget :: model_call_budget

text \<open>A proof is \<open>None\<close> without its seal.\<close>

(* src/pkg/core/llm.go:24-32 GenerateOptions *)
record generate_options =
  go_provider :: string
  go_model :: string
  go_system :: string
  go_messages :: "chat_message list"
  go_tools :: "tool_schema list"
  go_call :: model_call_request
  go_accepted :: "model_call_request option"

text \<open>The messages of a context may be the nil slice.\<close>

(* src/pkg/core/model_context.go:19-31 ModelContext *)
record model_context =
  mc_system :: string
  mc_messages :: "chat_message list option"
  mc_tools :: "tool_schema list"
  mc_window :: int
  mc_output :: int
  mc_inputBytes :: int
  mc_inputTokens :: int
  mc_dropped :: int

datatype 'w context_compactor =
    RecentTurns recent_turns
  | CustomCompactor "chat_message list \<Rightarrow> 'w \<Rightarrow> chat_message list outcome \<times> 'w"

text \<open>
  A summarizer holds the session: it may append to it and forward events to the consumer of the run before
  it returns the messages.
\<close>

(* src/pkg/core/context_summary.go:8-16 RunSummarizer *)
datatype 'w summary_run =
    SummaryReturn "(go_error + chat_message list) outcome" 'w
  | SummaryAppend string append_data 'w "session_error + session_event \<Rightarrow> session \<Rightarrow> 'w \<Rightarrow> 'w summary_run"
  | SummaryEmit session_event 'w "'w \<Rightarrow> 'w summary_run"

(* src/pkg/core/fastrouter.go:6-12 FastRule *)
record 'w fast_rule =
  fr_match :: "(string \<Rightarrow> 'w \<Rightarrow> bool outcome \<times> 'w) option"
  fr_capability :: string
  fr_args :: "(string \<Rightarrow> 'w \<Rightarrow> json_object option outcome \<times> 'w) option"
  fr_answer :: "(capability_result \<Rightarrow> 'w \<Rightarrow> string outcome \<times> 'w) option"
  fr_blockMessage :: string

text \<open>
  The options of an agent that its loop consults beside those of the guard. \<open>ro_disclosed\<close> is set when the
  tools are behind the library; \<open>ro_decode\<close> reads the library's answers; \<open>ro_now\<close> is the wall clock and
  \<open>ro_random\<close> the source of random bytes.
\<close>

(* src/pkg/core/agent.go:33-69 AgentOptions *)
record 'w run_options =
  ro_agent :: "'w agent_options"
  ro_llm :: "generate_options \<Rightarrow> 'w \<Rightarrow> 'w stream"
  ro_limits :: "(int \<times> int) option"
  ro_system :: string
  ro_provider :: string
  ro_model :: string
  ro_deadline :: "gotime option"
  ro_profileSnapshotID :: string
  ro_capabilitySnapshotID :: string
  ro_composition :: "run_composition option"
  ro_gate :: "(model_call_request \<Rightarrow> 'w \<Rightarrow> go_error option outcome \<times> 'w) option"
  ro_assembler :: "(model_context \<Rightarrow> 'w \<Rightarrow> (go_error + model_context) outcome \<times> 'w) option"
  ro_streamChunks :: bool
  ro_compactor :: "'w context_compactor option"
  ro_summarizer :: "(session \<Rightarrow> string \<Rightarrow> chat_message list \<Rightarrow> 'w \<Rightarrow> 'w summary_run) option"
  ro_fast :: "'w fast_rule list option"
  ro_disclosed :: "disclosed_runtime option"
  ro_decode :: "string \<Rightarrow> (string \<times> string) option"
  ro_now :: "'w \<Rightarrow> gotime"
  ro_random :: "'w \<Rightarrow> (go_error + nat list) \<times> 'w"

section \<open>The gate\<close>

(* src/pkg/core/model_gate.go:16-16 MaxModelCallPrincipalMapItems *)
definition MaxModelCallPrincipalMapItems :: nat where "MaxModelCallPrincipalMapItems = 64"

abbreviation MaxRunCompositionMetadataKeyBytes :: nat where
  "MaxRunCompositionMetadataKeyBytes \<equiv> fst (snd composition_metadata_limits)"
abbreviation MaxRunCompositionMetadataValueBytes :: nat where
  "MaxRunCompositionMetadataValueBytes \<equiv> fst (snd (snd composition_metadata_limits))"
abbreviation MaxRunCompositionMetadataBytes :: nat where
  "MaxRunCompositionMetadataBytes \<equiv> snd (snd (snd composition_metadata_limits))"

(* src/pkg/core/agent.go:18-19 DefaultMaxSteps *)
definition DefaultMaxSteps :: int where "DefaultMaxSteps = 10"
definition DefaultMaxToolCalls :: int where "DefaultMaxToolCalls = 16"

(* src/pkg/core/model_gate.go:112-119 containsUnicodeControl *)
definition containsUnicodeControl :: "string \<Rightarrow> bool" where
  "containsUnicodeControl s \<longleftrightarrow> list_ex (\<lambda>(r, _). is_control r) (runes s)"

(* src/pkg/core/model_gate.go:108-110 invalidModelCallClaimKey *)
definition invalidModelCallClaimKey :: "string \<Rightarrow> bool" where
  "invalidModelCallClaimKey k \<longleftrightarrow> blank k \<or> length k > MaxRunCompositionMetadataKeyBytes \<or> \<not> valid_utf8 k \<or> containsUnicodeControl k"

text \<open>The encoded claims; a session keeps a copy of its principal, whose grants are never the nil map.\<close>

definition encoded_claims :: "principal \<Rightarrow> string option" where
  "encoded_claims p = json_record
     [field ''grants'' (Some (json_map_text (map (\<lambda>(k, b). (k, if b then ''true'' else ''false'')) (pr_grants p)))),
      omit_if (pr_attributes p = []) (field ''attributes'' (json_string_map (pr_attributes p)))]"

(* src/pkg/core/model_gate.go:73-106 validateModelCallPrincipalClaims *)
definition validateModelCallPrincipalClaims :: "principal \<Rightarrow> call_fault option" where
  "validateModelCallPrincipalClaims p =
     (if length (pr_grants p) > MaxModelCallPrincipalMapItems then Some TooManyGrants
      else if length (pr_attributes p) > MaxModelCallPrincipalMapItems then Some TooManyAttributes
      else if list_ex (\<lambda>(k, _). invalidModelCallClaimKey k) (pr_grants p) then Some GrantInvalid
      else case check_all (\<lambda>(k, v).
             if invalidModelCallClaimKey k then Some AttributeKeyInvalid
             else if length v > MaxRunCompositionMetadataValueBytes \<or> \<not> valid_utf8 v \<or> containsUnicodeControl v
             then Some (AttributeValueInvalid k) else None) (pr_attributes p) of
        Some f \<Rightarrow> Some f
      | None \<Rightarrow>
          (case encoded_claims p of
             None \<Rightarrow> Some ClaimsNotEncodable
           | Some encoded \<Rightarrow> if length encoded > MaxRunCompositionMetadataBytes then Some ClaimsTooLarge else None))"

definition bad_label :: "nat \<Rightarrow> string \<Rightarrow> bool" where
  "bad_label limit v \<longleftrightarrow> blank v \<or> length v > limit \<or> contains_any v [CHR 0x0D, CHR 0x0A, CHR 0x00]"

(* src/pkg/core/model_gate.go:38-71 Validate *)
definition validateModelCall :: "model_call_request \<Rightarrow> call_fault option" where
  "validateModelCall r =
     (if mq_scope r = [] then Some CallScopeEmpty
      else if \<not> validateSessionID (mq_session r) then Some CallSessionInvalid
      else if \<not> validateRunID (mq_run r) then Some CallRunInvalid
      else if mq_step r < 0 \<or> mq_step r > HardMaxSteps then Some CallStepInvalid
      else if bad_label 256 (mq_provider r) \<or> bad_label 256 (mq_model r) then Some CallLabelInvalid
      else if mb_input (mq_budget r) < 0 \<or> mb_output (mq_budget r) < 0 then Some CallBudgetNegative
      else if bad_label 512 (pr_tenant (mq_principal r)) \<or> bad_label 512 (pr_subject (mq_principal r)) then Some CallPrincipalInvalid
      else case validateModelCallPrincipalClaims (mq_principal r) of
             Some f \<Rightarrow> Some f
           | None \<Rightarrow> if \<not> isAncestorOf (pr_scope (mq_principal r)) (mq_scope r) then Some CallScopeForeign else None)"

(* src/pkg/core/model_gate.go:208-211 cloneModelCallRequest *)
definition cloneModelCallRequest :: "model_call_request \<Rightarrow> model_call_request" where
  "cloneModelCallRequest r = r\<lparr> mq_principal := clonePrincipal (mq_principal r) \<rparr>"

(* src/pkg/core/model_gate.go:158-160 mintAcceptedModelCall *)
definition mintAcceptedModelCall :: "model_call_request \<Rightarrow> model_call_request option" where
  "mintAcceptedModelCall r = Some (cloneModelCallRequest r)"

(* src/pkg/core/model_gate.go:181-186 sameModelCallRequest *)
definition sameModelCallRequest :: "model_call_request \<Rightarrow> model_call_request \<Rightarrow> bool" where
  "sameModelCallRequest l r \<longleftrightarrow> mq_session l = mq_session r \<and> mq_run l = mq_run r \<and> mq_step l = mq_step r
     \<and> mq_provider l = mq_provider r \<and> mq_model l = mq_model r \<and> scopeEqual (mq_scope l) (mq_scope r)
     \<and> samePrincipal (mq_principal l) (mq_principal r) \<and> mq_deadline l = mq_deadline r \<and> mq_budget l = mq_budget r"

datatype accepted_call_error = CallProofMissing | CallProofInvalid | CallProofBinding | CallProofIdentity

(* src/pkg/core/model_gate.go:165-179 RequireAcceptedModelCall *)
definition requireAcceptedModelCall :: "generate_options \<Rightarrow> accepted_call_error option" where
  "requireAcceptedModelCall g =
     (case go_accepted g of
        None \<Rightarrow> Some CallProofMissing
      | Some admitted \<Rightarrow>
          if validateModelCall (go_call g) \<noteq> None then Some CallProofInvalid
          else if go_provider g \<noteq> mq_provider (go_call g) \<or> go_model g \<noteq> mq_model (go_call g) then Some CallProofBinding
          else if \<not> sameModelCallRequest admitted (go_call g) then Some CallProofIdentity
          else None)"

(* src/pkg/core/model_gate.go:213-223 safeAuthorizeModelCall *)
definition safeAuthorizeModelCall :: "(model_call_request \<Rightarrow> 'w \<Rightarrow> go_error option outcome \<times> 'w) \<Rightarrow> model_call_request
    \<Rightarrow> ('w, go_error option) act" where
  "safeAuthorizeModelCall gate r = do {
     x \<leftarrow> foreign (gate (cloneModelCallRequest r));
     ret (safeCallError ''model call gate panicked'' x) }"

definition call_error :: "'w agent_options \<Rightarrow> call_fault \<Rightarrow> go_error" where
  "call_error opts f = plain_error (ao_text opts (ModelCallFault f))"

definition wrap_error :: "string \<Rightarrow> go_error \<Rightarrow> go_error" where
  "wrap_error before e = e\<lparr> er_text := before @ er_text e \<rparr>"

definition done_error :: "string \<Rightarrow> go_error" where
  "done_error why = \<lparr> er_text = why, er_cancelled = True, er_retryable = False \<rparr>"

text \<open>For callers outside the loop; the gate may be absent.\<close>

(* src/pkg/core/model_gate.go:130-147 PrepareAcceptedModelCall *)
definition prepareAcceptedModelCall :: "'w run_options \<Rightarrow> model_call_request \<Rightarrow> ('w, go_error + model_call_request option) act" where
  "prepareAcceptedModelCall ro r =
     (case validateModelCall r of
        Some f \<Rightarrow> ret (Inl (wrap_error ''model call request: '' (call_error (ro_agent ro) f)))
      | None \<Rightarrow> do {
          w \<leftarrow> gets ag_world;
          case ao_done (ro_agent ro) w of
            Some why \<Rightarrow> ret (Inl (done_error why))
          | None \<Rightarrow>
              (case ro_gate ro of
                 None \<Rightarrow> ret (Inr None)
               | Some gate \<Rightarrow> do {
                   denied \<leftarrow> safeAuthorizeModelCall gate r;
                   ret (case denied of
                          Some e \<Rightarrow> Inl (wrap_error ''model call gate: '' e)
                        | None \<Rightarrow> Inr (mintAcceptedModelCall r)) }) })"

section \<open>The context\<close>

(* src/pkg/core/model_context.go:9-12 conservativeContextWindowTokens *)
definition conservativeContextWindowTokens :: int where "conservativeContextWindowTokens = 32768"
definition conservativeMaxOutputTokens :: int where "conservativeMaxOutputTokens = 4096"

(* src/pkg/core/model_context.go:41-49 modelContextLimits *)
definition modelContextLimits :: "(int \<times> int) option \<Rightarrow> int \<times> int" where
  "modelContextLimits limits =
     (case limits of
        Some (window, out) \<Rightarrow>
          if window > 0 \<and> out > 0 \<and> out < window then (window, out)
          else (conservativeContextWindowTokens, conservativeMaxOutputTokens)
      | None \<Rightarrow> (conservativeContextWindowTokens, conservativeMaxOutputTokens))"

definition assembly_error :: "string \<Rightarrow> go_error" where
  "assembly_error why = plain_error (''model context assembly failed: '' @ why)"

text \<open>What an assembler may return for a request.\<close>

(* src/pkg/core/model_context.go:78-80 safeAssembleModelContext *)
definition assembled_ok :: "model_context \<Rightarrow> model_context \<Rightarrow> bool" where
  "assembled_ok rq r \<longleftrightarrow> mc_system r = mc_system rq \<and> mc_window r = mc_window rq \<and> mc_output r = mc_output rq
     \<and> mc_messages r \<noteq> None \<and> 0 \<le> mc_inputBytes r \<and> mc_inputBytes r \<le> int MaxSessionEventDataBytes
     \<and> 0 \<le> mc_inputTokens r \<and> mc_inputTokens r \<le> int MaxSessionEventDataBytes
     \<and> 0 \<le> mc_dropped r \<and> mc_dropped r \<le> int (length (case mc_messages rq of None \<Rightarrow> [] | Some ms \<Rightarrow> ms))"

definition cloned_messages :: "model_context \<Rightarrow> chat_message list" where
  "cloned_messages r = map cloneChatMessage (case mc_messages r of None \<Rightarrow> [] | Some ms \<Rightarrow> ms)"

(* src/pkg/core/model_context.go:51-84 safeAssembleModelContext *)
definition safeAssembleModelContext :: "'w run_options \<Rightarrow> model_context \<Rightarrow> ('w, go_error + model_context) act" where
  "safeAssembleModelContext ro rq =
     (if mc_window rq \<le> 0 \<or> mc_output rq \<le> 0 \<or> mc_output rq \<ge> mc_window rq \<or> length (mc_system rq) > MaxSessionEventDataBytes
      then ret (Inl (assembly_error ''invalid request''))
      else do {
        w \<leftarrow> gets ag_world;
        case ao_done (ro_agent ro) w of
          Some why \<Rightarrow> ret (Inl (wrap_error ''model context assembly failed: '' (done_error why)))
        | None \<Rightarrow>
            let plain = rq\<lparr> mc_messages := Some (cloned_messages rq), mc_tools := [], mc_inputBytes := 0, mc_inputTokens := 0, mc_dropped := 0 \<rparr> in
            (case ro_assembler ro of
               None \<Rightarrow> ret (Inr plain)
             | Some assemble \<Rightarrow> do {
                 x \<leftarrow> foreign (assemble (plain\<lparr> mc_tools := cloneToolSchemas (mc_tools rq) \<rparr>));
                 ret (case x of
                        Panics \<Rightarrow> Inl (assembly_error ''assembler panic'')
                      | Returns (Inl e) \<Rightarrow> Inl (wrap_error ''model context assembly failed: '' e)
                      | Returns (Inr r) \<Rightarrow>
                          if \<not> assembled_ok rq r then Inl (assembly_error ''invalid result'')
                          else Inr (r\<lparr> mc_messages := Some (cloned_messages r), mc_tools := [] \<rparr>)) }) })"

section \<open>The call\<close>

definition emptyStream :: stream_result where
  "emptyStream = \<lparr> mr_usageReported = False, mr_text = [], mr_calls = [], mr_usage = noUsage, mr_finish = [] \<rparr>"

(* src/pkg/core/agent_model_call.go:16-21 callModel *)
definition offeredTools :: "'w run_options \<Rightarrow> chat_message list \<Rightarrow> tool_schema list" where
  "offeredTools ro messages =
     (case ro_disclosed ro of
        Some d \<Rightarrow> schemasForMessages (ro_decode ro) d messages
      | None \<Rightarrow> safeCallValue [] (rt_schemas (ao_tools (ro_agent ro))))"

(* src/pkg/core/agent_model_call.go:42-48 callModel *)
definition modelRequest :: "'w run_options \<Rightarrow> session \<Rightarrow> run_info \<Rightarrow> int \<Rightarrow> model_call_request" where
  "modelRequest ro s info step =
     \<lparr> mq_principal = ri_principal info, mq_scope = se_scope s, mq_session = ri_session info, mq_run = ri_run info,
       mq_step = step, mq_provider = ro_provider ro, mq_model = ro_model ro,
       mq_deadline = (case ro_deadline ro of None \<Rightarrow> 0 | Some t \<Rightarrow> t), mq_budget = \<lparr> mb_input = 0, mb_output = 0 \<rparr> \<rparr>"

(* src/pkg/core/agent_model_call.go:49-64 callModel *)
definition gateCall :: "'w run_options \<Rightarrow> model_call_request \<Rightarrow> ('w, go_error + model_call_request option) act" where
  "gateCall ro rq =
     (case validateModelCallPrincipalClaims (mq_principal rq) of
        Some f \<Rightarrow> ret (Inl (call_error (ro_agent ro) f))
      | None \<Rightarrow>
          (case ro_gate ro of
             None \<Rightarrow> ret (Inr None)
           | Some gate \<Rightarrow>
               (case validateModelCall rq of
                  Some f \<Rightarrow> ret (Inl (call_error (ro_agent ro) f))
                | None \<Rightarrow> do {
                    denied \<leftarrow> safeAuthorizeModelCall gate rq;
                    ret (case denied of Some e \<Rightarrow> Inl e | None \<Rightarrow> Inr (mintAcceptedModelCall rq)) })))"

text \<open>Everything before the adapter is called: the options it is called with, or the failure.\<close>

(* src/pkg/core/agent_model_call.go:13-69 callModel *)
definition prepareModelCall :: "'w run_options \<Rightarrow> run_info \<Rightarrow> int \<Rightarrow> chat_message list \<Rightarrow> ('w, string \<times> go_error + generate_options) act" where
  "prepareModelCall ro info step messages = do {
     s \<leftarrow> gets ag_session;
     let (window, out) = modelContextLimits (ro_limits ro);
     let tools = offeredTools ro messages;
     assembled \<leftarrow> safeAssembleModelContext ro \<lparr> mc_system = ro_system ro, mc_messages = Some messages, mc_tools = tools,
       mc_window = window, mc_output = out, mc_inputBytes = 0, mc_inputTokens = 0, mc_dropped = 0 \<rparr>;
     case assembled of
       Inl e \<Rightarrow> ret (Inl (''model_context_failed'', e))
     | Inr c \<Rightarrow> do {
         let rq = modelRequest ro s info step;
         admitted \<leftarrow> gateCall ro rq;
         ret (case admitted of
                Inl e \<Rightarrow> Inl (''model_gate_rejected'', e)
              | Inr proof_of \<Rightarrow> Inr \<lparr> go_provider = ro_provider ro, go_model = ro_model ro, go_system = mc_system c,
                  go_messages = (case mc_messages c of None \<Rightarrow> [] | Some ms \<Rightarrow> ms), go_tools = tools,
                  go_call = rq, go_accepted = proof_of \<rparr>) } }"

text \<open>The result, the failure code and the error.\<close>

(* src/pkg/core/agent_model_call.go:13-91 callModel *)
definition callModel :: "'w run_options \<Rightarrow> run_info \<Rightarrow> int \<Rightarrow> chat_message list \<Rightarrow> ('w, stream_result \<times> string \<times> go_error option) act" where
  "callModel ro info step messages = do {
     prepared \<leftarrow> prepareModelCall ro info step messages;
     case prepared of
       Inl (code, e) \<Rightarrow> ret (emptyStream, code, Some e)
     | Inr g \<Rightarrow> do {
         w \<leftarrow> gets ag_world;
         (stream, err) \<leftarrow> consumeModelStream (ro_agent ro) (ro_llm ro g w) (Some (\<lambda>chunk.
            if ro_streamChunks ro \<and> sk_text chunk \<noteq> []
            then do { e \<leftarrow> appendOne (ro_agent ro) (ri_run info) (DAssistantChunk (sk_text chunk)); ret (Returns e) }
            else ret (Returns None)));
         ret (stream, (case err of None \<Rightarrow> [] | Some _ \<Rightarrow> ''model_failed''), err) } }"

section \<open>The proof of a model call\<close>

lemma safeCallError_None: "safeCallError m x = None \<longleftrightarrow> x = Returns None"
  by (cases x) auto

lemma gateCall_accepts:
  assumes "run_state (gateCall ro rq) a = (Inr p, b)"
  shows "case ro_gate ro of
      None \<Rightarrow> p = None
    | Some gate \<Rightarrow> validateModelCall rq = None \<and> p = Some (cloneModelCallRequest rq)
        \<and> (\<exists>w w'. gate (cloneModelCallRequest rq) w = (Returns None, w'))"
  using assms
  by (auto simp: gateCall_def safeAuthorizeModelCall_def mintAcceptedModelCall_def safeCallError_None
      split: option.splits prod.splits)

lemma sameModelCallRequest_refl: "clonePrincipal (mq_principal r) = mq_principal r \<Longrightarrow> sameModelCallRequest r r"
  using samePrincipal_refl[OF clonePrincipal_wf[of "mq_principal r"]]
  by (simp add: sameModelCallRequest_def scopeEqual_iff)

text \<open>C11: What reaches a model adapter names exactly the call of this run and step. With a gate it carries the
  proof an adapter demands, for a valid call which that gate has been asked for and has admitted; without a
  gate it carries none. The principal is a copy, as the session hands it out.
\<close>
theorem model_call_proof:
  assumes "run_state (prepareModelCall ro info step messages) a = (Inr g, b)"
    and "clonePrincipal (ri_principal info) = ri_principal info"
  shows "go_call g = modelRequest ro (ag_session a) info step
    \<and> (case ro_gate ro of
         None \<Rightarrow> requireAcceptedModelCall g = Some CallProofMissing
       | Some gate \<Rightarrow> requireAcceptedModelCall g = None \<and> go_accepted g = Some (go_call g)
           \<and> (\<exists>w w'. gate (go_call g) w = (Returns None, w')))"
proof -
  let ?rq = "modelRequest ro (ag_session a) info step"
  have same: "cloneModelCallRequest ?rq = ?rq" "sameModelCallRequest ?rq ?rq"
    using assms(2) by (auto simp: cloneModelCallRequest_def modelRequest_def intro!: sameModelCallRequest_refl)
  from assms(1) obtain c admitted where gate: "run_state (gateCall ro ?rq) c = (Inr admitted, b)"
    and g: "go_call g = ?rq" "go_accepted g = admitted" "go_provider g = mq_provider ?rq" "go_model g = mq_model ?rq"
    by (auto simp: prepareModelCall_def Let_def modelRequest_def split: prod.splits sum.splits)
  show ?thesis
    using gateCall_accepts[OF gate] same g by (auto simp: requireAcceptedModelCall_def split: option.splits)
qed

text \<open>
  A request prepared elsewhere may list a denied permission; the copy in the proof drops it, so the proof is
  refused for the very request the gate admitted.
\<close>

lemma denied_grant_refused:
  assumes "validateModelCall r = None" "pr_grants (mq_principal r) = [(p, False)]"
  shows "requireAcceptedModelCall \<lparr> go_provider = mq_provider r, go_model = mq_model r, go_system = [], go_messages = [],
    go_tools = [], go_call = r, go_accepted = mintAcceptedModelCall r \<rparr> = Some CallProofIdentity"
  using assms by (simp add: requireAcceptedModelCall_def mintAcceptedModelCall_def cloneModelCallRequest_def
      sameModelCallRequest_def samePrincipal_def clonePrincipal_def clonePermissions_def)

end
