(* ===== verification/Agent_Loop.thy ===== *)
theory Agent_Loop
  imports Model_Call
begin

text \<open>
  The turn loop of an agent (\<open>src/pkg/core/agent.go\<close>, \<open>fastrouter.go\<close>, \<open>agent_entrypoints.go\<close>): a turn logs its
  start and the user's message, tries the fast routes, and otherwise alternates model steps and tool calls
  until the model stops, a limit is reached, an approval is needed or something fails. A suspended turn is
  resumed from its log, and a turn whose process was lost after a tool result is continued from there.

  The loop of the code is a mutual recursion of \<open>runModelSteps\<close> and \<open>continueToolCalls\<close> that raises the step
  each time; here the second takes the rest of the run as an argument and the first recurses on the step,
  which the limit bounds.
\<close>

section \<open>Ending a turn\<close>

(* src/pkg/core/agent.go:90-94 TurnResult *)
record turn_result =
  tn_run :: string
  tn_status :: run_status
  tn_answer :: string

type_synonym turn = "turn_result \<times> go_error option"

definition emptyTurn :: turn_result where
  "emptyTurn = \<lparr> tn_run = [], tn_status = [], tn_answer = [] \<rparr>"

definition refuse :: "'w run_options \<Rightarrow> turn_fault \<Rightarrow> turn" where
  "refuse ro f = (emptyTurn, Some (plain_error (ao_text (ro_agent ro) (TurnFault f))))"

abbreviation log1 :: "'w run_options \<Rightarrow> string \<Rightarrow> event_data \<Rightarrow> ('w, go_error option) act" where
  "log1 ro \<equiv> appendOne (ro_agent ro)"

(* src/pkg/core/agent.go:880-887 isRetryable *)
definition isRetryable :: "go_error \<Rightarrow> bool" where
  "isRetryable e \<longleftrightarrow> \<not> er_cancelled e \<and> er_retryable e"

(* src/pkg/core/agent.go:777-789 notifyRunEnd *)
definition notifyRunEnd :: "'w run_options \<Rightarrow> run_info \<Rightarrow> run_status \<Rightarrow> ('w, unit) act" where
  "notifyRunEnd ro info status =
     (case ao_hooks (ro_agent ro) of None \<Rightarrow> ret () | Some h \<Rightarrow> notify (hk_runEnd h info status))"

definition notifyAfterStep :: "'w run_options \<Rightarrow> run_info \<Rightarrow> ('w, unit) act" where
  "notifyAfterStep ro info =
     (case ao_hooks (ro_agent ro) of None \<Rightarrow> ret () | Some h \<Rightarrow> notify (hk_afterStep h info))"

definition turn_of :: "run_info \<Rightarrow> run_status \<Rightarrow> session \<Rightarrow> turn_result" where
  "turn_of info status s = \<lparr> tn_run = ri_run info, tn_status = status, tn_answer = lastAssistantText (rev (se_events s)) (ri_run info) \<rparr>"

(* src/pkg/core/agent.go:753-761 complete *)
definition complete :: "'w run_options \<Rightarrow> run_info \<Rightarrow> run_status \<Rightarrow> ('w, turn) act" where
  "complete ro info status = do {
     failed \<leftarrow> log1 ro (ri_run info) (DRunEnd status);
     case failed of
       Some e \<Rightarrow> ret (emptyTurn, Some e)
     | None \<Rightarrow> do {
         notifyRunEnd ro info status;
         s \<leftarrow> gets ag_session;
         ret (turn_of info status s, None) } }"

(* src/pkg/core/agent.go:763-774 fail *)
definition failTurn :: "'w run_options \<Rightarrow> run_info \<Rightarrow> string \<Rightarrow> go_error \<Rightarrow> bool \<Rightarrow> ('w, turn) act" where
  "failTurn ro info code cause retryable = do {
     let status = (if er_cancelled cause then RunCancelled else RunFailed);
     _ \<leftarrow> log1 ro (ri_run info) (DRunError (newRuntimeErrorData code (Some (er_text cause)) retryable));
     _ \<leftarrow> log1 ro (ri_run info) (DRunEnd status);
     notifyRunEnd ro info status;
     s \<leftarrow> gets ag_session;
     ret (turn_of info status s, Some cause) }"

definition appendFailed :: "'w run_options \<Rightarrow> run_info \<Rightarrow> go_error \<Rightarrow> ('w, turn) act" where
  "appendFailed ro info e = failTurn ro info ''event_append_failed'' e False"

text \<open>A failed step is recorded before the run fails.\<close>

definition failStep :: "'w run_options \<Rightarrow> run_info \<Rightarrow> string \<Rightarrow> go_error \<Rightarrow> bool \<Rightarrow> ('w, turn) act" where
  "failStep ro info code e retryable = do {
     _ \<leftarrow> log1 ro (ri_run info) (DStepError (newRuntimeErrorData code (Some (er_text e)) retryable));
     failTurn ro info code e retryable }"

(* src/pkg/core/agent.go:806-814 completeStep *)
definition completeStep :: "'w run_options \<Rightarrow> run_info \<Rightarrow> run_status \<Rightarrow> ('w, turn) act" where
  "completeStep ro info status = do {
     failed \<leftarrow> log1 ro (ri_run info) (DStepEnd (ri_step info));
     case failed of
       Some e \<Rightarrow> appendFailed ro info e
     | None \<Rightarrow> do { notifyAfterStep ro info; complete ro info status } }"

(* src/pkg/core/agent.go:802-804 usageLimitReached *)
definition usageLimitReached :: "token_usage \<Rightarrow> bool" where
  "usageLimitReached u \<longleftrightarrow> tu_input u \<ge> MaxReportedTokensPerRun \<or> tu_output u \<ge> MaxReportedTokensPerRun"

definition limitReached :: "run_info \<Rightarrow> ('w, bool) act" where
  "limitReached info = gets (\<lambda>a. usageLimitReached (runUsageTotal (ag_session a) (ri_run info)))"

section \<open>Approvals\<close>

(* src/pkg/core/agent.go:842-853 approvalResolutionCallID *)
fun approvalResolutionCallID :: "session_event list \<Rightarrow> string \<Rightarrow> string \<Rightarrow> string" where
  "approvalResolutionCallID [] runID approvalID = ''unknown''"
| "approvalResolutionCallID (ev # evs) runID approvalID =
     (if ev_runID ev \<noteq> runID \<or> ev_type ev \<noteq> EvApprovalRequested then approvalResolutionCallID evs runID approvalID
      else case decoded (ev_type ev) (ev_data ev) of
             Some (DApprovalRequested d) \<Rightarrow>
               if aq_approvalID d = approvalID then tc_id (aq_toolCall d) else approvalResolutionCallID evs runID approvalID
           | _ \<Rightarrow> approvalResolutionCallID evs runID approvalID)"

fun logResolutions :: "'w run_options \<Rightarrow> string \<Rightarrow> (string \<times> approval_resolution) list \<Rightarrow> ('w, go_error option) act" where
  "logResolutions ro runID [] = ret None"
| "logResolutions ro runID ((i, r) # rest) = do {
     a \<leftarrow> gets id;
     failed \<leftarrow> log1 ro runID (DApprovalResolved
       \<lparr> av_approvalID = i, av_callID = approvalResolutionCallID (se_events (ag_session a)) runID i, av_decision = as_decision r,
         av_resolvedAt = (if as_decidedAt r = 0 then ro_now ro (ag_world a) else as_decidedAt r), av_resolvedBy = as_decidedBy r \<rparr>);
     case failed of
       Some e \<Rightarrow> ret (Some e)
     | None \<Rightarrow> do {
         modify (\<lambda>a. a\<lparr> ag_resolutions := mdel i (ag_resolutions a) \<rparr>);
         logResolutions ro runID rest } }"

(* src/pkg/core/agent.go:816-840 appendApprovalResolutions *)
definition appendApprovalResolutions :: "'w run_options \<Rightarrow> string \<Rightarrow> ('w, go_error option) act" where
  "appendApprovalResolutions ro runID = do {
     rs \<leftarrow> gets ag_resolutions;
     logResolutions ro runID (sort_key fst rs) }"

definition waiting :: "run_info \<Rightarrow> turn" where
  "waiting info = (\<lparr> tn_run = ri_run info, tn_status = RunWaitingApproval, tn_answer = [] \<rparr>, None)"

(* src/pkg/core/agent.go:855-878 pauseForApproval *)
definition pauseForApproval :: "'w run_options \<Rightarrow> run_info \<Rightarrow> approval_request \<times> approval_resolution \<Rightarrow> tool_call \<Rightarrow> tool_call list
    \<Rightarrow> bool \<Rightarrow> ('w, turn) act" where
  "pauseForApproval ro info pending resumeCall remaining fast = do {
     failed \<leftarrow> appendApprovalResolutions ro (ri_run info);
     case failed of
       Some e \<Rightarrow> appendFailed ro info e
     | None \<Rightarrow> do {
         s \<leftarrow> gets ag_session;
         case pendingApproval s (ri_run info) of
           Inl e \<Rightarrow> failTurn ro info ''approval_state_invalid'' (plain_error (ao_text (ro_agent ro) (SessionFault e))) False
         | Inr (Some existing) \<Rightarrow>
             if aq_approvalID existing \<noteq> as_approvalID (snd pending)
             then failTurn ro info ''approval_state_conflict''
               (plain_error (''run already waits for approval '' @ aq_approvalID existing)) False
             else ret (waiting info)
         | Inr None \<Rightarrow> do {
             failed \<leftarrow> log1 ro (ri_run info) (DApprovalRequested
               \<lparr> aq_approvalID = as_approvalID (snd pending), aq_toolCall = ap_call (fst pending), aq_resumeCall = resumeCall,
                 aq_remainingCalls = remaining, aq_step = ri_step info, aq_fast = fast, aq_expiresAt = as_expiresAt (snd pending) \<rparr>);
             case failed of Some e \<Rightarrow> appendFailed ro info e | None \<Rightarrow> ret (waiting info) } } }"

section \<open>Tool calls\<close>

(* src/pkg/core/agent.go:583-591 executeLoggedToolCall *)
definition logResult :: "'w run_options \<Rightarrow> run_info \<Rightarrow> tool_call \<Rightarrow> capability_result \<Rightarrow> ('w, turn option) act" where
  "logResult ro info call result = do {
     failed \<leftarrow> log1 ro (ri_run info) (DToolResult \<lparr> tr_callID = tc_id call, tr_content = cr_content result, tr_ok = cr_ok result,
       tr_metadata = cr_metadata result \<rparr>);
     case failed of
       Some e \<Rightarrow> do { t \<leftarrow> appendFailed ro info e; ret (Some t) }
     | None \<Rightarrow> do {
         failed \<leftarrow> appendApprovalResolutions ro (ri_run info);
         case failed of
           Some e \<Rightarrow> do { t \<leftarrow> appendFailed ro info e; ret (Some t) }
         | None \<Rightarrow> ret None } }"

text \<open>\<open>Some\<close> turn when the run stops here.\<close>

(* src/pkg/core/agent.go:570-592 executeLoggedToolCall *)
definition executeLoggedToolCall :: "'w run_options \<Rightarrow> run_info \<Rightarrow> tool_call \<Rightarrow> tool_call list \<Rightarrow> bool \<Rightarrow> ('w, turn option) act" where
  "executeLoggedToolCall ro info call remaining fast = do {
     (result, err) \<leftarrow> execute (ro_agent ro) call;
     w \<leftarrow> gets ag_world;
     case isApprovalPending err of
       Some pending \<Rightarrow> do { t \<leftarrow> pauseForApproval ro info pending call remaining fast; ret (Some t) }
     | None \<Rightarrow>
         (case err of
            None \<Rightarrow> logResult ro info call result
          | Some e \<Rightarrow>
              if er_cancelled (error_of e) \<and> ao_done (ro_agent ro) w \<noteq> None
              then do { t \<leftarrow> failTurn ro info ''tool_cancelled'' (error_of e) False; ret (Some t) }
              else logResult ro info call
                \<lparr> cr_content = boundedText (er_text (error_of e)) (nat DefaultMaxCapabilityOutputBytes), cr_ok = False, cr_metadata = None \<rparr>) }"

definition budget_notice :: string where
  "budget_notice = ''Tool call budget reached; the run stopped.''"

(* src/pkg/core/agent.go:542-553 continueToolCalls *)
definition stopAtLimit :: "'w run_options \<Rightarrow> run_info \<Rightarrow> bool \<Rightarrow> bool \<Rightarrow> ('w, turn) act" where
  "stopAtLimit ro info announceLimit notifyLimit = do {
     failed \<leftarrow> (if announceLimit
       then log1 ro (ri_run info) (DAssistantMessage \<lparr> am_text = budget_notice, am_toolCall = None, am_toolCalls = [] \<rparr>)
       else ret None);
     case failed of
       Some e \<Rightarrow> appendFailed ro info e
     | None \<Rightarrow> do {
         _ \<leftarrow> log1 ro (ri_run info) (DStepEnd (ri_step info));
         (if notifyLimit then notifyAfterStep ro info else ret ());
         complete ro info RunLimited } }"

text \<open>\<open>next\<close> is the rest of the run, from the following step on.\<close>

(* src/pkg/core/agent.go:540-568 continueToolCalls *)
fun continueToolCalls :: "'w run_options \<Rightarrow> run_info \<Rightarrow> bool \<Rightarrow> bool \<Rightarrow> ('w, turn) act \<Rightarrow> tool_call list \<Rightarrow> ('w, turn) act" where
  "continueToolCalls ro info announceLimit notifyLimit next [] = do {
     failed \<leftarrow> log1 ro (ri_run info) (DStepEnd (ri_step info));
     case failed of
       Some e \<Rightarrow> appendFailed ro info e
     | None \<Rightarrow> do { notifyAfterStep ro info; next } }"
| "continueToolCalls ro info announceLimit notifyLimit next (call # rest) = do {
     used \<leftarrow> gets ag_toolCalls;
     if used \<ge> ao_maxToolCalls (ro_agent ro) then stopAtLimit ro info announceLimit notifyLimit
     else do {
       failed \<leftarrow> log1 ro (ri_run info) (DToolCall \<lparr> td_callID = tc_id call, td_name = tc_name call, td_args = tc_args call \<rparr>);
       case failed of
         Some e \<Rightarrow> appendFailed ro info e
       | None \<Rightarrow> do {
           stopped \<leftarrow> executeLoggedToolCall ro info call rest False;
           case stopped of
             Some t \<Rightarrow> ret t
           | None \<Rightarrow> continueToolCalls ro info announceLimit notifyLimit next rest } } }"

section \<open>A model step\<close>

primrec runSummary :: "'w run_options \<Rightarrow> 'w summary_run \<Rightarrow> ('w, go_error + chat_message list) act" where
  "runSummary ro (SummaryReturn r w) = do {
     modify (\<lambda>a. a\<lparr> ag_world := w \<rparr>);
     ret (safeCallValueError ''run summarizer panicked'' r) }"
| "runSummary ro (SummaryAppend runID data w k) = do {
     modify (\<lambda>a. a\<lparr> ag_world := w \<rparr>);
     s \<leftarrow> gets ag_session;
     (case appendEvent (ao_clock (ro_agent ro)) s runID data of
        Inl e \<Rightarrow> runSummary ro (k (Inl e) s w)
      | Inr (ev, s') \<Rightarrow> do {
          modify (\<lambda>a. a\<lparr> ag_session := s' \<rparr>);
          runSummary ro (k (Inr ev) s' w) }) }"
| "runSummary ro (SummaryEmit ev w k) = do {
     modify (\<lambda>a. a\<lparr> ag_world := w \<rparr>);
     _ \<leftarrow> (case ao_onEvent (ro_agent ro) of None \<Rightarrow> ret None | Some f \<Rightarrow> deliverEvents f [ev]);
     w' \<leftarrow> gets ag_world;
     runSummary ro (k w') }"

(* src/pkg/core/agent.go:305-313 runModelSteps *)
definition compactMessages :: "'w run_options \<Rightarrow> chat_message list \<Rightarrow> ('w, go_error + chat_message list) act" where
  "compactMessages ro messages =
     (case ro_compactor ro of
        None \<Rightarrow> ret (Inr messages)
      | Some (RecentTurns c) \<Rightarrow> ret (Inr (compact c messages))
      | Some (CustomCompactor f) \<Rightarrow> do {
          r \<leftarrow> foreign (f messages);
          ret (case r of Returns ms \<Rightarrow> Inr ms | Panics \<Rightarrow> Inl (plain_error ''context compactor panicked'')) })"

definition orCompact :: "'w run_options \<Rightarrow> run_info \<Rightarrow> chat_message list \<Rightarrow> ('w, turn + chat_message list) act" where
  "orCompact ro info messages = do {
     compacted \<leftarrow> compactMessages ro messages;
     case compacted of
       Inl e \<Rightarrow> do { t \<leftarrow> failStep ro info ''compaction_failed'' e False; ret (Inl t) }
     | Inr ms \<Rightarrow> ret (Inr ms) }"

text \<open>The history for the model, or the end of the turn.\<close>

(* src/pkg/core/agent.go:293-314 runModelSteps *)
definition summarizeMessages :: "'w run_options \<Rightarrow> run_info \<Rightarrow> session \<Rightarrow> chat_message list \<Rightarrow> ('w, turn + chat_message list) act" where
  "summarizeMessages ro info s messages =
     (case ro_summarizer ro of
        None \<Rightarrow> orCompact ro info messages
      | Some summarize \<Rightarrow> do {
          w \<leftarrow> gets ag_world;
          summarized \<leftarrow> runSummary ro (summarize s (ri_run info) messages w);
          case summarized of
            Inl e \<Rightarrow> do { t \<leftarrow> failStep ro info ''summarization_failed'' e (isRetryable e); ret (Inl t) }
          | Inr ms \<Rightarrow> do {
              limited \<leftarrow> limitReached info;
              if limited then do { t \<leftarrow> completeStep ro info RunLimited; ret (Inl t) }
              else orCompact ro info ms } })"

(* src/pkg/core/agent.go:287-314 runModelSteps *)
definition fullMessages :: "'w run_options \<Rightarrow> run_info \<Rightarrow> ('w, turn + chat_message list) act" where
  "fullMessages ro info = do {
     s \<leftarrow> gets ag_session;
     case deriveMessages s of
       Inl e \<Rightarrow> do {
         t \<leftarrow> failStep ro info ''history_projection_failed'' (plain_error (ao_text (ro_agent ro) (SessionFault e))) False;
         ret (Inl t) }
     | Inr (messages, s') \<Rightarrow> do {
         modify (\<lambda>a. a\<lparr> ag_session := s' \<rparr>);
         summarizeMessages ro info s' messages } }"

(* src/pkg/core/agent.go:281-314 runModelSteps *)
definition stepMessages :: "'w run_options \<Rightarrow> run_info \<Rightarrow> ('w, turn + chat_message list) act" where
  "stepMessages ro info = do {
     s \<leftarrow> gets ag_session;
     case (ro_summarizer ro, ro_compactor ro) of
       (None, Some (RecentTurns c)) \<Rightarrow>
         (case deriveRecentCompacted c s of
            Some ms \<Rightarrow> ret (Inr ms)
          | None \<Rightarrow> fullMessages ro info)
     | _ \<Rightarrow> fullMessages ro info }"

definition usage_data :: "int \<Rightarrow> token_usage \<Rightarrow> event_data" where
  "usage_data stepStartSeq u = DRunUsage \<lparr> ru_input = tu_input u, ru_output = tu_output u, ru_invocationID = ''model:'' @ int_str stepStartSeq \<rparr>"

definition join_errors :: "go_error \<Rightarrow> go_error \<Rightarrow> go_error" where
  "join_errors e f = \<lparr> er_text = er_text e @ [CHR 0x0A] @ er_text f, er_cancelled = er_cancelled e \<or> er_cancelled f,
     er_retryable = er_retryable e \<or> er_retryable f \<rparr>"

(* src/pkg/core/agent.go:317-328 runModelSteps *)
definition failedCall :: "'w run_options \<Rightarrow> run_info \<Rightarrow> int \<Rightarrow> stream_result \<Rightarrow> string \<Rightarrow> go_error \<Rightarrow> ('w, turn) act" where
  "failedCall ro info stepStartSeq stream code err = do {
     cause \<leftarrow> (if mr_usageReported stream then do {
         failed \<leftarrow> log1 ro (ri_run info) (usage_data stepStartSeq (mr_usage stream));
         ret (case failed of None \<Rightarrow> err | Some e \<Rightarrow> join_errors err e) }
       else ret err);
     if code = ''model_gate_rejected'' then failTurn ro info code cause False
     else failStep ro info code cause (isRetryable cause) }"

(* src/pkg/core/agent.go:329-349 runModelSteps *)
definition answeredCall :: "'w run_options \<Rightarrow> run_info \<Rightarrow> int \<Rightarrow> stream_result \<Rightarrow> ('w, turn) act \<Rightarrow> ('w, turn) act" where
  "answeredCall ro info stepStartSeq stream next = do {
     failed \<leftarrow> appendEntries (ro_agent ro)
       [(ri_run info, Typed (DAssistantMessage \<lparr> am_text = mr_text stream,
           am_toolCall = (case mr_calls stream of [] \<Rightarrow> None | c # _ \<Rightarrow> Some c), am_toolCalls = mr_calls stream \<rparr>)),
        (ri_run info, Typed (usage_data stepStartSeq (mr_usage stream)))];
     case failed of
       Some e \<Rightarrow> appendFailed ro info e
     | None \<Rightarrow> do {
         limited \<leftarrow> limitReached info;
         if limited then completeStep ro info RunLimited
         else if mr_calls stream = [] then completeStep ro info RunCompleted
         else continueToolCalls ro info True True next (mr_calls stream) } }"

(* src/pkg/core/agent.go:262-350 runModelSteps *)
definition modelStep :: "'w run_options \<Rightarrow> run_info \<Rightarrow> ('w, turn) act \<Rightarrow> ('w, turn) act" where
  "modelStep ro info next = do {
     limited \<leftarrow> limitReached info;
     if limited then complete ro info RunLimited
     else do {
       rejected \<leftarrow> (case ao_hooks (ro_agent ro) of
           None \<Rightarrow> ret None
         | Some h \<Rightarrow> do { r \<leftarrow> foreign (hk_beforeStep h info); ret (safeCallError ''run hook OnBeforeStep panicked'' r) });
       case rejected of
         Some e \<Rightarrow> failTurn ro info ''step_rejected'' e False
       | None \<Rightarrow> do {
           failed \<leftarrow> log1 ro (ri_run info) (DStepStart (ri_step info));
           case failed of
             Some e \<Rightarrow> appendFailed ro info e
           | None \<Rightarrow> do {
               stepStartSeq \<leftarrow> gets (\<lambda>a. sessionVersion (ag_session a) - 1);
               messages \<leftarrow> stepMessages ro info;
               case messages of
                 Inl t \<Rightarrow> ret t
               | Inr ms \<Rightarrow> do {
                   (stream, code, err) \<leftarrow> callModel ro info (ri_step info) ms;
                   case err of
                     Some e \<Rightarrow> failedCall ro info stepStartSeq stream code e
                   | None \<Rightarrow> answeredCall ro info stepStartSeq stream next } } } } }"

(* src/pkg/core/agent.go:257-350 runModelSteps *)
function runModelSteps :: "'w run_options \<Rightarrow> run_info \<Rightarrow> int \<Rightarrow> ('w, turn) act" where
  "runModelSteps ro info step =
     (if step \<ge> ao_maxSteps (ro_agent ro) then complete ro info RunLimited
      else modelStep ro (info\<lparr> ri_step := step \<rparr>) (runModelSteps ro (info\<lparr> ri_step := step \<rparr>) (step + 1)))"
  by pat_completeness auto
termination
  by (relation "measure (\<lambda>(ro, _, step). nat (ao_maxSteps (ro_agent ro) - step))") auto

declare runModelSteps.simps [simp del]

end
