(* ===== verification/Agent_Turn.thy ===== *)
theory Agent_Turn
  imports Agent_Loop
begin

text \<open>
  The entry points of an agent (\<open>src/pkg/core/agent.go\<close>, \<open>fastrouter.go\<close>): construction with its limits, a new
  turn with its composition evidence and fast routes, the resumption of a suspended run, and the continuation
  of a run from a durable tool result, whose log must have exactly the shape the loop writes.
\<close>

section \<open>Construction\<close>

text \<open>
  \<open>disclose\<close> is the snapshot behind the tools when \<open>DiscloseTools\<close> is set and they are a snapshot, with what
  its providers run.
\<close>

(* src/pkg/core/agent.go:110-151 NewAgent *)
definition newAgent :: "(string \<Rightarrow> string) \<Rightarrow> (runtime_library \<times> (string \<Rightarrow> protected_request \<Rightarrow> 'w \<Rightarrow> 'w script) \<times> capability_snapshot) option
    \<Rightarrow> 'w run_options \<Rightarrow> fault + 'w run_options" where
  "newAgent lower disclose ro =
     (let opts = ro_agent ro in
      if ao_maxSteps opts < 0 \<or> ao_maxToolCalls opts < 0 \<or> ao_maxSteps opts > HardMaxSteps \<or> ao_maxToolCalls opts > HardMaxToolCalls
      then Inl (TurnFault AgentLimit)
      else case validateRunComposition (ro_composition ro) of
        Some e \<Rightarrow> Inl (CompositionFault e)
      | None \<Rightarrow>
          let opts1 = opts\<lparr> ao_maxSteps := (if ao_maxSteps opts = 0 then DefaultMaxSteps else ao_maxSteps opts),
                            ao_maxToolCalls := (if ao_maxToolCalls opts = 0 then DefaultMaxToolCalls else ao_maxToolCalls opts) \<rparr>;
              ro1 = ro\<lparr> ro_composition := map_option cloneRunCompositionData (ro_composition ro) \<rparr>
          in (case disclose of
                None \<Rightarrow> Inr (ro1\<lparr> ro_agent := opts1, ro_disclosed := None \<rparr>)
              | Some (lib, run, snap) \<Rightarrow>
                  (case discloseToolRuntime lower snap of
                     None \<Rightarrow> Inr (ro1\<lparr> ro_agent := opts1, ro_disclosed := None \<rparr>)
                   | Some d \<Rightarrow> Inr (ro1\<lparr> ro_agent := opts1\<lparr> ao_tools := disclosedTools lib lower run d \<rparr>, ro_disclosed := Some d \<rparr>))))"

section \<open>Composition evidence\<close>

definition emptyComposition :: run_composition where
  "emptyComposition =
     \<lparr> rc_profile = \<lparr> as_id = [], as_profileID = [], as_createdAt = 0, as_scope = [], as_name = [], as_description = [],
         as_model = \<lparr> ms_provider = [], ms_model = [] \<rparr>, as_maxSteps = 0, as_maxToolCalls = 0, as_capabilities = [],
         as_fragments = [], as_metadata = [] \<rparr>,
       rc_capabilities = [], rc_permissions = [], rc_model = \<lparr> ms_provider = [], ms_model = [] \<rparr>,
       rc_resolvedProvider = [], rc_modelRevision = [], rc_maxSteps = 0, rc_maxToolCalls = 0, rc_metadata = [] \<rparr>"

(* src/pkg/core/agent.go:428-433 compositionMetadata *)
definition compositionMetadata :: "run_composition option \<Rightarrow> (string, string) gomap" where
  "compositionMetadata c = (case c of None \<Rightarrow> [] | Some x \<Rightarrow> rc_metadata x)"

(* src/pkg/core/agent.go:435-456 compositionWithMetadata *)
definition compositionWithMetadata :: "run_composition option \<Rightarrow> (string, string) gomap \<Rightarrow> composition_error + run_composition option" where
  "compositionWithMetadata base metadata =
     (case validateRunCompositionMetadata metadata of
        Some e \<Rightarrow> Inl e
      | None \<Rightarrow>
          if base = None \<and> metadata = [] then Inr None
          else let start = (case base of None \<Rightarrow> emptyComposition | Some b \<Rightarrow> cloneRunCompositionData b);
                   out = start\<lparr> rc_metadata := fold (\<lambda>(k, v). mput k v) metadata (rc_metadata start) \<rparr>
               in (case validateRunComposition (Some out) of Some e \<Rightarrow> Inl e | None \<Rightarrow> Inr (Some out)))"

section \<open>Fast routes\<close>

(* src/pkg/core/fastrouter.go:15-21 FastDispatch *)
record fast_dispatch =
  fd_matched :: bool
  fd_blocked :: bool
  fd_call :: "tool_call option"
  fd_result :: "capability_result option"
  fd_answer :: string

definition noDispatch :: fast_dispatch where
  "noDispatch = \<lparr> fd_matched = False, fd_blocked = False, fd_call = None, fd_result = None, fd_answer = [] \<rparr>"

type_synonym dispatch = "fast_dispatch \<times> run_error option"

(* src/pkg/core/session.go:1485-1494 NewID *)
definition newID :: "'w run_options \<Rightarrow> string \<Rightarrow> ('w, go_error + string) act" where
  "newID ro start =
     (if start = [] \<or> length start > 32 \<or> \<not> safe_id start then ret (Inl (plain_error (ao_text (ro_agent ro) (TurnFault IDPrefix))))
      else do {
        r \<leftarrow> foreign (ro_random ro);
        ret (case r of Inl e \<Rightarrow> Inl (wrap_error ''generate id: '' e) | Inr bytes \<Rightarrow> Inr (start @ hex_encode bytes)) })"

(* src/pkg/core/agent.go:729-734 recordFastToolCall *)
definition recordFastToolCall :: "'w run_options \<Rightarrow> tool_call \<Rightarrow> ('w, run_error option) act" where
  "recordFastToolCall ro call = do {
     runID \<leftarrow> gets ag_runID;
     failed \<leftarrow> log1 ro runID (DToolCall \<lparr> td_callID = tc_id call, td_name = tc_name call, td_args = tc_args call \<rparr>);
     ret (map_option (\<lambda>e. FastAppendError (wrap_error (''fast tool call append failed'' @ [CHR 0x0A]) e)) failed) }"

(* src/pkg/core/fastrouter.go:62-75 Dispatch *)
definition runRoute :: "'w run_options \<Rightarrow> 'w fast_rule \<Rightarrow> tool_call \<Rightarrow> ('w, dispatch outcome) act" where
  "runRoute ro rule call =
     (let called = noDispatch\<lparr> fd_matched := True, fd_call := Some call \<rparr> in
      do {
        failed \<leftarrow> recordFastToolCall ro call;
        case failed of
          Some e \<Rightarrow> ret (Returns (called, Some e))
        | None \<Rightarrow> do {
            (result, err) \<leftarrow> execute (ro_agent ro) call;
            case err of
              Some e \<Rightarrow> ret (Returns (called, Some e))
            | None \<Rightarrow> do {
                answer \<leftarrow> (case fr_answer rule of None \<Rightarrow> ret (Returns (cr_content result)) | Some f \<Rightarrow> foreign (f result));
                ret (case answer of
                       Panics \<Rightarrow> Panics
                     | Returns t \<Rightarrow> Returns (called\<lparr> fd_result := Some result, fd_answer := t \<rparr>, None)) } } })"

(* src/pkg/core/fastrouter.go:42-75 Dispatch *)
definition dispatchMatched :: "'w run_options \<Rightarrow> 'w fast_rule \<Rightarrow> string \<Rightarrow> ('w, dispatch outcome) act" where
  "dispatchMatched ro rule input =
     (if \<not> validateNamespacedID (fr_capability rule) \<or> \<not> safeCallValue False (rt_authorized (ao_tools (ro_agent ro)) (fr_capability rule))
      then ret (Returns (noDispatch\<lparr> fd_matched := True, fd_blocked := True,
        fd_answer := (if fr_blockMessage rule = [] then ''This capability is not available for the current principal.'' else fr_blockMessage rule) \<rparr>, None))
      else do {
        args \<leftarrow> (case fr_args rule of
            None \<Rightarrow> ret (Returns (Inr (Some [])))
          | Some f \<Rightarrow> do { r \<leftarrow> foreign (f input); ret (case r of Panics \<Rightarrow> Panics | Returns m \<Rightarrow> Returns (cloneCallArgs m)) });
        case args of
          Panics \<Rightarrow> ret Panics
        | Returns (Inl e) \<Rightarrow> ret (Returns (noDispatch\<lparr> fd_matched := True \<rparr>, Some (OtherError (plain_error (ao_text (ro_agent ro) (CloneFault e))))))
        | Returns (Inr cloned) \<Rightarrow> do {
            callID \<leftarrow> newID ro ''call_'';
            case callID of
              Inl e \<Rightarrow> ret (Returns (noDispatch, Some (OtherError e)))
            | Inr i \<Rightarrow> runRoute ro rule \<lparr> tc_id = i, tc_name = fr_capability rule, tc_args = cloned, tc_continuation = [] \<rparr> } })"

(* src/pkg/core/fastrouter.go:37-78 Dispatch *)
fun dispatchRules :: "'w run_options \<Rightarrow> string \<Rightarrow> 'w fast_rule list \<Rightarrow> ('w, dispatch outcome) act" where
  "dispatchRules ro input [] = ret (Returns (noDispatch, None))"
| "dispatchRules ro input (rule # rules) =
     (case fr_match rule of
        None \<Rightarrow> dispatchRules ro input rules
      | Some f \<Rightarrow> do {
          r \<leftarrow> foreign (f input);
          case r of
            Panics \<Rightarrow> ret Panics
          | Returns hit \<Rightarrow> if hit then dispatchMatched ro rule input else dispatchRules ro input rules })"

section \<open>A new turn\<close>

(* src/pkg/core/agent.go:72-79 TurnInput *)
record turn_input =
  tu_runID :: string
  tu_text :: string
  tu_override :: int
  tu_metadata :: "(string, string) gomap"

definition session_info :: "session \<Rightarrow> string \<Rightarrow> int \<Rightarrow> run_info" where
  "session_info s runID step = \<lparr> ri_run = runID, ri_session = se_id s, ri_profile = se_profileID s, ri_step = step, ri_principal = se_principal s \<rparr>"

definition failure :: "composition_error \<Rightarrow> 'w run_options \<Rightarrow> turn" where
  "failure e ro = (emptyTurn, Some (plain_error (ao_text (ro_agent ro) (CompositionFault e))))"

(* src/pkg/core/agent.go:235-251 RunTurn *)
definition finishRoute :: "'w run_options \<Rightarrow> run_info \<Rightarrow> fast_dispatch \<Rightarrow> ('w, turn) act" where
  "finishRoute ro info d = do {
     stopped \<leftarrow> (case (fd_result d, fd_call d) of
         (Some result, Some call) \<Rightarrow> logResult ro info call result
       | _ \<Rightarrow> ret None);
     case stopped of
       Some t \<Rightarrow> ret t
     | None \<Rightarrow> do {
         failed \<leftarrow> log1 ro (ri_run info) (DAssistantMessage \<lparr> am_text = fd_answer d, am_toolCall = None, am_toolCalls = [] \<rparr>);
         case failed of Some e \<Rightarrow> appendFailed ro info e | None \<Rightarrow> complete ro info RunCompleted } }"

(* src/pkg/core/agent.go:222-254 RunTurn *)
definition routeOrModel :: "'w run_options \<Rightarrow> run_info \<Rightarrow> string \<Rightarrow> ('w, turn) act" where
  "routeOrModel ro info input =
     (case ro_fast ro of
        None \<Rightarrow> runModelSteps ro info 0
      | Some rules \<Rightarrow> do {
          r \<leftarrow> dispatchRules ro input rules;
          case (case r of Returns x \<Rightarrow> x | Panics \<Rightarrow> (noDispatch, Some (OtherError (plain_error ''fast router panicked'')))) of
            (d, None) \<Rightarrow> if fd_matched d then finishRoute ro info d else runModelSteps ro info 0
          | (d, Some err) \<Rightarrow>
              (case (err, isApprovalPending (Some err), fd_call d) of
                 (FastAppendError e, _, _) \<Rightarrow> appendFailed ro info e
               | (_, Some pending, Some call) \<Rightarrow> pauseForApproval ro info pending call [] True
               | _ \<Rightarrow> failTurn ro info ''fast_route_failed'' (error_of err) (isRetryable (error_of err))) })"

(* src/pkg/core/agent.go:206-254 RunTurn *)
definition openTurn :: "'w run_options \<Rightarrow> turn_input \<Rightarrow> run_start_data \<Rightarrow> ('w, turn) act" where
  "openTurn ro input start = do {
     s \<leftarrow> gets ag_session;
     let info = session_info s (tu_runID input) 0;
     failed \<leftarrow> log1 ro (tu_runID input) (DRunStart start);
     case failed of
       Some e \<Rightarrow> ret (emptyTurn, Some e)
     | None \<Rightarrow> do {
         failed \<leftarrow> log1 ro (tu_runID input) (DUserMessage (tu_text input));
         case failed of
           Some e \<Rightarrow> appendFailed ro info e
         | None \<Rightarrow> do {
             rejected \<leftarrow> (case ao_hooks (ro_agent ro) of
                 None \<Rightarrow> ret None
               | Some h \<Rightarrow> do { r \<leftarrow> foreign (hk_runStart h info); ret (safeCallError ''run hook OnRunStart panicked'' r) });
             case rejected of
               Some e \<Rightarrow> failTurn ro info ''input_rejected'' e False
             | None \<Rightarrow> routeOrModel ro info (tu_text input) } } }"

definition fresh_run :: "string \<Rightarrow> string \<Rightarrow> 'w agent \<Rightarrow> 'w agent" where
  "fresh_run runID revision a = a\<lparr> ag_runID := runID, ag_counts := [], ag_toolCalls := 0, ag_resolutions := [], ag_resumeIDs := [],
     ag_revision := revision \<rparr>"

(* src/pkg/core/agent.go:154-255 RunTurn *)
definition runTurn :: "'w run_options \<Rightarrow> turn_input \<Rightarrow> ('w, turn) act" where
  "runTurn ro input =
     (if \<not> validateRunID (tu_runID input) then ret (refuse ro TurnRunID)
      else if tu_text input = [] then ret (refuse ro TurnTextEmpty)
      else if tu_override input < 0 \<or> tu_override input > HardMaxToolCalls then ret (refuse ro TurnOverride)
      else case compositionWithMetadata (ro_composition ro) (tu_metadata input) of
        Inl e \<Rightarrow> ret (failure e ro)
      | Inr composition \<Rightarrow>
          (case compositionRevision composition of
             Inl e \<Rightarrow> ret (failure e ro)
           | Inr revision \<Rightarrow>
               (case compositionMetadataRevision (compositionMetadata composition) of
                  Inl e \<Rightarrow> ret (failure e ro)
                | Inr assignment \<Rightarrow> do {
                    modify (fresh_run (tu_runID input) revision);
                    openTurn ro input \<lparr> sd_profileSnapshotID = ro_profileSnapshotID ro, sd_capabilitySnapshotID = ro_capabilitySnapshotID ro,
                      sd_compositionRevision = revision, sd_assignmentRevision = assignment, sd_composition = composition \<rparr> })))"

(* src/pkg/core/agent_entrypoints.go:9-16 Run *)
definition runText :: "'w run_options \<Rightarrow> string \<Rightarrow> ('w, go_error option) act" where
  "runText ro input = do {
     r \<leftarrow> newID ro ''run_'';
     case r of
       Inl e \<Rightarrow> ret (Some e)
     | Inr runID \<Rightarrow> do {
         (_, err) \<leftarrow> runTurn ro \<lparr> tu_runID = runID, tu_text = input, tu_override = 0, tu_metadata = [] \<rparr>;
         ret err } }"

section \<open>Resuming\<close>

text \<open>The counters of a run, read back from its log.\<close>

(* src/pkg/core/agent.go:497-517 restoreRunState *)
definition restoreEvent :: "string \<Rightarrow> session_event \<Rightarrow> 'w agent \<times> string list \<Rightarrow> 'w agent \<times> string list" where
  "restoreEvent runID ev st =
     (let (a, seen) = st in
      if ev_runID ev \<noteq> runID then st
      else case decoded (ev_type ev) (ev_data ev) of
             Some (DToolCall d) \<Rightarrow>
               if td_callID d \<in> set seen then st
               else (a\<lparr> ag_toolCalls := ag_toolCalls a + 1,
                        ag_counts := mput (td_name d) (mget 0 (ag_counts a) (td_name d) + 1) (ag_counts a),
                        ag_resumeIDs := insert_id (td_callID d) (ag_resumeIDs a) \<rparr>, td_callID d # seen)
           | Some (DToolResult d) \<Rightarrow> (a\<lparr> ag_resumeIDs := removeAll (tr_callID d) (ag_resumeIDs a) \<rparr>, seen)
           | _ \<Rightarrow> st)"

(* src/pkg/core/agent.go:490-518 restoreRunState *)
definition restoreRunState :: "string \<Rightarrow> 'w agent \<Rightarrow> 'w agent" where
  "restoreRunState runID a =
     fst (fold (restoreEvent runID) (se_events (ag_session a)) (fresh_run runID (ag_revision a) a, []))"

(* src/pkg/core/agent.go:520-538 resumeApproval *)
definition resumeApproval :: "'w run_options \<Rightarrow> run_info \<Rightarrow> approval_requested_data \<Rightarrow> ('w, turn) act" where
  "resumeApproval ro info pending = do {
     stopped \<leftarrow> executeLoggedToolCall ro info (aq_resumeCall pending) (aq_remainingCalls pending) (aq_fast pending);
     case stopped of
       Some t \<Rightarrow> ret t
     | None \<Rightarrow>
         if aq_fast pending then do {
           s \<leftarrow> gets ag_session;
           case toolResult s (ri_run info) (tc_id (aq_resumeCall pending)) of
             Inl _ \<Rightarrow> ret (refuse ro TurnFastResult)
           | Inr None \<Rightarrow> ret (refuse ro TurnFastResultMissing)
           | Inr (Some result) \<Rightarrow> do {
               failed \<leftarrow> log1 ro (ri_run info) (DAssistantMessage \<lparr> am_text = cr_content result, am_toolCall = None, am_toolCalls = [] \<rparr>);
               case failed of Some e \<Rightarrow> appendFailed ro info e | None \<Rightarrow> complete ro info RunCompleted } }
         else continueToolCalls ro info False False (runModelSteps ro info (ri_step info + 1)) (aq_remainingCalls pending) }"

(* src/pkg/core/agent.go:353-404 ResumeTurn *)
definition resumeTurn :: "'w run_options \<Rightarrow> string \<Rightarrow> ('w, turn) act" where
  "resumeTurn ro runID =
     (if \<not> validateRunID runID then ret (refuse ro TurnRunID)
      else do {
        s \<leftarrow> gets ag_session;
        case pendingApproval s runID of
          Inl e \<Rightarrow> ret (emptyTurn, Some (plain_error (ao_text (ro_agent ro) (SessionFault e))))
        | Inr None \<Rightarrow> ret (refuse ro (TurnNoPending runID))
        | Inr (Some pending) \<Rightarrow> do {
            modify (restoreRunState runID);
            case compositionRevision (ro_composition ro) of
              Inl e \<Rightarrow> ret (failure e ro)
            | Inr revision \<Rightarrow> do {
                modify (\<lambda>a. a\<lparr> ag_revision := revision \<rparr>);
                failed \<leftarrow> log1 ro runID (DRunResume \<lparr> sd_profileSnapshotID = ro_profileSnapshotID ro,
                  sd_capabilitySnapshotID = ro_capabilitySnapshotID ro, sd_compositionRevision = revision,
                  sd_assignmentRevision = (case compositionMetadataRevision (compositionMetadata (ro_composition ro)) of Inl _ \<Rightarrow> [] | Inr x \<Rightarrow> x),
                  sd_composition = ro_composition ro \<rparr>);
                case failed of
                  Some e \<Rightarrow> ret (emptyTurn, Some e)
                | None \<Rightarrow> resumeApproval ro (session_info s runID (aq_step pending)) pending } } })"

section \<open>Continuing after a durable result\<close>

text \<open>
  The loop variables of the scan. \<open>pc_state\<close>: 0 between steps, 1 in a step before the model's answer, 2 after it,
  3 after its usage, 4 after a call, 5 after its result.
\<close>

(* src/pkg/core/agent.go:613-615 postResultContinuation *)
record continuation =
  pc_step :: int
  pc_last :: int
  pc_stepSeq :: int
  pc_state :: nat
  pc_completed :: nat
  pc_calls :: "tool_call list"
  pc_seenCalls :: "string list"
  pc_seenResults :: "string list"
  pc_userSeen :: bool

definition initialContinuation :: continuation where
  "initialContinuation = \<lparr> pc_step = -1, pc_last = -1, pc_stepSeq = -1, pc_state = 0, pc_completed = 0, pc_calls = [],
     pc_seenCalls = [], pc_seenResults = [], pc_userSeen = False \<rparr>"

text \<open>\<open>reflect.DeepEqual\<close> on arguments and on calls.\<close>

fun same_args :: "json_object option \<Rightarrow> json_object option \<Rightarrow> bool" where
  "same_args None None = True"
| "same_args (Some a) (Some b) = json_same (JObj a) (JObj b)"
| "same_args _ _ = False"

definition same_call :: "tool_call \<Rightarrow> tool_call \<Rightarrow> bool" where
  "same_call c d \<longleftrightarrow> tc_id c = tc_id d \<and> tc_name c = tc_name d \<and> same_args (tc_args c) (tc_args d) \<and> tc_continuation c = tc_continuation d"

(* src/pkg/core/agent.go:595-612 postResultContinuation *)
definition openRuns :: "session_event list \<Rightarrow> (string, nat) gomap" where
  "openRuns events = fold (\<lambda>(index, ev) m.
     let m1 = (if ev_type ev = EvRunStart then mput (ev_runID ev) index m else m)
     in if ev_type ev = EvRunEnd then mdel (ev_runID ev) m1 else m1) (enumerate 0 events) []"

(* src/pkg/core/agent.go:672-677 postResultContinuation *)
fun admitCalls :: "tool_call list \<Rightarrow> string list \<Rightarrow> continuation_fault + string list" where
  "admitCalls [] seen = Inr seen"
| "admitCalls (call # calls) seen =
     (if \<not> validateToolCall call \<or> tc_id call \<in> set seen then Inl CallsInvalid else admitCalls calls (tc_id call # seen))"

(* src/pkg/core/agent.go:656-678 postResultContinuation *)
definition continueAssistant :: "assistant_message_data \<Rightarrow> continuation \<Rightarrow> continuation_fault + continuation" where
  "continueAssistant d st =
     (let listed = map cloneToolCall (am_toolCalls d) in
      if pc_state st \<noteq> 1 then Inl AssistantInvalid
      else rbind (case am_toolCall d of
                    None \<Rightarrow> Inr listed
                  | Some c \<Rightarrow> if listed = [] then Inr [cloneToolCall c]
                              else if \<not> same_call (hd listed) c then Inl LegacyConflict else Inr listed)
        (\<lambda>calls. if calls = [] then Inl AssistantNoCalls
                 else rbind (admitCalls calls (pc_seenCalls st)) (\<lambda>seen.
                   Inr (st\<lparr> pc_calls := calls, pc_seenCalls := seen, pc_state := 2 \<rparr>))))"

(* src/pkg/core/agent.go:644-655 postResultContinuation *)
definition continueUsage :: "run_usage_data \<Rightarrow> continuation \<Rightarrow> continuation_fault + continuation" where
  "continueUsage d st =
     (let i = ru_invocationID d in
      if validateRunUsageData d \<noteq> None then Inl UsageInvalid
      else if pc_state st = 1 \<and> length i > 8 \<and> take 8 i = ''summary:'' then Inr st
      else if pc_state st \<noteq> 2 \<or> i \<noteq> ''model:'' @ int_str (pc_stepSeq st) then Inl UsageMismatch
      else Inr (st\<lparr> pc_state := 3 \<rparr>))"

(* src/pkg/core/agent.go:679-684 postResultContinuation *)
definition continueCall :: "tool_call_data \<Rightarrow> continuation \<Rightarrow> continuation_fault + continuation" where
  "continueCall d st =
     (if (pc_state st \<noteq> 3 \<and> pc_state st \<noteq> 5) \<or> pc_completed st \<ge> length (pc_calls st) then Inl CallSequence
      else let c = pc_calls st ! pc_completed st in
        if tc_id c \<noteq> td_callID d \<or> tc_name c \<noteq> td_name d \<or> \<not> same_args (tc_args c) (td_args d) then Inl CallSequence
        else Inr (st\<lparr> pc_state := 4 \<rparr>))"

(* src/pkg/core/agent.go:685-690 postResultContinuation *)
definition continueResult :: "tool_result_data \<Rightarrow> continuation \<Rightarrow> continuation_fault + continuation" where
  "continueResult d st =
     (if pc_state st \<noteq> 4 \<or> tr_callID d \<noteq> tc_id (pc_calls st ! pc_completed st) \<or> tr_callID d \<in> set (pc_seenResults st)
      then Inl ResultSequence
      else Inr (st\<lparr> pc_seenResults := tr_callID d # pc_seenResults st, pc_completed := pc_completed st + 1, pc_state := 5 \<rparr>))"

text \<open>One event of the run; its payload decodes, since the event has been validated.\<close>

(* src/pkg/core/agent.go:616-699 postResultContinuation *)
definition continueEvent :: "string \<Rightarrow> nat \<Rightarrow> continuation \<Rightarrow> nat \<times> session_event \<Rightarrow> continuation_fault + continuation" where
  "continueEvent runID start st iev =
     (let (index, ev) = iev in
      if ev_runID ev \<noteq> runID then Inl Interleaved
      else case validateSessionEvent ev of
        Some e \<Rightarrow> Inl (MalformedEvent e)
      | None \<Rightarrow>
          (case decoded (ev_type ev) (ev_data ev) of
             Some (DRunStart _) \<Rightarrow> if index \<noteq> start then Inl DuplicateStart else Inr st
           | Some (DUserMessage _) \<Rightarrow>
               if pc_state st \<noteq> 0 \<or> pc_userSeen st then Inl UserInterleaved else Inr (st\<lparr> pc_userSeen := True \<rparr>)
           | Some (DStepStart i) \<Rightarrow>
               if pc_state st \<noteq> 0 \<or> \<not> pc_userSeen st \<or> i \<noteq> pc_last st + 1 then Inl StepSequence
               else Inr (st\<lparr> pc_step := i, pc_last := i, pc_stepSeq := ev_seq ev, pc_state := 1 \<rparr>)
           | Some (DAssistantChunk _) \<Rightarrow> if pc_state st \<noteq> 1 then Inl ArtifactInterleaved else Inr st
           | Some (DContextSummary _) \<Rightarrow> if pc_state st \<noteq> 1 then Inl ArtifactInterleaved else Inr st
           | Some (DRunUsage d) \<Rightarrow> continueUsage d st
           | Some (DAssistantMessage d) \<Rightarrow> continueAssistant d st
           | Some (DToolCall d) \<Rightarrow> continueCall d st
           | Some (DToolResult d) \<Rightarrow> continueResult d st
           | Some (DStepEnd _) \<Rightarrow>
               if pc_state st \<noteq> 5 \<or> pc_completed st \<noteq> length (pc_calls st) then Inl StepUnbalanced
               else Inr (st\<lparr> pc_calls := [], pc_completed := 0, pc_state := 0 \<rparr>)
           | _ \<Rightarrow> Inl UnsupportedEvent))"

text \<open>The step, its calls and how many of them have a result.\<close>

(* src/pkg/core/agent.go:594-707 postResultContinuation *)
definition postResultContinuation :: "session_event list \<Rightarrow> string \<Rightarrow> continuation_fault + int \<times> tool_call list \<times> nat" where
  "postResultContinuation events runID =
     (case map_of (openRuns events) runID of
        None \<Rightarrow> Inl NotOpen
      | Some start \<Rightarrow>
          if list_ex (\<lambda>(i, index). index > start \<or> (index = start \<and> i \<noteq> runID)) (openRuns events) then Inl NotLatest
          else rbind (foldr_err (continueEvent runID start) initialContinuation (drop start (enumerate 0 events))) (\<lambda>st.
            if pc_state st = 1 then Inl OutcomeLost
            else if pc_state st \<noteq> 5 \<or> pc_completed st = 0 then Inl NotPostResult
            else Inr (pc_step st, pc_calls st, pc_completed st)))"

(* src/pkg/core/agent.go:406-426 continueTurn *)
definition continueTurn :: "'w run_options \<Rightarrow> string \<Rightarrow> ('w, turn) act" where
  "continueTurn ro runID = do {
     s \<leftarrow> gets ag_session;
     if ro_fast ro \<noteq> None then ret (refuse ro ContinueFast)
     else (case postResultContinuation (se_events s) runID of
       Inl f \<Rightarrow> ret (refuse ro (ContinuationFault f))
     | Inr (step, calls, completed) \<Rightarrow>
         (case find (\<lambda>call. \<not> safeCallValue False (rt_authorized (ao_tools (ro_agent ro)) (tc_name call))) calls of
            Some call \<Rightarrow> ret (refuse ro (ContinueUnauthorized (tc_name call)))
          | None \<Rightarrow> do {
              modify (restoreRunState runID);
              case compositionRevision (ro_composition ro) of
                Inl e \<Rightarrow> ret (failure e ro)
              | Inr revision \<Rightarrow> do {
                  modify (\<lambda>a. a\<lparr> ag_revision := revision \<rparr>);
                  let info = session_info s runID step;
                  continueToolCalls ro info False True (runModelSteps ro info (step + 1)) (drop completed calls) } })) }"

end
