(* ===== verification/Guard_Facts.thy ===== *)
theory Guard_Facts
  imports Tool_Guard
begin

text \<open>
  Facts about the enforcement funnel. The locale \<open>run_relation\<close> collects what a relation between agent
  states needs so that every operation of the funnel respects it, given which entries it admits in the log;
  it is interpreted by the consumption of the run's budget here and by the invariants of the turn loop. From
  the first follows that a bounded nesting depth is always enough, from the gates' definitions that a
  provider runs exactly when every gate is open.
\<close>

section \<open>Relations every operation respects\<close>

locale run_relation = respecting R for R :: "'w agent \<Rightarrow> 'w agent \<Rightarrow> bool" +
  fixes opts :: "'w agent_options" and loggable :: "string \<times> append_data \<Rightarrow> bool"
  assumes R_append: "appendBatch (ao_clock opts) (ag_session a) entries = Inr (evs, s') \<Longrightarrow> list_all loggable entries
      \<Longrightarrow> R a (a\<lparr> ag_session := s' \<rparr>)"
    and loggable_call: "loggable (runID, Typed (DToolCall call))"
    and loggable_result: "loggable (runID, Typed (DToolResult result))"
    and R_resolutions: "R a (a\<lparr> ag_resolutions := rs \<rparr>)"
    and R_counts: "R a (a\<lparr> ag_counts := cs \<rparr>)"
    and R_resume: "R a (a\<lparr> ag_resumeIDs := removeAll i (ag_resumeIDs a) \<rparr>)"
    and R_call: "ag_toolCalls a < ao_maxToolCalls opts \<Longrightarrow> R a (a\<lparr> ag_toolCalls := ag_toolCalls a + 1 \<rparr>)"
begin

lemma stays_deliver: "stays R (deliverEvents f evs)"
  by (induction evs) (auto intro!: stays_intros split: outcome.splits)

lemma stays_append: "list_all loggable entries \<Longrightarrow> stays R (appendEntries opts entries)"
  unfolding stays_def
proof
  fix a
  assume ok: "list_all loggable entries"
  show "R a (snd (run_state (appendEntries opts entries) a))"
  proof (cases "appendBatch (ao_clock opts) (ag_session a) entries")
    case (Inl e)
    then show ?thesis by (simp add: appendEntries_def R_refl)
  next
    case (Inr r)
    obtain evs s' where r: "r = (evs, s')" by force
    have s: "R a (a\<lparr> ag_session := s' \<rparr>)" using R_append Inr r ok by simp
    show ?thesis
    proof (cases "ao_onEvent opts")
      case (Some f)
      with s Inr r show ?thesis using R_trans[OF s] stays_deliver[of f evs] by (simp add: appendEntries_def stays_def)
    qed (simp add: appendEntries_def Inr r s)
  qed
qed

lemma stays_appendOne: "loggable (runID, Typed data) \<Longrightarrow> stays R (appendOne opts runID data)"
  unfolding appendOne_def by (rule stays_append) simp

lemma stays_approval: "stays R (requestApproval opts info call m)"
  unfolding requestApproval_def durableApproval_def Let_def
  by (auto intro!: stays_intros stays_modify R_resolutions split: option.split approver.split sum.split)

lemma stays_manifestGates: "stays R (manifestGates opts info resuming manifest call)"
  unfolding manifestGates_def rateAllows_def Let_def
  by (auto intro!: stays_intros stays_approval split: option.split)

lemma stays_journalBegin: "stays R (journalBegin opts info call manifest)"
  unfolding journalBegin_def
  by (auto intro!: stays_intros split: option.split sum.split)

lemma stays_journalFinish: "stays R (journalFinish opts call manifest minted outcome)"
  unfolding journalFinish_def
  by (auto intro!: stays_intros split: option.split sum.split prod.split)

lemma stays_answer: "stays R (answerCall opts info call result)"
  unfolding answerCall_def by (auto intro!: stays_intros split: option.split)

lemma stays_beforeTool: "stays R (beforeTool opts info call)"
  unfolding beforeTool_def by (auto intro!: stays_intros split: option.split)

lemma stays_script:
  assumes "\<And>c. stays R (invoke c)"
  shows "stays R (runScript invoke s)"
proof (induction s)
  case (Nested c w k)
  then have "stays R (runScript invoke (k x w'))" for x w' by blast
  then show ?case by (auto intro!: stays_intros stays_modify R_world assms split: option.split)
qed (auto intro!: stays_intros stays_modify R_world)

lemma stays_provider:
  assumes "\<And>c. stays R (invoke c)"
  shows "stays R (runProvider opts invoke info call minted)"
  unfolding runProvider_def Let_def
  by (auto intro!: stays_intros stays_script assms split: executor.split)

lemma stays_accepted:
  assumes "\<And>c. stays R (invoke c)"
  shows "stays R (runAccepted opts invoke info call manifest minted)"
  unfolding runAccepted_def
  by (auto intro!: stays_intros stays_provider stays_journalFinish assms split: option.split)

text \<open>The part of the funnel behind the run budget.\<close>

lemma stays_guarded:
  assumes "\<And>c. stays R (invoke c)"
  shows "stays R (guardedExecute opts invoke call)"
  unfolding stays_def
proof
  fix a :: "'w agent"
  let ?resuming = "tc_id call \<in> set (ag_resumeIDs a)"
  let ?info = "run_info_of a"
  show "R a (snd (run_state (guardedExecute opts invoke call) a))"
  proof (cases "\<not> ?resuming \<and> ag_toolCalls a \<ge> ao_maxToolCalls opts")
    case True
    then show ?thesis using stays_answer by (simp add: guardedExecute_def stays_def)
  next
    case False
    let ?b = "snd (run_state (consumeBudget call ?resuming) a)"
    have b: "R a ?b" using False R_resume R_call by (auto simp: consumeBudget_def)
    have "stays R (afterBudget opts invoke ?info ?resuming call)"
      unfolding afterBudget_def Let_def
      by (auto intro!: stays_intros stays_answer stays_beforeTool stays_manifestGates stays_journalBegin stays_accepted
          stays_modify R_counts assms split: option.split approval_outcome.split journal_gate.split)
    then have "R ?b (snd (run_state (afterBudget opts invoke ?info ?resuming call) ?b))" by (simp add: stays_def)
    with R_trans[OF b] False show ?thesis
      by (simp add: guardedExecute_def Let_def split: prod.splits) (auto simp: consumeBudget_def split: if_splits)
  qed
qed

lemma stays_invoke:
  assumes "\<And>c. stays R (exec c)"
  shows "stays R (invokeTool opts exec call)"
  unfolding invokeTool_def recordNested_def Let_def
  by (auto intro!: stays_intros stays_appendOne loggable_call loggable_result assms split: option.split sum.split prod.split)

lemma stays_execute: "stays R (executeTool n opts call)"
  by (induction n arbitrary: call) (auto intro!: stays_intros stays_guarded stays_invoke)

end

section \<open>The budget of the run\<close>

definition spends :: "'w agent_options \<Rightarrow> 'w agent \<Rightarrow> 'w agent \<Rightarrow> bool" where
  "spends opts a b \<longleftrightarrow> ag_toolCalls a \<le> ag_toolCalls b \<and> ag_toolCalls b \<le> max (ag_toolCalls a) (ao_maxToolCalls opts)
     \<and> set (ag_resumeIDs b) \<subseteq> set (ag_resumeIDs a) \<and> ag_runID b = ag_runID a"

interpretation spend: run_relation "spends opts" opts "\<lambda>_. True" for opts
  by unfold_locales (auto simp: spends_def)

lemma spends_left: "spends opts a b \<Longrightarrow> calls_left opts b \<le> calls_left opts a"
  unfolding calls_left_def spends_def by (intro add_mono card_mono) auto

text \<open>Two actions agree, and end, from every state with fewer than \<open>n\<close> calls left.\<close>

definition agree :: "nat \<Rightarrow> 'w agent_options \<Rightarrow> ('w, 'a option) act \<Rightarrow> ('w, 'a option) act \<Rightarrow> bool" where
  "agree n opts m m' \<longleftrightarrow> (\<forall>a. calls_left opts a < n \<longrightarrow> run_state m a = run_state m' a \<and> fst (run_state m a) \<noteq> None)"

lemma agree_ret: "agree n opts (ret (Some x)) (ret (Some x))"
  by (simp add: agree_def)

lemma agree_bind:
  assumes "stays (spends opts) m" "\<And>x. agree n opts (k x) (k' x)"
  shows "agree n opts (State_Monad.bind m k) (State_Monad.bind m k')"
  unfolding agree_def
proof (intro allI impI)
  fix a assume a: "calls_left opts a < n"
  obtain x b where m: "run_state m a = (x, b)" by force
  then have "spends opts a b" using assms(1) by (metis stays_def snd_conv)
  then have "calls_left opts b < n" using spends_left a by (metis order_le_less_trans)
  then show "run_state (State_Monad.bind m k) a = run_state (State_Monad.bind m k') a \<and> fst (run_state (State_Monad.bind m k) a) \<noteq> None"
    using assms(2)[of x, unfolded agree_def, rule_format, of b] m by (auto simp del: not_None_eq)
qed

lemma agree_chain:
  assumes "agree n opts m m'" "stays (spends opts) m" "\<And>x. agree n opts (k (Some x)) (k' (Some x))"
  shows "agree n opts (State_Monad.bind m k) (State_Monad.bind m' k')"
  unfolding agree_def
proof (intro allI impI)
  fix a assume a: "calls_left opts a < n"
  obtain x b where m: "run_state m a = (Some x, b)" "run_state m' a = (Some x, b)"
    using assms(1) a by (metis agree_def fst_conv option.exhaust prod.collapse)
  then have "spends opts a b" using assms(2) by (metis stays_def snd_conv)
  then have "calls_left opts b < n" using spends_left a by (metis order_le_less_trans)
  then show "run_state (State_Monad.bind m k) a = run_state (State_Monad.bind m' k') a \<and> fst (run_state (State_Monad.bind m k) a) \<noteq> None"
    using assms(3)[of x, unfolded agree_def, rule_format, of b] m by (auto simp del: not_None_eq)
qed

lemma agree_script:
  assumes "\<And>c. agree n opts (invoke c) (invoke' c)" "\<And>c. stays (spends opts) (invoke c)"
  shows "agree n opts (runScript invoke s) (runScript invoke' s)"
proof (induction s)
  case (Nested c w k)
  then have k: "agree n opts (runScript invoke (k x w')) (runScript invoke' (k x w'))" for x w' by blast
  show ?case
    unfolding runScript.simps
    by (intro agree_bind agree_chain spend.stays_modify assms)
      (auto simp: spends_def intro!: agree_bind spend.stays_gets k)
qed (auto intro!: agree_bind agree_ret spend.stays_modify simp: spends_def)

lemma agree_accepted:
  assumes "\<And>c. agree n opts (invoke c) (invoke' c)" "\<And>c. stays (spends opts) (invoke c)"
  shows "agree n opts (runAccepted opts invoke info call manifest minted) (runAccepted opts invoke' info call manifest minted)"
proof -
  have "agree n opts (runProvider opts invoke info call minted) (runProvider opts invoke' info call minted)"
    unfolding runProvider_def Let_def
    by (intro agree_bind spend.stays_gets)
      (auto intro!: agree_chain agree_script agree_bind agree_ret spend.stays_intros spend.stays_script assms split: executor.split)
  then show ?thesis
    unfolding runAccepted_def
    by (rule agree_chain[OF _ spend.stays_provider[OF assms(2)]])
      (auto intro!: agree_bind agree_ret spend.stays_journalFinish spend.stays_intros split: option.split)
qed

lemma agree_afterBudget:
  assumes "\<And>c. agree n opts (invoke c) (invoke' c)" "\<And>c. stays (spends opts) (invoke c)"
  shows "agree n opts (afterBudget opts invoke info resuming call) (afterBudget opts invoke' info resuming call)"
proof -
  have answer: "agree n opts (answerCall opts info call r) (answerCall opts info call r)" for r
    unfolding answerCall_def by (auto intro!: agree_bind agree_ret spend.stays_intros split: option.split)
  show ?thesis
    unfolding afterBudget_def Let_def
    by (auto intro!: agree_bind agree_ret answer agree_accepted assms spend.stays_beforeTool spend.stays_manifestGates
        spend.stays_journalBegin spend.stays_intros spend.stays_modify
        split: option.split approval_outcome.split journal_gate.split) (auto simp: spends_def)
qed

lemma consume_left:
  assumes "tc_id call \<in> set (ag_resumeIDs a) \<or> ag_toolCalls a < ao_maxToolCalls opts"
  shows "calls_left opts (snd (run_state (consumeBudget call (tc_id call \<in> set (ag_resumeIDs a))) a)) < calls_left opts a"
proof (cases "tc_id call \<in> set (ag_resumeIDs a)")
  case True
  then have "set (removeAll (tc_id call) (ag_resumeIDs a)) \<subset> set (ag_resumeIDs a)" by auto
  then have "card (set (removeAll (tc_id call) (ag_resumeIDs a))) < card (set (ag_resumeIDs a))" by (rule psubset_card_mono[rotated]) simp
  with True show ?thesis by (simp add: consumeBudget_def calls_left_def)
qed (use assms in \<open>simp add: consumeBudget_def calls_left_def\<close>)

lemma agree_guarded:
  assumes "\<And>c. agree n opts (invoke c) (invoke' c)" "\<And>c. stays (spends opts) (invoke c)"
  shows "agree (Suc n) opts (guardedExecute opts invoke call) (guardedExecute opts invoke' call)"
  unfolding agree_def
proof (intro allI impI)
  fix a :: "'a agent" assume a: "calls_left opts a < Suc n"
  let ?r = "tc_id call \<in> set (ag_resumeIDs a)"
  let ?b = "snd (run_state (consumeBudget call ?r) a)"
  show "run_state (guardedExecute opts invoke call) a = run_state (guardedExecute opts invoke' call) a
    \<and> fst (run_state (guardedExecute opts invoke call) a) \<noteq> None"
  proof (cases "\<not> ?r \<and> ag_toolCalls a \<ge> ao_maxToolCalls opts")
    case True
    then show ?thesis by (simp add: guardedExecute_def answerCall_def split: option.split)
  next
    case False
    then have "calls_left opts ?b < n" using consume_left[of call a opts] a by auto
    then have "run_state (afterBudget opts invoke (run_info_of a) ?r call) ?b = run_state (afterBudget opts invoke' (run_info_of a) ?r call) ?b
      \<and> fst (run_state (afterBudget opts invoke (run_info_of a) ?r call) ?b) \<noteq> None"
      using agree_afterBudget[of n opts invoke invoke', OF assms] unfolding agree_def by blast
    moreover have "run_state (guardedExecute opts i call) a = run_state (afterBudget opts i (run_info_of a) ?r call) ?b" for i
      using False by (auto simp: guardedExecute_def consumeBudget_def)
    ultimately show ?thesis by metis
  qed
qed

lemma agree_invoke:
  assumes "\<And>c. agree n opts (exec c) (exec' c)" "\<And>c. stays (spends opts) (exec c)"
  shows "agree n opts (invokeTool opts exec c) (invokeTool opts exec' c)"
  unfolding invokeTool_def recordNested_def Let_def
  by (auto intro!: agree_bind agree_chain agree_ret assms spend.stays_intros spend.stays_appendOne TrueI
      split: option.split sum.split prod.split)

lemma agree_execute: "agree n opts (executeTool n opts call) (executeTool (Suc n) opts call)"
proof (induction n arbitrary: call)
  case (Suc n)
  have "agree n opts (invokeTool opts (executeTool n opts) c) (invokeTool opts (executeTool (Suc n) opts) c)" for c
    by (rule agree_invoke[OF Suc spend.stays_execute])
  then show ?case
    unfolding executeTool.simps(2) by (rule agree_guarded) (rule spend.stays_invoke spend.stays_execute)+
qed (simp add: agree_def)

lemma executeTool_defined: "calls_left opts a < n \<Longrightarrow> fst (run_state (executeTool n opts call) a) \<noteq> None"
  using agree_execute[of n opts call] by (auto simp: agree_def)

lemma executeTool_stable:
  assumes "calls_left opts a < n" "n \<le> m"
  shows "run_state (executeTool m opts call) a = run_state (executeTool n opts call) a"
  using assms(2)
proof (induction m rule: dec_induct)
  case (step k)
  then have "calls_left opts a < k" using assms(1) by simp
  with agree_execute[of k opts call] step show ?case unfolding agree_def by metis
qed simp

text \<open>C7: The recursion of the guard through composite providers always ends, whatever the providers do: with
  one level more than the calls left in the run every call returns, deeper levels change nothing, and the
  calls counted never exceed the limit of the run.
\<close>
theorem nested_calls_bounded:
  assumes "calls_left opts a < n"
  shows "\<exists>r b. run_state (executeTool n opts call) a = (Some r, b) \<and> run_state (execute opts call) a = (r, b)
    \<and> ag_toolCalls a \<le> ag_toolCalls b \<and> ag_toolCalls b \<le> max (ag_toolCalls a) (ao_maxToolCalls opts)
    \<and> calls_left opts b \<le> calls_left opts a"
proof -
  obtain r b where rb: "run_state (executeTool n opts call) a = (Some r, b)"
    using executeTool_defined[OF assms] by (metis not_None_eq prod.collapse)
  moreover have "run_state (executeTool (Suc (calls_left opts a)) opts call) a = (Some r, b)"
    using executeTool_stable[of opts a "Suc (calls_left opts a)" n call] assms rb by simp
  then have "run_state (execute opts call) a = (r, b)"
    unfolding execute_def by (simp del: executeTool.simps)
  moreover have "spends opts a b" using spend.stays_execute[of opts n call] rb by (metis stays_def snd_conv)
  ultimately show ?thesis using spends_left[of opts a b] by (auto simp: spends_def)
qed

section \<open>The gates\<close>

definition hook_allows :: "'w agent_options \<Rightarrow> run_info \<Rightarrow> tool_call \<Rightarrow> 'w \<Rightarrow> bool" where
  "hook_allows opts info call w \<longleftrightarrow>
     (case ao_hooks opts of None \<Rightarrow> True | Some h \<Rightarrow> fst (hk_beforeTool h info call w) = Returns None)"

definition hook_world :: "'w agent_options \<Rightarrow> run_info \<Rightarrow> tool_call \<Rightarrow> 'w \<Rightarrow> 'w" where
  "hook_world opts info call w = (case ao_hooks opts of None \<Rightarrow> w | Some h \<Rightarrow> snd (hk_beforeTool h info call w))"

definition rate_allows :: "'w agent_options \<Rightarrow> run_info \<Rightarrow> tool_call \<Rightarrow> 'w \<Rightarrow> bool" where
  "rate_allows opts info call w \<longleftrightarrow>
     (case ao_limiter opts of None \<Rightarrow> True
      | Some f \<Rightarrow> fst (f (pr_tenant (ri_principal info)) (tc_name call) w) = Returns True)"

definition rate_world :: "'w agent_options \<Rightarrow> run_info \<Rightarrow> tool_call \<Rightarrow> 'w \<Rightarrow> 'w" where
  "rate_world opts info call w =
     (case ao_limiter opts of None \<Rightarrow> w | Some f \<Rightarrow> snd (f (pr_tenant (ri_principal info)) (tc_name call) w))"

text \<open>The request an approver sees, and the answers that let the call pass.\<close>

definition approval_of :: "run_info \<Rightarrow> tool_call \<Rightarrow> capability_manifest \<Rightarrow> approval_request" where
  "approval_of info call m = \<lparr> ap_run = ri_run info, ap_session = ri_session info, ap_principal = ri_principal info,
     ap_call = call, ap_manifest = m \<rparr>"

definition approval_allows :: "'w agent_options \<Rightarrow> approval_request \<Rightarrow> 'w \<Rightarrow> bool" where
  "approval_allows opts rq w \<longleftrightarrow>
     (case ao_approver opts of
        None \<Rightarrow> False
      | Some (Immediate f) \<Rightarrow> fst (f rq w) = Returns (Inr ApprovalApproved)
      | Some (Durable f) \<Rightarrow> (case fst (f rq w) of
            Returns (Inr rs) \<Rightarrow> validateApprovalID (as_approvalID rs) \<and> as_decision rs = ApprovalApproved
          | _ \<Rightarrow> False))"

definition approval_world :: "'w agent_options \<Rightarrow> approval_request \<Rightarrow> 'w \<Rightarrow> 'w" where
  "approval_world opts rq w =
     (case ao_approver opts of None \<Rightarrow> w | Some (Immediate f) \<Rightarrow> snd (f rq w) | Some (Durable f) \<Rightarrow> snd (f rq w))"

definition journal_allows :: "'w agent_options \<Rightarrow> run_info \<Rightarrow> tool_call \<Rightarrow> capability_manifest option \<Rightarrow> 'w \<Rightarrow> bool" where
  "journal_allows opts info call manifest w \<longleftrightarrow>
     (case ao_journal opts of
        None \<Rightarrow> True
      | Some j \<Rightarrow>
          (case newToolInvocation info call (case manifest of None \<Rightarrow> False | Some m \<Rightarrow> cm_idempotent m) of
             Inl _ \<Rightarrow> False
           | Inr i \<Rightarrow> (case fst (jo_begin j i w) of
                 Returns (Inr (_, d)) \<Rightarrow> d = Some ExecuteNew \<or> d = Some ExecuteRetry \<and> ti_idempotent i
               | _ \<Rightarrow> False)))"

text \<open>The gates of a declared capability: its budget, the rate limit and the approval, with the world behind them.\<close>

definition limited_world :: "'w agent_options \<Rightarrow> run_info \<Rightarrow> bool \<Rightarrow> tool_call \<Rightarrow> 'w \<Rightarrow> 'w" where
  "limited_world opts info resuming call w = (if resuming then w else rate_world opts info call w)"

definition manifest_allows :: "'w agent_options \<Rightarrow> run_info \<Rightarrow> bool \<Rightarrow> capability_manifest option \<Rightarrow> tool_call
    \<Rightarrow> (string, int) gomap \<Rightarrow> 'w \<Rightarrow> bool" where
  "manifest_allows opts info resuming manifest call counts w \<longleftrightarrow>
     (case manifest of
        None \<Rightarrow> True
      | Some m \<Rightarrow>
          (resuming \<or> \<not> (safeBudgetFor (ao_tools opts) (tc_name call) > 0
                         \<and> mget 0 counts (tc_name call) \<ge> safeBudgetFor (ao_tools opts) (tc_name call))
                      \<and> rate_allows opts info call w)
          \<and> (cm_requiresApproval m \<longrightarrow> approval_allows opts (approval_of info call m) (limited_world opts info resuming call w)))"

definition manifest_world :: "'w agent_options \<Rightarrow> run_info \<Rightarrow> bool \<Rightarrow> capability_manifest option \<Rightarrow> tool_call \<Rightarrow> 'w \<Rightarrow> 'w" where
  "manifest_world opts info resuming manifest call w =
     (case manifest of
        None \<Rightarrow> w
      | Some m \<Rightarrow>
          let w' = limited_world opts info resuming call w in
            if cm_requiresApproval m then approval_world opts (approval_of info call m) w' else w')"

definition gates_open :: "'w agent_options \<Rightarrow> tool_call \<Rightarrow> 'w agent \<Rightarrow> bool" where
  "gates_open opts call a \<longleftrightarrow>
     (let info = run_info_of a; resuming = tc_id call \<in> set (ag_resumeIDs a);
          manifest = safeManifestFor (ao_tools opts) (tc_name call);
          w = hook_world opts info call (ag_world a)
      in (resuming \<or> ag_toolCalls a < ao_maxToolCalls opts)
         \<and> argsFault opts manifest call = None
         \<and> hook_allows opts info call (ag_world a)
         \<and> manifest_allows opts info resuming manifest call (ag_counts a) w
         \<and> journal_allows opts info call manifest (manifest_world opts info resuming manifest call w))"

lemma beforeTool_run:
  "run_state (beforeTool opts info call) a =
     (fst (run_state (beforeTool opts info call) a), a\<lparr> ag_world := hook_world opts info call (ag_world a) \<rparr>)"
  "fst (run_state (beforeTool opts info call) a) = None \<longleftrightarrow> hook_allows opts info call (ag_world a)"
  by (auto simp: beforeTool_def hook_world_def hook_allows_def split: option.split prod.split outcome.split
      elim!: safeCallError.elims)

lemma rateAllows_run:
  "run_state (rateAllows opts info call) a =
     (rate_allows opts info call (ag_world a), a\<lparr> ag_world := rate_world opts info call (ag_world a) \<rparr>)"
  by (auto simp: rateAllows_def rate_world_def rate_allows_def split: option.split prod.split)
    (metis outcome.exhaust safeCallValue.simps)+

lemma requestApproval_run:
  assumes "run_state (requestApproval opts info call m) a = (g, b)"
  shows "g = ApprovalGranted \<longleftrightarrow> approval_allows opts (approval_of info call m) (ag_world a)"
    "ag_world b = approval_world opts (approval_of info call m) (ag_world a)" "ag_session b = ag_session a"
    "ag_toolCalls b = ag_toolCalls a" "ag_counts b = ag_counts a"
proof -
  have n: "ApprovalPending \<noteq> ApprovalApproved" "ApprovalDenied \<noteq> ApprovalApproved" "ApprovalExpired \<noteq> ApprovalApproved"
    by (simp_all add: ApprovalPending_def ApprovalApproved_def ApprovalDenied_def ApprovalExpired_def)
  show "g = ApprovalGranted \<longleftrightarrow> approval_allows opts (approval_of info call m) (ag_world a)"
    "ag_world b = approval_world opts (approval_of info call m) (ag_world a)" "ag_session b = ag_session a"
    "ag_toolCalls b = ag_toolCalls a" "ag_counts b = ag_counts a"
    using assms n
    by (auto simp: requestApproval_def durableApproval_def immediateApproval_def approval_allows_def approval_world_def approval_of_def Let_def
        split: option.splits approver.splits prod.splits outcome.splits sum.splits if_splits elim!: safeCallValueError.elims)
qed

lemma journalBegin_run:
  "(\<exists>minted. fst (run_state (journalBegin opts info call manifest) a) = GateRun minted) \<longleftrightarrow>
     journal_allows opts info call manifest (ag_world a)"
  "ag_session (snd (run_state (journalBegin opts info call manifest) a)) = ag_session a"
  "ag_toolCalls (snd (run_state (journalBegin opts info call manifest) a)) = ag_toolCalls a"
  by (auto simp: journalBegin_def journal_allows_def journalDecision_def
      split: option.splits sum.splits prod.splits outcome.splits invocation_decision.splits if_splits elim!: safeCallValueError.elims)

lemma manifestGates_run:
  assumes "run_state (manifestGates opts info resuming manifest call) a = (g, b)"
  shows "g = ApprovalGranted \<longleftrightarrow> manifest_allows opts info resuming manifest call (ag_counts a) (ag_world a)"
    and "g = ApprovalGranted \<Longrightarrow> ag_world b = manifest_world opts info resuming manifest call (ag_world a)"
    and "ag_session b = ag_session a" "ag_toolCalls b = ag_toolCalls a"
  using assms
  by (auto simp: manifestGates_def manifest_allows_def manifest_world_def limited_world_def rateAllows_run Let_def
      dest: requestApproval_run split: option.splits if_splits)

text \<open>Only the executor differs.\<close>

definition with_executor :: "'w executor \<Rightarrow> 'w agent_options \<Rightarrow> 'w agent_options" where
  "with_executor e opts = opts\<lparr> ao_tools := (ao_tools opts)\<lparr> rt_execute := e \<rparr> \<rparr>"

lemma with_executor_fields:
  "ao_maxToolCalls (with_executor e opts) = ao_maxToolCalls opts" "ao_hooks (with_executor e opts) = ao_hooks opts"
  "ao_approver (with_executor e opts) = ao_approver opts" "ao_limiter (with_executor e opts) = ao_limiter opts"
  "ao_journal (with_executor e opts) = ao_journal opts" "ao_done (with_executor e opts) = ao_done opts"
  "ao_rx (with_executor e opts) = ao_rx opts" "ao_unmarshal (with_executor e opts) = ao_unmarshal opts"
  "ao_text (with_executor e opts) = ao_text opts"
  "rt_manifestFor (ao_tools (with_executor e opts)) = rt_manifestFor (ao_tools opts)"
  "rt_budgetFor (ao_tools (with_executor e opts)) = rt_budgetFor (ao_tools opts)"
  by (simp_all add: with_executor_def)

lemma with_executor_gates [simp]:
  "ao_maxToolCalls (with_executor e opts) = ao_maxToolCalls opts"
  "safeManifestFor (ao_tools (with_executor e opts)) n = safeManifestFor (ao_tools opts) n"
  "argsFault (with_executor e opts) m call = argsFault opts m call"
  "ao_text (with_executor e opts) = ao_text opts"
  "answerCall (with_executor e opts) info call r = answerCall opts info call r"
  "beforeTool (with_executor e opts) info call = beforeTool opts info call"
  "manifestGates (with_executor e opts) info res m call = manifestGates opts info res m call"
  "journalBegin (with_executor e opts) info call m = journalBegin opts info call m"
  unfolding safeManifestFor_def argsFault_def answerCall_def beforeTool_def manifestGates_def safeBudgetFor_def
    rateAllows_def requestApproval_def journalBegin_def journalDecision_def journalReplayResult_def with_executor_fields
  by (rule refl)+

text \<open>C2: A provider runs exactly when every gate is open: the run budget (or a resumed call), the argument
  schema, the hook, the capability budget, the rate limit, a granted approval and the journal's leave.
  When one is closed, the answer to the call and the state afterwards do not depend on the provider at all.
\<close>
theorem guard_funnel_exact:
  "if gates_open opts call a
   then \<exists>b minted. run_state (guardedExecute opts invoke call) a =
          run_state (runAccepted opts invoke (run_info_of a) call (safeManifestFor (ao_tools opts) (tc_name call)) minted) b
        \<and> ag_session b = ag_session a
        \<and> ag_toolCalls b = ag_toolCalls a + (if tc_id call \<in> set (ag_resumeIDs a) then 0 else 1)
   else run_state (guardedExecute (with_executor e opts) invoke' call) a = run_state (guardedExecute opts invoke call) a"
proof -
  let ?info = "run_info_of a"
  let ?r = "tc_id call \<in> set (ag_resumeIDs a)"
  let ?m = "safeManifestFor (ao_tools opts) (tc_name call)"
  let ?b = "snd (run_state (consumeBudget call ?r) a)"
  show ?thesis
  proof (cases "\<not> ?r \<and> ag_toolCalls a \<ge> ao_maxToolCalls opts")
    case True
    then show ?thesis by (simp add: gates_open_def guardedExecute_def)
  next
    case False
    have run: "run_state (guardedExecute o' i call) a = run_state (afterBudget o' i ?info ?r call) ?b"
      if "ao_maxToolCalls o' = ao_maxToolCalls opts" for o' i
      using False that by (auto simp: guardedExecute_def consumeBudget_def)
    have b: "ag_world ?b = ag_world a" "ag_counts ?b = ag_counts a" "ag_session ?b = ag_session a"
      "ag_toolCalls ?b = ag_toolCalls a + (if ?r then 0 else 1)"
      by (auto simp: consumeBudget_def)
    obtain d c where c: "run_state (beforeTool opts ?info call) ?b = (d, c)" "d = None \<longleftrightarrow> hook_allows opts ?info call (ag_world a)"
      "c = ?b\<lparr> ag_world := hook_world opts ?info call (ag_world a) \<rparr>"
      using beforeTool_run[of opts ?info call ?b] b by simp
    obtain g f where g: "run_state (manifestGates opts ?info ?r ?m call) c = (g, f)" by force
    note mg = manifestGates_run[OF g, unfolded c(3), simplified b agent.simps]
    let ?f = "if ?r then f else f\<lparr> ag_counts := mput (tc_name call) (mget 0 (ag_counts f) (tc_name call) + 1) (ag_counts f) \<rparr>"
    obtain j h where j: "run_state (journalBegin opts ?info call ?m) ?f = (j, h)" by force
    have jb: "(\<exists>minted. j = GateRun minted) \<longleftrightarrow> journal_allows opts ?info call ?m (ag_world f)"
      "ag_session h = ag_session f" "ag_toolCalls h = ag_toolCalls f"
      using journalBegin_run[of opts ?info call ?m ?f] j by (auto split: if_splits)
    show ?thesis
      unfolding gates_open_def Let_def
      using False c(1,2) g j mg jb b
      by (cases "argsFault opts ?m call"; cases d; cases g; cases j)
        (auto simp: run afterBudget_def Let_def intro!: exI[of _ h])
  qed
qed

end
