(* ===== verification/Turn_Contract.thy ===== *)
theory Turn_Contract
  imports Agent_Turn Guard_Facts
begin

text \<open>
  A contract for the turn loop. The locale \<open>turn_contract\<close> collects what an invariant of the session needs so
  that the whole loop keeps it and every way a turn can end establishes a given outcome; the facts about the
  loop are proved once inside it, and each property of a turn is an interpretation. The invariant is indexed
  by the number of the next step.
\<close>

section \<open>Triples\<close>

definition leads :: "('s \<Rightarrow> bool) \<Rightarrow> ('s, 'a) state \<Rightarrow> ('a \<Rightarrow> 's \<Rightarrow> bool) \<Rightarrow> bool" where
  "leads P m Q \<longleftrightarrow> (\<forall>s. P s \<longrightarrow> (case run_state m s of (x, s') \<Rightarrow> Q x s'))"

lemma leadsD: "leads P m Q \<Longrightarrow> P s \<Longrightarrow> run_state m s = (x, s') \<Longrightarrow> Q x s'"
  by (auto simp: leads_def)

lemma leads_ret: "(\<And>s. P s \<Longrightarrow> Q x s) \<Longrightarrow> leads P (ret x) Q"
  by (simp add: leads_def)

lemma leads_gets: "(\<And>s. P s \<Longrightarrow> Q (f s) s) \<Longrightarrow> leads P (gets f) Q"
  by (simp add: leads_def)

lemma leads_modify: "(\<And>s. P s \<Longrightarrow> Q () (f s)) \<Longrightarrow> leads P (modify f) Q"
  by (simp add: leads_def)

lemma leads_foreign: "(\<And>s x w. P s \<Longrightarrow> Q x (s\<lparr> ag_world := w \<rparr>)) \<Longrightarrow> leads P (foreign f) Q"
  by (simp add: leads_def split: prod.split)

lemma leads_bind:
  assumes "leads P m Z" "\<And>x. leads (Z x) (k x) Q"
  shows "leads P (State_Monad.bind m k) Q"
  unfolding leads_def
proof (intro allI impI)
  fix s assume s: "P s"
  obtain x s' where x: "run_state m s = (x, s')" by force
  obtain y t where y: "run_state (k x) s' = (y, t)" by force
  from leadsD[OF assms(2) leadsD[OF assms(1) s x] y] show "case run_state (State_Monad.bind m k) s of (x, s') \<Rightarrow> Q x s'"
    by (simp add: x y)
qed

lemma leads_read: "(\<And>x. leads (\<lambda>s. P s \<and> f s = x) (k x) Q) \<Longrightarrow> leads P (State_Monad.bind (gets f) k) Q"
  by (auto simp: leads_def)

lemma leads_pre: "leads P' m Q \<Longrightarrow> (\<And>s. P s \<Longrightarrow> P' s) \<Longrightarrow> leads P m Q"
  by (auto simp: leads_def)

lemma leads_and: "leads P m Q \<Longrightarrow> leads (\<lambda>s. P s \<and> R s) m Q"
  by (auto simp: leads_def)

lemma leads_or: "leads P m Q \<Longrightarrow> leads P' m Q \<Longrightarrow> leads (\<lambda>s. P s \<or> P' s) m Q"
  by (auto simp: leads_def)

lemma leads_stays:
  assumes "stays (\<lambda>a b. P a \<longrightarrow> P b) m"
  shows "leads P m (\<lambda>_. P)"
  using assms unfolding stays_def leads_def by (simp add: split_beta)

lemma deliver_world: "\<exists>w. snd (run_state (deliverEvents f evs) a) = a\<lparr> ag_world := w \<rparr>"
proof (induction evs arbitrary: a)
  case (Cons ev evs)
  obtain x w where "f ev (ag_world a) = (x, w)" by force
  moreover obtain w' where "snd (run_state (deliverEvents f evs) (a\<lparr> ag_world := w \<rparr>)) = a\<lparr> ag_world := w' \<rparr>"
    using Cons[of "a\<lparr> ag_world := w \<rparr>"] by auto
  ultimately show ?case by (auto split: prod.splits)
qed (simp, metis agent.surjective agent.update_convs(8))

text \<open>
  Logging: the entries are refused and nothing changes, or they are in the log, whatever the consumer of the
  events does then.
\<close>

lemma leads_entries:
  assumes "\<And>a x e. P a \<Longrightarrow> appendBatch (ao_clock opts) (ag_session a) entries = Inl x \<Longrightarrow> Z (Some e) a"
    and "\<And>a evs s w r. P a \<Longrightarrow> appendBatch (ao_clock opts) (ag_session a) entries = Inr (evs, s) \<Longrightarrow> Z r (a\<lparr> ag_session := s, ag_world := w \<rparr>)"
  shows "leads P (appendEntries opts entries) Z"
  unfolding leads_def
proof (intro allI impI)
  fix a :: "'a agent" assume a: "P a"
  show "case run_state (appendEntries opts entries) a of (x, b) \<Rightarrow> Z x b"
  proof (cases "appendBatch (ao_clock opts) (ag_session a) entries")
    case (Inl x)
    then show ?thesis using assms(1) a by (simp add: appendEntries_def)
  next
    case (Inr r)
    obtain evs s where r: "r = (evs, s)" by force
    note keep = assms(2)[OF a Inr[unfolded r]]
    show ?thesis
    proof (cases "ao_onEvent opts")
      case None
      have "Z None (a\<lparr> ag_session := s, ag_world := ag_world a \<rparr>)" by (rule keep)
      moreover have "a\<lparr> ag_session := s, ag_world := ag_world a \<rparr> = a\<lparr> ag_session := s \<rparr>" by simp
      ultimately show ?thesis using None Inr r by (simp add: appendEntries_def)
    next
      case (Some f)
      obtain w where "snd (run_state (deliverEvents f evs) (a\<lparr> ag_session := s \<rparr>)) = a\<lparr> ag_session := s, ag_world := w \<rparr>"
        using deliver_world[of f evs "a\<lparr> ag_session := s \<rparr>"] by auto
      with keep[of _ w] Some Inr r show ?thesis by (auto simp: appendEntries_def split: prod.split)
    qed
  qed
qed

lemmas leads_log = leads_entries[where entries = "[(runID, Typed d)]" for runID d, folded appendOne_def]

section \<open>What a summarizer appends\<close>

primrec summary_within :: "(string \<times> append_data \<Rightarrow> bool) \<Rightarrow> 'w summary_run \<Rightarrow> bool" where
  "summary_within ok (SummaryReturn r w) \<longleftrightarrow> True"
| "summary_within ok (SummaryAppend runID data w k) \<longleftrightarrow> ok (runID, data) \<and> (\<forall>r s w'. summary_within ok (k r s w'))"
| "summary_within ok (SummaryEmit ev w k) \<longleftrightarrow> (\<forall>w'. summary_within ok (k w'))"

section \<open>The contract\<close>

text \<open>The entries the loop writes between the start of a run and its end, the starts of steps aside.\<close>

definition loop_entry :: "string \<times> append_data \<Rightarrow> bool" where
  "loop_entry e \<longleftrightarrow> append_kind (snd e) \<notin> {EvRunStart, EvRunEnd, EvStepStart}"

definition failed_status :: "go_error \<Rightarrow> run_status" where
  "failed_status e = (if er_cancelled e then RunCancelled else RunFailed)"

locale turn_contract =
  fixes ro :: "'w run_options" and runID :: string and ok :: "string \<times> append_data \<Rightarrow> bool"
    and I :: "int \<Rightarrow> session \<Rightarrow> bool" and Q :: "turn \<Rightarrow> session \<Rightarrow> bool"
  assumes ok_loop: "append_kind data \<notin> {EvRunStart, EvRunEnd, EvStepStart} \<Longrightarrow> ok (r, data)"
    and ok_summary: "ro_summarizer ro = Some f \<Longrightarrow> summary_within ok (f s r ms w)"
    and I_append: "I i s \<Longrightarrow> appendBatch (ao_clock (ro_agent ro)) s entries = Inr (evs, s') \<Longrightarrow> list_all ok entries \<Longrightarrow> I i s'"
    and I_derive: "I i s \<Longrightarrow> deriveMessages s = Inr (ms, s') \<Longrightarrow> I i s'"
    and I_step: "I i s \<Longrightarrow> i < ao_maxSteps (ro_agent ro)
      \<Longrightarrow> appendBatch (ao_clock (ro_agent ro)) s [(runID, Typed (DStepStart i))] = Inr (evs, s') \<Longrightarrow> I (i + 1) s'"
    and Q_complete: "I i s \<Longrightarrow> status = RunCompleted \<or> status = RunLimited
      \<Longrightarrow> appendBatch (ao_clock (ro_agent ro)) s [(runID, Typed (DRunEnd status))] = Inr (evs, s')
      \<Longrightarrow> ri_run info = runID \<Longrightarrow> Q (turn_of info status s', None) s'"
    and Q_refused: "I i s \<Longrightarrow> Q (emptyTurn, Some e) s"
    and Q_consumer: "I i s \<Longrightarrow> appendBatch (ao_clock (ro_agent ro)) s [(runID, Typed (DRunEnd status))] = Inr (evs, s')
      \<Longrightarrow> Q (emptyTurn, Some e) s'"
    and Q_failed: "I i s \<Longrightarrow> appendBatch (ao_clock (ro_agent ro)) s [(runID, Typed (DRunEnd (failed_status e)))] = Inr (evs, s')
      \<Longrightarrow> ri_run info = runID \<Longrightarrow> Q (turn_of info (failed_status e) s', Some e) s'"
    and Q_unrecorded: "I i s \<Longrightarrow> appendBatch (ao_clock (ro_agent ro)) s [(runID, Typed (DRunEnd (failed_status e)))] = Inl x
      \<Longrightarrow> ri_run info = runID \<Longrightarrow> Q (turn_of info (failed_status e) s, Some e) s"
    and Q_waiting: "I i s \<Longrightarrow> pendingApproval s runID = Inr (Some pending) \<Longrightarrow> ri_run info = runID \<Longrightarrow> Q (waiting info) s"
    and Q_paused: "I i s \<Longrightarrow> appendBatch (ao_clock (ro_agent ro)) s [(runID, Typed (DApprovalRequested request))] = Inr (evs, s')
      \<Longrightarrow> ri_run info = runID \<Longrightarrow> Q (waiting info) s'"
begin

abbreviation P :: "int \<Rightarrow> 'w agent \<Rightarrow> bool" where "P i a \<equiv> I i (ag_session a)"
abbreviation T :: "turn \<Rightarrow> 'w agent \<Rightarrow> bool" where "T t a \<equiv> Q t (ag_session a)"

lemma keep_log: "append_kind (Typed d) \<notin> {EvRunStart, EvRunEnd, EvStepStart} \<Longrightarrow> leads (P i) (log1 ro r d) (\<lambda>_. P i)"
  by (rule leads_log) (auto simp: list_all_iff intro!: ok_loop elim!: I_append)

lemma notify_end: "leads (\<lambda>a. Z (ag_session a)) (notifyRunEnd ro info st) (\<lambda>_ a. Z (ag_session a))"
  "leads (\<lambda>a. Z (ag_session a)) (notifyAfterStep ro info) (\<lambda>_ a. Z (ag_session a))"
  by (auto simp: leads_def notifyRunEnd_def notifyAfterStep_def split: option.split)

lemma completes:
  assumes "ri_run info = runID" "status = RunCompleted \<or> status = RunLimited"
  shows "leads (P i) (complete ro info status) T"
proof -
  let ?Z = "\<lambda>failed a. (failed \<noteq> None \<longrightarrow> (\<forall>e. T (emptyTurn, Some e) a)) \<and> (failed = None \<longrightarrow> Q (turn_of info status (ag_session a), None) (ag_session a))"
  have "leads (P i) (log1 ro (ri_run info) (DRunEnd status)) ?Z"
    by (rule leads_log) (auto intro: Q_refused Q_consumer Q_complete[OF _ assms(2) _ assms(1)] simp: assms(1))
  then show ?thesis
    unfolding complete_def
  proof (rule leads_bind)
    fix failed
    show "leads (?Z failed) (case failed of Some e \<Rightarrow> ret (emptyTurn, Some e)
      | None \<Rightarrow> do { notifyRunEnd ro info status; s \<leftarrow> gets ag_session; ret (turn_of info status s, None) }) T"
      by (auto simp: leads_def notifyRunEnd_def split: option.split)
  qed
qed

lemma fails:
  assumes "ri_run info = runID"
  shows "leads (P i) (failTurn ro info code e retryable) T"
proof -
  let ?st = "failed_status e"
  have ended: "leads (P i) (log1 ro (ri_run info) (DRunEnd ?st)) (\<lambda>_ a. Q (turn_of info ?st (ag_session a), Some e) (ag_session a))"
    by (rule leads_log) (auto intro: Q_failed[OF _ _ assms] Q_unrecorded[OF _ _ assms] simp: assms)
  have "leads (\<lambda>a. Q (turn_of info ?st (ag_session a), Some e) (ag_session a))
      (do { notifyRunEnd ro info ?st; s \<leftarrow> gets ag_session; ret (turn_of info ?st s, Some e) }) T"
    by (auto simp: leads_def notifyRunEnd_def split: option.split)
  then show ?thesis
    unfolding failTurn_def Let_def failed_status_def[symmetric]
    by (intro leads_bind[OF keep_log] leads_bind[OF ended]) auto
qed

lemma append_fails: "ri_run info = runID \<Longrightarrow> leads (P i) (appendFailed ro info e) T"
  unfolding appendFailed_def by (rule fails)

lemma step_fails: "ri_run info = runID \<Longrightarrow> leads (P i) (failStep ro info code e retryable) T"
  unfolding failStep_def by (rule leads_bind[OF keep_log fails]) auto

lemma then_next:
  assumes "leads (P i) m (\<lambda>_. P i)" "ri_run info = runID" "leads (P i) k T"
  shows "leads (P i) (do { failed \<leftarrow> m; case failed of Some e \<Rightarrow> appendFailed ro info e | None \<Rightarrow> k }) T"
  by (rule leads_bind[OF assms(1)]) (auto split: option.split intro: append_fails assms)

lemma step_completes:
  assumes "ri_run info = runID" "status = RunCompleted \<or> status = RunLimited"
  shows "leads (P i) (completeStep ro info status) T"
  unfolding completeStep_def
  by (rule then_next[OF keep_log assms(1) leads_bind[OF notify_end(2) completes]]) (use assms in auto)

end

text \<open>The funnel of tool calls keeps the invariant: it writes calls and results only.\<close>

sublocale turn_contract < guard: run_relation "\<lambda>a b. I i (ag_session a) \<longrightarrow> I i (ag_session b)" "ro_agent ro" ok for i
  by unfold_locales (auto intro: I_append ok_loop)

context turn_contract
begin

lemma keep_execute: "leads (P i) (execute (ro_agent ro) call) (\<lambda>_. P i)"
  unfolding execute_def by (intro leads_stays guard.stays_bind guard.stays_gets guard.stays_execute guard.stays_ret)

lemma keep_bind: "leads (P i) m (\<lambda>_. P i) \<Longrightarrow> (\<And>x. leads (P i) (k x) Z) \<Longrightarrow> leads (P i) (State_Monad.bind m k) Z"
  by (rule leads_bind)

lemma keep_ret: "leads (P i) (ret x) (\<lambda>_. P i)"
  by (rule leads_ret)

lemma keep_gets: "leads (P i) (gets f) (\<lambda>_. P i)"
  by (rule leads_gets)

lemma keep_foreign: "leads (P i) (foreign f) (\<lambda>_. P i)"
  by (rule leads_foreign) simp

lemma keep_modify: "(\<And>a. ag_session (f a) = ag_session a) \<Longrightarrow> leads (P i) (modify f) (\<lambda>_. P i)"
  by (rule leads_modify) simp

lemmas keep_intros = keep_bind keep_ret keep_gets keep_foreign keep_modify keep_log

lemma keep_resolutions: "leads (P i) (appendApprovalResolutions ro r) (\<lambda>_. P i)"
proof -
  have "leads (P i) (logResolutions ro r rs) (\<lambda>_. P i)" for rs
    by (induction rs) (auto intro!: keep_intros split: option.split)
  then show ?thesis unfolding appendApprovalResolutions_def by (intro keep_bind keep_gets)
qed

lemma pauses:
  assumes "ri_run info = runID"
  shows "leads (P i) (pauseForApproval ro info pending call remaining fast) T"
proof -
  let ?ask = "\<lambda>s. case pendingApproval s (ri_run info) of
      Inl e \<Rightarrow> failTurn ro info ''approval_state_invalid'' (plain_error (ao_text (ro_agent ro) (SessionFault e))) False
    | Inr (Some existing) \<Rightarrow>
        if aq_approvalID existing \<noteq> as_approvalID (snd pending)
        then failTurn ro info ''approval_state_conflict'' (plain_error (''run already waits for approval '' @ aq_approvalID existing)) False
        else ret (waiting info)
    | Inr None \<Rightarrow> do {
        failed \<leftarrow> log1 ro (ri_run info) (DApprovalRequested
          \<lparr> aq_approvalID = as_approvalID (snd pending), aq_toolCall = ap_call (fst pending), aq_resumeCall = call,
            aq_remainingCalls = remaining, aq_step = ri_step info, aq_fast = fast, aq_expiresAt = as_expiresAt (snd pending) \<rparr>);
        case failed of Some e \<Rightarrow> appendFailed ro info e | None \<Rightarrow> ret (waiting info) }"
  have requested: "leads (P i) (log1 ro (ri_run info) (DApprovalRequested d)) (\<lambda>failed a. P i a \<and> (failed = None \<longrightarrow> T (waiting info) a))" for d
    by (rule leads_log) (auto simp: assms list_all_iff intro!: ok_loop elim!: I_append intro: Q_paused[OF _ _ assms])
  have new: "leads (P i) (do { failed \<leftarrow> log1 ro (ri_run info) (DApprovalRequested d);
      case failed of Some e \<Rightarrow> appendFailed ro info e | None \<Rightarrow> ret (waiting info) }) T" for d
    by (rule leads_bind[OF requested]) (auto split: option.split intro: leads_ret leads_pre[OF append_fails[OF assms]])
  have "leads (\<lambda>a. P i a \<and> ag_session a = s) (?ask s) T" for s
    by (auto split: sum.split option.split intro!: leads_pre[OF fails[OF assms]] leads_pre[OF new] leads_ret intro: Q_waiting[OF _ _ assms, folded assms])
  then have "leads (P i) (do { s \<leftarrow> gets ag_session; ?ask s }) T"
    by (rule leads_read)
  from then_next[OF keep_resolutions assms this] show ?thesis unfolding pauseForApproval_def .
qed

text \<open>An action that may stop the run.\<close>

definition stops :: "int \<Rightarrow> ('w, turn option) act \<Rightarrow> bool" where
  "stops i m \<longleftrightarrow> leads (P i) m (\<lambda>r a. case r of Some t \<Rightarrow> T t a | None \<Rightarrow> P i a)"

lemma stops_some: "leads (P i) m T \<Longrightarrow> stops i (do { t \<leftarrow> m; ret (Some t) })"
  unfolding stops_def by (erule leads_bind) (rule leads_ret, simp)

lemma stops_none: "stops i (ret None)"
  unfolding stops_def by (rule leads_ret) simp

lemma stops_bind: "leads (P i) m (\<lambda>_. P i) \<Longrightarrow> (\<And>x. stops i (k x)) \<Longrightarrow> stops i (State_Monad.bind m k)"
  unfolding stops_def by (rule keep_bind)

lemma stops_then:
  assumes "stops i m" "leads (P i) k T"
  shows "leads (P i) (do { r \<leftarrow> m; case r of Some t \<Rightarrow> ret t | None \<Rightarrow> k }) T"
  by (rule leads_bind[OF assms(1)[unfolded stops_def]]) (auto split: option.split intro: leads_ret assms(2))

lemma result_stops: "ri_run info = runID \<Longrightarrow> stops i (logResult ro info call result)"
  unfolding logResult_def
  by (auto intro!: stops_bind keep_log keep_resolutions stops_some stops_none append_fails split: option.split)

lemma call_stops: "ri_run info = runID \<Longrightarrow> stops i (executeLoggedToolCall ro info call remaining fast)"
  unfolding executeLoggedToolCall_def
  by (auto intro!: stops_bind keep_execute keep_gets stops_some result_stops pauses fails split: option.split prod.split)

lemma limit_stops: "ri_run info = runID \<Longrightarrow> leads (P i) (stopAtLimit ro info announce observe) T"
  unfolding stopAtLimit_def
  by (auto intro!: keep_bind keep_log keep_ret append_fails completes notify_end(2) split: option.split)

lemma calls_end:
  assumes "ri_run info = runID" "leads (P i) next T"
  shows "leads (P i) (continueToolCalls ro info announce observe next calls) T"
proof (induction calls)
  case Nil
  show ?case
    by (auto intro!: keep_bind keep_log append_fails notify_end(2) assms split: option.split)
next
  case (Cons call rest)
  show ?case
    by (auto intro!: keep_bind[OF keep_gets] keep_bind[OF keep_log] limit_stops append_fails stops_then call_stops Cons assms(1)
        split: option.split)
qed

lemma keep_summary:
  assumes "summary_within ok script"
  shows "leads (P i) (runSummary ro script) (\<lambda>_. P i)"
  using assms
proof (induction script)
  case (SummaryAppend r data w k)
  then have k: "leads (P i) (runSummary ro (k x s' w')) (\<lambda>_. P i)" for x s' w'
    using SummaryAppend.IH[OF rangeI rangeI rangeI] by simp
  have append: "I i s'" if "I i s" "appendEvent (ao_clock (ro_agent ro)) s r data = Inr (ev, s')" for s s' ev
    using that SummaryAppend.prems by (auto simp: appendEvent_def rbind_eq_Inr elim!: I_append)
  have commit: "leads (\<lambda>a. P i a \<and> ag_session a = s) (case appendEvent (ao_clock (ro_agent ro)) s r data of
      Inl e \<Rightarrow> runSummary ro (k (Inl e) s w)
    | Inr (ev, s') \<Rightarrow> do { modify (\<lambda>a. a\<lparr> ag_session := s' \<rparr>); runSummary ro (k (Inr ev) s' w) }) (\<lambda>_. P i)" for s
  proof (cases "appendEvent (ao_clock (ro_agent ro)) s r data")
    case (Inl e)
    then show ?thesis by (simp add: leads_and[OF k])
  next
    case (Inr x)
    obtain ev s' where x: "x = (ev, s')" by force
    have "leads (\<lambda>a. P i a \<and> ag_session a = s) (modify (\<lambda>a. a\<lparr> ag_session := s' \<rparr>)) (\<lambda>_. P i)"
      using append Inr x by (auto intro: leads_modify)
    with Inr x show ?thesis by (simp add: leads_bind[OF _ k])
  qed
  show ?case
    unfolding runSummary.simps by (intro keep_bind[OF keep_modify] leads_read commit) simp
next
  case (SummaryEmit ev w k)
  then have k: "leads (P i) (runSummary ro (k w')) (\<lambda>_. P i)" for w'
    using SummaryEmit.IH[OF rangeI] by simp
  have "leads (P i) (case ao_onEvent (ro_agent ro) of None \<Rightarrow> ret None | Some f \<Rightarrow> deliverEvents f [ev]) (\<lambda>_. P i)"
    by (auto simp del: deliverEvents.simps intro!: leads_stays guard.stays_deliver guard.stays_ret split: option.split)
  then show ?case
    unfolding runSummary.simps by (intro keep_bind keep_modify keep_gets k) auto
qed (auto intro!: keep_intros)

text \<open>An action that gives the messages for the model or ends the turn.\<close>

definition yields :: "int \<Rightarrow> ('w, turn + 'a) act \<Rightarrow> bool" where
  "yields i m \<longleftrightarrow> leads (P i) m (\<lambda>r a. case r of Inl t \<Rightarrow> T t a | Inr _ \<Rightarrow> P i a)"

lemma yields_turn: "leads (P i) m T \<Longrightarrow> yields i (do { t \<leftarrow> m; ret (Inl t) })"
  unfolding yields_def by (erule leads_bind) (rule leads_ret, simp)

lemma yields_value: "yields i (ret (Inr x))"
  unfolding yields_def by (rule leads_ret) simp

lemma yields_bind: "leads (P i) m (\<lambda>_. P i) \<Longrightarrow> (\<And>x. yields i (k x)) \<Longrightarrow> yields i (State_Monad.bind m k)"
  unfolding yields_def by (rule keep_bind)

lemma yields_then:
  assumes "yields i m" "\<And>x. leads (P i) (k x) T"
  shows "leads (P i) (do { r \<leftarrow> m; case r of Inl t \<Rightarrow> ret t | Inr x \<Rightarrow> k x }) T"
  by (rule leads_bind[OF assms(1)[unfolded yields_def]]) (auto split: sum.split intro: leads_ret assms(2))

lemma keep_limit: "leads (P i) (limitReached info) (\<lambda>_. P i)"
  unfolding limitReached_def by (rule keep_gets)

lemma compact_yields: "ri_run info = runID \<Longrightarrow> yields i (orCompact ro info ms)"
  unfolding orCompact_def compactMessages_def
  by (auto intro!: yields_bind keep_intros yields_turn yields_value step_fails split: option.split context_compactor.split sum.split)

lemma full_yields:
  assumes "ri_run info = runID"
  shows "yields i (fullMessages ro info)"
proof -
  have rest: "yields i (summarizeMessages ro info s ms)" for s ms
    unfolding summarizeMessages_def
    by (auto intro!: yields_bind keep_gets keep_summary ok_summary yields_turn step_fails keep_limit step_completes
        compact_yields assms split: sum.split option.split)
  have "leads (\<lambda>a. P i a \<and> ag_session a = s) (case deriveMessages s of
       Inl e \<Rightarrow> do {
         t \<leftarrow> failStep ro info ''history_projection_failed'' (plain_error (ao_text (ro_agent ro) (SessionFault e))) False;
         ret (Inl t) }
     | Inr (messages, s') \<Rightarrow> do {
         modify (\<lambda>a. a\<lparr> ag_session := s' \<rparr>);
         summarizeMessages ro info s' messages }) (\<lambda>r a. case r of Inl t \<Rightarrow> T t a | Inr _ \<Rightarrow> P i a)" for s
  proof (cases "deriveMessages s")
    case (Inl e)
    then show ?thesis by (simp add: leads_and[OF yields_turn[OF step_fails[OF assms], unfolded yields_def]])
  next
    case (Inr x)
    obtain ms s' where x: "x = (ms, s')" by force
    have "leads (\<lambda>a. P i a \<and> ag_session a = s) (modify (\<lambda>a. a\<lparr> ag_session := s' \<rparr>)) (\<lambda>_. P i)"
      using I_derive Inr x by (auto intro: leads_modify)
    with Inr x show ?thesis by (simp add: leads_bind[OF _ rest[unfolded yields_def]])
  qed
  then show ?thesis unfolding yields_def fullMessages_def by (rule leads_read)
qed

lemma messages_yield: "ri_run info = runID \<Longrightarrow> yields i (stepMessages ro info)"
  unfolding stepMessages_def
  by (auto intro!: yields_bind keep_gets full_yields yields_value split: option.split context_compactor.split)

lemma keep_stream: "(\<And>c. leads (P i) (callback c) (\<lambda>_. P i)) \<Longrightarrow> leads (P i) (runStream wording (Some callback) stream st) (\<lambda>_. P i)"
proof (induction stream arbitrary: st)
  case (StreamEmit chunk w k)
  have k: "leads (P i) (runStream wording (Some callback) (k x w') st') (\<lambda>_. P i)" for x w' st'
    using StreamEmit by blast
  have "leads (P i) (emitChunk wording (Some callback) chunk st) (\<lambda>_. P i)"
    unfolding emitChunk_def acceptAssistant_def Let_def by (auto intro!: keep_bind keep_ret StreamEmit.prems)
  then show ?case unfolding runStream.simps by (intro keep_bind keep_modify keep_gets k) simp
qed (auto intro!: keep_intros)

lemma keep_call: "leads (P i) (callModel ro info step ms) (\<lambda>_. P i)"
proof -
  have "leads (P i) (prepareModelCall ro info step ms) (\<lambda>_. P i)"
    unfolding prepareModelCall_def safeAssembleModelContext_def gateCall_def safeAuthorizeModelCall_def Let_def
    by (auto intro!: keep_intros split: option.split sum.split prod.split)
  moreover have "leads (P i) (consumeModelStream (ro_agent ro) stream (Some (\<lambda>chunk.
      if ro_streamChunks ro \<and> sk_text chunk \<noteq> []
      then do { e \<leftarrow> log1 ro (ri_run info) (DAssistantChunk (sk_text chunk)); ret (Returns e) } else ret (Returns None)))) (\<lambda>_. P i)" for stream
    unfolding consumeModelStream_def by (auto intro!: keep_intros keep_stream split: prod.split)
  ultimately show ?thesis
    unfolding callModel_def by (auto intro!: keep_bind keep_ret keep_gets split: sum.split prod.split)
qed

lemma step_ends:
  assumes "ri_run info = runID" "ri_step info = i" "i < ao_maxSteps (ro_agent ro)" "leads (P (i + 1)) next T"
  shows "leads (P i) (modelStep ro info next) T"
proof -
  have answered: "leads (P (i + 1)) (answeredCall ro info seq stream next) T" for seq stream
    unfolding answeredCall_def usage_data_def
    by (auto intro!: keep_bind leads_stays guard.stays_append keep_limit append_fails step_completes calls_end assms ok_loop split: option.split)
  have failed: "leads (P (i + 1)) (failedCall ro info seq stream code e) T" for seq stream code e
    unfolding failedCall_def usage_data_def by (auto intro!: keep_bind keep_log keep_ret fails step_fails assms)
  let ?rest = "do {
      stepStartSeq \<leftarrow> gets (\<lambda>a. sessionVersion (ag_session a) - 1);
      messages \<leftarrow> stepMessages ro info;
      case messages of
        Inl t \<Rightarrow> ret t
      | Inr ms \<Rightarrow> do {
          (stream, code, err) \<leftarrow> callModel ro info (ri_step info) ms;
          case err of Some e \<Rightarrow> failedCall ro info stepStartSeq stream code e | None \<Rightarrow> answeredCall ro info stepStartSeq stream next } }"
  have rest: "leads (P (i + 1)) ?rest T"
    by (auto intro!: keep_bind[OF keep_gets] yields_then messages_yield keep_bind[OF keep_call] answered failed assms(1)
        split: prod.split option.split)
  have started: "leads (P i) (log1 ro (ri_run info) (DStepStart (ri_step info)))
      (\<lambda>failed a. (failed \<noteq> None \<longrightarrow> P i a \<or> P (i + 1) a) \<and> (failed = None \<longrightarrow> P (i + 1) a))"
    by (rule leads_log) (auto simp: assms(1,2) intro: I_step[OF _ assms(3)])
  have refused: "leads (\<lambda>a. P i a \<or> P (i + 1) a) (appendFailed ro info e) T" for e
    by (intro leads_or append_fails assms(1))
  have begun: "leads (P i) (do {
      failed \<leftarrow> log1 ro (ri_run info) (DStepStart (ri_step info));
      case failed of Some e \<Rightarrow> appendFailed ro info e | None \<Rightarrow> ?rest }) T"
    by (rule leads_bind[OF started]) (auto split: option.split intro: leads_pre[OF refused] leads_pre[OF rest])
  show ?thesis
    unfolding modelStep_def
    by (auto intro!: keep_bind keep_limit completes begun keep_ret keep_foreign fails assms(1) split: option.split)
qed

lemma steps_end:
  assumes "ri_run info = runID"
  shows "leads (P step) (runModelSteps ro info step) T"
  using assms
proof (induction "nat (ao_maxSteps (ro_agent ro) - step)" arbitrary: info step rule: less_induct)
  case less
  show ?case
  proof (cases "step \<ge> ao_maxSteps (ro_agent ro)")
    case True
    then show ?thesis using completes less.prems by (simp add: runModelSteps.simps)
  next
    case False
    let ?info = "info\<lparr> ri_step := step \<rparr>"
    have "leads (P (step + 1)) (runModelSteps ro ?info (step + 1)) T"
      using False less.prems by (intro less.hyps) auto
    with False less.prems have "leads (P step) (modelStep ro ?info (runModelSteps ro ?info (step + 1))) T"
      by (intro step_ends) auto
    with False show ?thesis by (simp add: runModelSteps.simps[of ro info])
  qed
qed

lemma route_ends: "ri_run info = runID \<Longrightarrow> leads (P 0) (routeOrModel ro info input) T"
proof -
  assume info: "ri_run info = runID"
  have route: "leads (P i) (runRoute ro rule call) (\<lambda>_. P i)" for i rule call
    unfolding runRoute_def recordFastToolCall_def Let_def
    by (auto intro!: keep_intros keep_execute split: option.split prod.split)
  have matched: "leads (P i) (dispatchMatched ro rule input) (\<lambda>_. P i)" for i rule
    unfolding dispatchMatched_def newID_def
    by (auto intro!: keep_intros route split: option.split outcome.split sum.split)
  have "leads (P i) (dispatchRules ro input rules) (\<lambda>_. P i)" for i rules
    by (induction rules) (auto intro!: keep_intros matched split: option.split outcome.split)
  moreover have "leads (P i) (finishRoute ro info d) T" for i d
    unfolding finishRoute_def
    by (auto intro!: stops_then keep_bind[OF keep_log] result_stops stops_none append_fails completes info split: option.split)
  ultimately show ?thesis
    unfolding routeOrModel_def
    by (auto intro!: keep_bind steps_end append_fails pauses fails info split: option.split outcome.split prod.split run_error.split)
qed

lemma resumption_ends: "ri_run info = runID \<Longrightarrow> ri_step info = i \<Longrightarrow> leads (P (i + 1)) (resumeApproval ro info pending) T"
  unfolding resumeApproval_def
  by (auto intro!: stops_then call_stops calls_end steps_end keep_bind[OF keep_gets] keep_bind[OF keep_log] leads_ret append_fails completes
      split: sum.split option.split simp: refuse_def intro: Q_refused)

lemma turn_opens:
  assumes "tu_runID input = runID"
    and "leads Z (log1 ro runID (DRunStart start)) (\<lambda>failed a. if failed = None then P 0 a else \<forall>e. T (emptyTurn, Some e) a)"
  shows "leads Z (openTurn ro input start) T"
proof -
  have begun: "leads (P 0) (do {
      failed \<leftarrow> log1 ro runID (DUserMessage (tu_text input));
      case failed of
        Some e \<Rightarrow> appendFailed ro (session_info s runID 0) e
      | None \<Rightarrow> do {
          rejected \<leftarrow> (case ao_hooks (ro_agent ro) of
              None \<Rightarrow> ret None
            | Some h \<Rightarrow> do { r \<leftarrow> foreign (hk_runStart h (session_info s runID 0)); ret (safeCallError ''run hook OnRunStart panicked'' r) });
          case rejected of
            Some e \<Rightarrow> failTurn ro (session_info s runID 0) ''input_rejected'' e False
          | None \<Rightarrow> routeOrModel ro (session_info s runID 0) (tu_text input) } }) T" for s
    by (auto intro!: keep_bind keep_log keep_ret keep_foreign append_fails fails route_ends split: option.split simp: session_info_def)
  have started: "leads (\<lambda>a. if failed = None then P 0 a else \<forall>e. T (emptyTurn, Some e) a)
      (case failed of Some e \<Rightarrow> ret (emptyTurn, Some e) | None \<Rightarrow> k) T" if "leads (P 0) k T" for failed k
    using that by (cases failed) (auto intro: leads_ret)
  show ?thesis
    unfolding openTurn_def Let_def assms(1)
    by (rule leads_read) (rule leads_and[OF leads_bind[OF assms(2) started[OF begun]]])
qed

end

end
