(* ===== verification/Turn_Facts.thy ===== *)
theory Turn_Facts
  imports Turn_Contract Session_Index
begin

text \<open>
  What a turn guarantees, as interpretations of the turn contract. Every entry point only extends the log of
  its session and keeps it well formed. A turn that reports an end has recorded it: the status of the run in
  the log is the reported one, a failed turn is closed as failed or cancelled unless the log is full, and the
  number of model steps stays within the limit.
\<close>

section \<open>The log of a session grows\<close>

definition log_grown :: "session_event list \<Rightarrow> session \<Rightarrow> bool" where
  "log_grown base s \<longleftrightarrow> session_ok s \<and> prefix base (se_events s)"

lemma append_grown:
  assumes "log_grown base s" "appendBatch clock s entries = Inr (evs, s')"
  shows "log_grown base s'"
proof -
  have "session_ok s" using assms(1) by (simp add: log_grown_def)
  then have "session_ok s' \<and> se_events s' = se_events s @ evs" by (rule append_committed[OF _ assms(2)]) blast
  then show ?thesis using assms(1) by (auto simp: log_grown_def prefix_def)
qed

lemma derive_session:
  assumes "deriveMessages s = Inr (ms, s')"
  shows "session_ok s' = session_ok s" "se_events s' = se_events s" "se_runIndex s' = se_runIndex s" "eventCap s' = eventCap s"
proof -
  have f: "se_events s' = se_events s \<and> se_runIndex s' = se_runIndex s \<and> se_runStarts s' = se_runStarts s
      \<and> se_summaryEvents s' = se_summaryEvents s \<and> eventCap s' = eventCap s"
    using assms by (auto simp: deriveMessages_def Let_def rbind_eq_Inr eventCap_def split: if_splits)
  then show "se_events s' = se_events s" "se_runIndex s' = se_runIndex s" "eventCap s' = eventCap s" by blast+
  show "session_ok s' = session_ok s" by (rule session_ok_cong) (use f in simp_all)
qed

lemma derive_grown: "log_grown base s \<Longrightarrow> deriveMessages s = Inr (ms, s') \<Longrightarrow> log_grown base s'"
  by (simp add: log_grown_def derive_session)

lemma summary_within_all: "summary_within (\<lambda>_. True) script"
proof (induction script)
  case (SummaryAppend r data w k)
  show ?case using SummaryAppend[OF rangeI rangeI rangeI] by simp
next
  case (SummaryEmit ev w k)
  show ?case using SummaryEmit[OF rangeI] by simp
qed simp

interpretation grow: turn_contract ro runID "\<lambda>_. True" "\<lambda>_. log_grown base" "\<lambda>_. log_grown base" for ro runID base
  by unfold_locales (auto simp: summary_within_all intro: append_grown derive_grown)

lemma restore_session [simp]: "ag_session (restoreRunState runID a) = ag_session a"
proof -
  have "ag_session (fst (fold (restoreEvent runID) evs st)) = ag_session (fst st)" for evs and st :: "'a agent \<times> string list"
    by (induction evs arbitrary: st) (auto simp: restoreEvent_def Let_def split: prod.split option.split event_data.split)
  then show ?thesis by (simp add: restoreRunState_def fresh_run_def)
qed

definition entry_point :: "'w run_options \<Rightarrow> ('w, turn) act \<Rightarrow> bool" where
  "entry_point ro m \<longleftrightarrow> (\<exists>input. m = runTurn ro input) \<or> (\<exists>runID. m = resumeTurn ro runID \<or> m = continueTurn ro runID)"

lemma run_grows: "leads (\<lambda>a. log_grown base (ag_session a)) (runTurn ro input) (\<lambda>_ a. log_grown base (ag_session a))"
proof -
  have "leads (\<lambda>a. log_grown base (ag_session a)) (log1 ro runID d)
      (\<lambda>failed a. if failed = None then log_grown base (ag_session a) else \<forall>e::go_error. log_grown base (ag_session a))" for runID d
    by (rule leads_log) (auto intro: append_grown)
  then have "leads (\<lambda>a. log_grown base (ag_session a)) (openTurn ro input start) (\<lambda>_ a. log_grown base (ag_session a))" for start
    by (rule grow.turn_opens[OF refl])
  then show ?thesis
    unfolding runTurn_def by (auto intro!: leads_ret grow.keep_bind[OF grow.keep_modify] simp: fresh_run_def split: sum.split)
qed

lemma resume_grows: "leads (\<lambda>a. log_grown base (ag_session a)) (resumeTurn ro runID) (\<lambda>_ a. log_grown base (ag_session a))"
  unfolding resumeTurn_def
  by (auto intro!: leads_ret leads_read leads_and grow.keep_bind grow.keep_modify grow.keep_log
      grow.resumption_ends split: sum.split option.split simp: session_info_def)

lemma continue_grows: "leads (\<lambda>a. log_grown base (ag_session a)) (continueTurn ro runID) (\<lambda>_ a. log_grown base (ag_session a))"
  unfolding continueTurn_def Let_def
  by (auto intro!: leads_ret leads_read leads_and grow.keep_bind grow.keep_modify grow.calls_end grow.steps_end
      split: sum.split option.split prod.split simp: session_info_def)

text \<open>C15: Whatever a turn, a resumption or a continuation does, and whatever hooks, tools, model, summarizer and
  event consumer do, the log of the session is only extended and stays well formed.
\<close>
theorem turn_extends_log:
  assumes "entry_point ro m" "session_ok (ag_session a)" "run_state m a = (t, b)"
  shows "session_ok (ag_session b) \<and> prefix (se_events (ag_session a)) (se_events (ag_session b))"
proof -
  let ?base = "se_events (ag_session a)"
  have "leads (\<lambda>a. log_grown ?base (ag_session a)) m (\<lambda>_ a. log_grown ?base (ag_session a))"
    using assms(1) run_grows resume_grows continue_grows by (auto simp: entry_point_def)
  from leadsD[OF this _ assms(3)] assms(2) show ?thesis by (simp add: log_grown_def)
qed

section \<open>The reported end is the recorded one\<close>

text \<open>A run that has started and not ended.\<close>

definition run_open :: "string \<Rightarrow> session \<Rightarrow> bool" where
  "run_open r s \<longleftrightarrow> (\<exists>e. map_of (se_runIndex s) r = Some e \<and> \<not> ri_ended e)"

definition run_steps :: "string \<Rightarrow> session \<Rightarrow> nat" where
  "run_steps r s = length (filter (\<lambda>ev. ev_runID ev = r \<and> ev_type ev = EvStepStart) (se_events s))"

lemma prepared_kind:
  assumes "prepareEntry (r, d) = Inr p"
  shows "ae_runID p = r \<and> ae_kind p = append_kind d \<and> ae_typed p = append_typed d"
  using assms by (auto simp: prepareEntry_def Let_def rbind_eq_Inr split: option.splits if_splits)

lemma index_commit: "map_of (se_runIndex (commit clock s p)) r =
    (if r = ae_runID p then Some (entryStep (event_of clock s p) (ae_typed p) (run_entry s r)) else map_of (se_runIndex s) r)"
  by (simp add: commitEntry_simps indexEvent_def entryStep_def event_of_def Let_def)

lemma indexData_ended: "kind_of d \<noteq> EvRunEnd \<Longrightarrow> ri_ended (indexData n d e) = ri_ended e"
  by (cases d) simp_all

lemma commit_open:
  assumes "run_open r s" "entry_fits p" "ae_kind p \<noteq> EvRunEnd"
  shows "run_open r (commit clock s p)"
proof (cases "r = ae_runID p")
  case True
  have "ri_ended (entryStep (event_of clock s p) (ae_typed p) e) = ri_ended e" for e
  proof (cases "eventData (ae_typed p) (ae_kind p) (ae_raw p)")
    case (Some d)
    have "kind_of d \<noteq> EvRunEnd" using eventData_kind[OF assms(2) Some] assms(3) by simp
    with Some show ?thesis by (simp add: entryStep_def indexData_ended event_of_def)
  qed (simp add: entryStep_def event_of_def)
  moreover obtain e where "map_of (se_runIndex s) r = Some e" "\<not> ri_ended e" using assms(1) by (auto simp: run_open_def)
  ultimately show ?thesis unfolding run_open_def index_commit using True by (simp add: mget_def)
qed (use assms(1) in \<open>auto simp: run_open_def index_commit\<close>)

lemma committed_all:
  assumes "list_all2 (\<lambda>x p. prepareEntry x = Inr p) entries ps" "list_all loop_entry entries" "run_open r s"
  shows "run_open r (fold (\<lambda>e s. commit clock s e) ps s)"
  using assms
proof (induction entries ps arbitrary: s rule: list_all2_induct)
  case (Cons x xs p ps)
  have "run_open r (commit clock s p)"
    using Cons.prems prepareEntry_fits[OF Cons.hyps(1)] prepared_kind[of "fst x" "snd x" p] Cons.hyps(1)
    by (intro commit_open) (auto simp: loop_entry_def)
  then show ?case using Cons.prems Cons.IH by simp
qed simp

lemma append_open:
  assumes "session_ok s" "appendBatch clock s entries = Inr (evs, s')" "list_all loop_entry entries"
  shows "run_open r s \<Longrightarrow> run_open r s'" "run_steps r s' = run_steps r s"
proof -
  obtain ps where ps: "list_all2 (\<lambda>x p. prepareEntry x = Inr p) entries ps" "s' = fold (\<lambda>e s. commit clock s e) ps s"
    "se_events s' = se_events s @ evs"
    "map (\<lambda>e. (ev_runID e, ev_type e)) evs = map (\<lambda>(runID, data). (runID, append_kind data)) entries"
    by (rule append_committed[OF assms(1,2)])
  show "run_open r s \<Longrightarrow> run_open r s'" using committed_all[OF ps(1) assms(3)] ps(2) by simp
  have "list_all (\<lambda>ev. ev_type ev \<noteq> EvStepStart) evs"
    using assms(3) arg_cong[OF ps(4), of "list_all (\<lambda>(_, k). k \<noteq> EvStepStart)"]
    by (auto simp: list_all_iff loop_entry_def split_beta)
  then show "run_steps r s' = run_steps r s" by (auto simp: run_steps_def ps(3) filter_empty_conv list_all_iff)
qed

text \<open>One typed entry.\<close>

lemma append_typed_entry:
  assumes "session_ok s" "appendBatch clock s [(r, Typed d)] = Inr (evs, s')"
  obtains p where "ae_runID p = r" "ae_kind p = kind_of d" "ae_typed p = Some d" "s' = commit clock s p" "session_ok s'"
    "se_events s' = se_events s @ [event_of clock s p]"
proof -
  obtain ps where ps: "list_all2 (\<lambda>x p. prepareEntry x = Inr p) [(r, Typed d)] ps" "s' = fold (\<lambda>e s. commit clock s e) ps s" "session_ok s'"
    by (rule append_committed[OF assms])
  then obtain p where p: "prepareEntry (r, Typed d) = Inr p" "s' = commit clock s p" by (auto simp: list_all2_Cons1)
  from that[of p] prepared_kind[OF p(1)] p(2) ps(3) show thesis by (simp add: commitEntry_simps)
qed

lemma end_status:
  assumes "session_ok s" "run_open r s" "appendBatch clock s [(r, Typed (DRunEnd status))] = Inr (evs, s')" "validateRunID r"
  shows "runStatus s' r = (status, True)"
proof -
  obtain p where p: "ae_runID p = r" "ae_kind p = EvRunEnd" "ae_typed p = Some (DRunEnd status)" "s' = commit clock s p"
    by (rule append_typed_entry[OF assms(1,3)]) simp
  from assms(2) obtain e where "map_of (se_runIndex s) r = Some e" "\<not> ri_ended e" by (auto simp: run_open_def)
  with p show ?thesis
    using assms(4) by (simp add: runStatus_def index_commit entryStep_def event_of_def eventData_def mget_def)
qed

lemma paused_status:
  assumes "session_ok s" "run_open r s" "appendBatch clock s [(r, Typed (DApprovalRequested d))] = Inr (evs, s')" "validateRunID r"
  shows "runStatus s' r = (RunWaitingApproval, True)"
proof -
  obtain p where p: "ae_runID p = r" "ae_kind p = EvApprovalRequested" "ae_typed p = Some (DApprovalRequested d)"
    "s' = commit clock s p"
    by (rule append_typed_entry[OF assms(1,3)]) simp
  from assms(2) obtain e where e: "map_of (se_runIndex s) r = Some e" "\<not> ri_ended e" by (auto simp: run_open_def)
  have "mput k v m \<noteq> []" for k v and m :: "(string, int) gomap" by (cases m) auto
  with p e show ?thesis
    using assms(4) by (simp add: runStatus_def index_commit entryStep_def event_of_def eventData_def mget_def)
qed

lemma waiting_status:
  assumes "run_open r s" "pendingApproval s r = Inr (Some d)" "validateRunID r"
  shows "runStatus s r = (RunWaitingApproval, True)"
  using assms by (auto simp: run_open_def pendingApproval_def runStatus_def split: if_splits option.splits)

text \<open>The end of a failed run is refused by a full log only.\<close>

lemma failed_end_prepared:
  assumes "validateRunID r"
  shows "\<exists>p. prepareEntry (r, Typed (DRunEnd (failed_status e))) = Inr p"
proof -
  have "is_ok (marshalPayload (Typed (DRunEnd RunFailed))) \<and> is_ok (marshalPayload (Typed (DRunEnd RunCancelled)))
    \<and> validateEventData (DRunEnd RunFailed) = None \<and> validateEventData (DRunEnd RunCancelled) = None"
    by code_simp
  then show ?thesis
    using assms by (auto simp: prepareEntry_def failed_status_def reject_if_def elim!: is_ok.elims)
qed

lemma failed_end_refused:
  assumes "session_ok s" "validateRunID r" "appendBatch clock s [(r, Typed (DRunEnd (failed_status e)))] = Inl x"
  shows "eventCap s \<le> int (length (se_events s))"
proof (rule ccontr)
  assume room: "\<not> eventCap s \<le> int (length (se_events s))"
  obtain p where p: "prepareEntry (r, Typed (DRunEnd (failed_status e))) = Inr p" using failed_end_prepared[OF assms(2)] by blast
  have "ae_kind p = EvRunEnd" using prepared_kind[OF p] by simp
  then have "steps_ok clock s [p]" by (simp add: validateAppendStep_def)
  moreover have "list_all2 (\<lambda>x p. prepareEntry x = Inr p) [(r, Typed (DRunEnd (failed_status e)))] [p]" using p by simp
  moreover have "\<forall>r. usage_ok (ri_usage (run_entry s r))" using assms(1) by (simp add: session_ok_def)
  ultimately have "appendBatch clock s [(r, Typed (DRunEnd (failed_status e)))] = Inr (commitAll clock s [p])"
    using appendBatch_eq[of s clock "[(r, Typed (DRunEnd (failed_status e)))]" "fst (commitAll clock s [p])" "snd (commitAll clock s [p])"] room
    by (auto intro!: exI[of _ "[p]"])
  with assms(3) show False by simp
qed

text \<open>A summarizer that leaves the bounds of runs and steps to the loop.\<close>

definition tame :: "'w run_options \<Rightarrow> bool" where
  "tame ro \<longleftrightarrow> (\<forall>f s r ms w. ro_summarizer ro = Some f \<longrightarrow> summary_within loop_entry (f s r ms w))"

lemma summary_tame: "ro_summarizer ro = Some f \<Longrightarrow> summary_within (\<lambda>e. loop_entry e \<or> \<not> tame ro) (f s r ms w)"
proof (cases "tame ro")
  case True
  then show "ro_summarizer ro = Some f \<Longrightarrow> ?thesis" by (simp add: tame_def)
qed (simp add: summary_within_all)

definition turn_recorded :: "string \<Rightarrow> turn \<Rightarrow> session \<Rightarrow> bool" where
  "turn_recorded r t s \<longleftrightarrow>
     (case snd t of
        None \<Rightarrow> runStatus s r = (tn_status (fst t), True) \<and> tn_status (fst t) \<in> {RunCompleted, RunLimited, RunWaitingApproval}
          \<and> tn_run (fst t) = r \<and> (tn_status (fst t) \<noteq> RunWaitingApproval \<longrightarrow> tn_answer (fst t) = lastAssistantText (rev (se_events s)) r)
      | Some e \<Rightarrow> fst t = emptyTurn \<or> tn_run (fst t) = r \<and> tn_status (fst t) = failed_status e
          \<and> (runStatus s r = (failed_status e, True) \<or> eventCap s \<le> int (length (se_events s))))"

definition in_run :: "'w run_options \<Rightarrow> string \<Rightarrow> session \<Rightarrow> bool" where
  "in_run ro r s \<longleftrightarrow> (tame ro \<longrightarrow> session_ok s \<and> validateRunID r \<and> run_open r s)"

lemma in_run_append:
  assumes "in_run ro r s" "appendBatch clock s entries = Inr (evs, s')" "list_all (\<lambda>e. loop_entry e \<or> \<not> tame ro) entries"
  shows "in_run ro r s'"
  unfolding in_run_def
proof (intro impI conjI)
  assume t: "tame ro"
  with assms have s: "session_ok s" "list_all loop_entry entries" "run_open r s" by (auto simp: in_run_def)
  show "session_ok s'" by (rule append_committed[OF s(1) assms(2)])
  show "run_open r s'" by (rule append_open(1)[OF s(1) assms(2) s(2,3)])
  show "validateRunID r" using assms(1) t by (simp add: in_run_def)
qed

lemma step_open:
  assumes "session_ok s" "appendBatch clock s [(r, Typed (DStepStart i))] = Inr (evs, s')"
  shows "session_ok s'" "run_open r s \<Longrightarrow> run_open r s'" "run_steps r s' = run_steps r s + 1"
proof -
  obtain p where p: "ae_runID p = r" "ae_kind p = EvStepStart" "ae_typed p = Some (DStepStart i)" "s' = commit clock s p" "session_ok s'"
    "se_events s' = se_events s @ [event_of clock s p]"
    by (rule append_typed_entry[OF assms]) simp
  show "session_ok s'" by (rule p(5))
  show "run_steps r s' = run_steps r s + 1" using p(1,2) by (simp add: run_steps_def p(6) event_of_def)
  show "run_open r s \<Longrightarrow> run_open r s'"
    using p(1-4) by (auto simp: run_open_def index_commit entryStep_def event_of_def eventData_def mget_def)
qed

lemma derive_open: "deriveMessages s = Inr (ms, s') \<Longrightarrow> run_open r s' = run_open r s" "deriveMessages s = Inr (ms, s') \<Longrightarrow> run_steps r s' = run_steps r s"
  by (simp_all add: run_open_def run_steps_def derive_session)

lemma status_contract: "turn_contract ro r (\<lambda>e. loop_entry e \<or> \<not> tame ro) (\<lambda>_. in_run ro r) (\<lambda>t s. tame ro \<longrightarrow> turn_recorded r t s)"
proof (unfold_locales, goal_cases)
  case 2
  then show ?case by (rule summary_tame)
next
  case 3
  then show ?case by (rule in_run_append)
next
  case (5 i s evs s')
  then show ?case using step_open(1,2)[OF _ 5(3)] by (simp add: in_run_def)
qed (auto simp: loop_entry_def in_run_def derive_session derive_open turn_recorded_def turn_of_def waiting_def
  end_status paused_status waiting_status failed_end_refused)

interpretation status: turn_contract ro r "\<lambda>e. loop_entry e \<or> \<not> tame ro" "\<lambda>_. in_run ro r" "\<lambda>t s. tame ro \<longrightarrow> turn_recorded r t s" for ro r
  by (rule status_contract)

text \<open>Where a turn may begin: a new run, or one that is open in the log.\<close>

definition run_new :: "string \<Rightarrow> session \<Rightarrow> bool" where
  "run_new r s \<longleftrightarrow> map_of (se_runIndex s) r = None \<and> list_all (\<lambda>ev. ev_runID ev \<noteq> r) (se_events s)"

lemma start_opens:
  assumes "session_ok s" "run_new r s" "appendBatch clock s [(r, Typed (DRunStart d))] = Inr (evs, s')"
  shows "session_ok s'" "run_open r s'" "run_steps r s' = 0"
proof -
  obtain p where p: "ae_runID p = r" "ae_kind p = EvRunStart" "ae_typed p = Some (DRunStart d)" "s' = commit clock s p" "session_ok s'"
    "se_events s' = se_events s @ [event_of clock s p]"
    by (rule append_typed_entry[OF assms(1,3)]) simp
  show "session_ok s'" by (rule p(5))
  show "run_open r s'" using p(1-4) assms(2) by (simp add: run_open_def index_commit entryStep_def event_of_def run_new_def mget_def)
  show "run_steps r s' = 0"
    using assms(2) p(2) by (auto simp: run_steps_def p(6) event_of_def run_new_def filter_empty_conv list_all_iff)
qed

definition begins :: "'w run_options \<Rightarrow> string \<Rightarrow> session \<Rightarrow> ('w, turn) act \<Rightarrow> bool" where
  "begins ro r s m \<longleftrightarrow> (\<exists>input. m = runTurn ro input \<and> tu_runID input = r) \<and> run_new r s
     \<or> (m = resumeTurn ro r \<or> m = continueTurn ro r) \<and> validateRunID r \<and> run_open r s"

lemma refused_recorded: "turn_recorded r (emptyTurn, Some e) s" "turn_recorded r (refuse ro f) s" "turn_recorded r (failure c ro) s"
  by (simp_all add: turn_recorded_def refuse_def failure_def)

lemma run_recorded:
  assumes "tame ro" "tu_runID input = r"
  shows "leads (\<lambda>a. session_ok (ag_session a) \<and> run_new r (ag_session a)) (runTurn ro input) (\<lambda>t a. turn_recorded r t (ag_session a))"
proof (cases "validateRunID r")
  case True
  let ?Z = "\<lambda>a. session_ok (ag_session a) \<and> run_new r (ag_session a)"
  have "leads ?Z (log1 ro r (DRunStart d)) (\<lambda>failed a. if failed = None then in_run ro r (ag_session a)
      else \<forall>e. tame ro \<longrightarrow> turn_recorded r (emptyTurn, Some e) (ag_session a))" for d
    by (rule leads_log) (auto simp: in_run_def True refused_recorded intro: start_opens)
  from status.turn_opens[OF assms(2) this]
  have "leads ?Z (openTurn ro input start) (\<lambda>t a. turn_recorded r t (ag_session a))" for start
    using assms(1) by simp
  moreover have "leads ?Z (modify (fresh_run r revision)) (\<lambda>_. ?Z)" for revision
    by (rule leads_modify) (simp add: fresh_run_def)
  ultimately show ?thesis
    unfolding runTurn_def by (auto intro!: leads_ret leads_bind refused_recorded split: sum.split simp: assms(2))
qed (auto simp: runTurn_def assms(2) refused_recorded intro: leads_ret)

lemma open_recorded:
  assumes "tame ro"
  shows "leads (\<lambda>a. in_run ro r (ag_session a)) (resumeTurn ro r) (\<lambda>t a. turn_recorded r t (ag_session a))"
    "leads (\<lambda>a. in_run ro r (ag_session a)) (continueTurn ro r) (\<lambda>t a. turn_recorded r t (ag_session a))"
proof -
  note ends = status.resumption_ends[of _ r, OF _ refl] status.calls_end[of _ r ro] status.steps_end[of _ r ro]
  have "leads (\<lambda>a. in_run ro r (ag_session a)) (resumeTurn ro r) (\<lambda>t a. tame ro \<longrightarrow> turn_recorded r t (ag_session a))"
    unfolding resumeTurn_def
    by (auto intro!: leads_ret leads_read leads_and status.keep_bind status.keep_modify status.keep_log ends refused_recorded
        split: sum.split option.split simp: session_info_def)
  then show "leads (\<lambda>a. in_run ro r (ag_session a)) (resumeTurn ro r) (\<lambda>t a. turn_recorded r t (ag_session a))" using assms by simp
  have "leads (\<lambda>a. in_run ro r (ag_session a)) (continueTurn ro r) (\<lambda>t a. tame ro \<longrightarrow> turn_recorded r t (ag_session a))"
    unfolding continueTurn_def Let_def
    by (auto intro!: leads_ret leads_read leads_and status.keep_bind status.keep_modify ends refused_recorded
        split: sum.split option.split prod.split simp: session_info_def)
  then show "leads (\<lambda>a. in_run ro r (ag_session a)) (continueTurn ro r) (\<lambda>t a. turn_recorded r t (ag_session a))" using assms by simp
qed

lemma begun_recorded:
  assumes "begins ro r (ag_session a) m" "tame ro" "session_ok (ag_session a)" "run_state m a = (t, b)"
  shows "turn_recorded r t (ag_session b)"
proof -
  consider (new) input where "m = runTurn ro input" "tu_runID input = r" "run_new r (ag_session a)"
    | (resumed) "m = resumeTurn ro r" "in_run ro r (ag_session a)"
    | (continued) "m = continueTurn ro r" "in_run ro r (ag_session a)"
    using assms(1,3) by (auto simp: begins_def in_run_def)
  then show ?thesis
  proof cases
    case new
    then show ?thesis using leadsD[OF run_recorded[OF assms(2) new(2)]] assms(3,4) by blast
  next
    case resumed
    then show ?thesis using leadsD[OF open_recorded(1)[OF assms(2)] resumed(2)] assms(4) by blast
  next
    case continued
    then show ?thesis using leadsD[OF open_recorded(2)[OF assms(2)] continued(2)] assms(4) by blast
  qed
qed

text \<open>C3: A turn that returns without an error has recorded its end. The status it reports is the status of the run in
  the log, it is completed, limited or waiting for an approval, and the answer of a run that ended is the last text of the
  assistant in the log. This holds for a new run and for the resumption and continuation of an open one, whatever the
  hooks, tools, model and event consumer do, if the summarizer writes no bounds of runs or steps.
\<close>
theorem turn_status_logged:
  assumes "begins ro r (ag_session a) m" "tame ro" "session_ok (ag_session a)" "run_state m a = ((t, None), b)"
  shows "runStatus (ag_session b) r = (tn_status t, True) \<and> tn_status t \<in> {RunCompleted, RunLimited, RunWaitingApproval} \<and> tn_run t = r
    \<and> (tn_status t \<noteq> RunWaitingApproval \<longrightarrow> tn_answer t = lastAssistantText (rev (se_events (ag_session b))) r)"
  using begun_recorded[OF assms] by (simp add: turn_recorded_def)


section \<open>The steps of a run are bounded\<close>

definition step_room :: "'w run_options \<Rightarrow> string \<Rightarrow> int \<Rightarrow> session \<Rightarrow> bool" where
  "step_room ro r i s \<longleftrightarrow> (tame ro \<longrightarrow> session_ok s \<and> int (run_steps r s) \<le> i \<and> int (run_steps r s) \<le> max 0 (ao_maxSteps (ro_agent ro)))"

definition steps_within :: "'w run_options \<Rightarrow> string \<Rightarrow> session \<Rightarrow> bool" where
  "steps_within ro r s \<longleftrightarrow> (tame ro \<longrightarrow> int (run_steps r s) \<le> max 0 (ao_maxSteps (ro_agent ro)))"

lemma step_room_within: "step_room ro r i s \<Longrightarrow> steps_within ro r s"
  by (simp add: step_room_def steps_within_def)

lemma step_room_append:
  assumes "step_room ro r i s" "appendBatch clock s entries = Inr (evs, s')" "list_all (\<lambda>e. loop_entry e \<or> \<not> tame ro) entries"
  shows "step_room ro r i s'"
  unfolding step_room_def
proof (intro impI)
  assume t: "tame ro"
  with assms have s: "session_ok s" "list_all loop_entry entries" by (auto simp: step_room_def)
  have "session_ok s'" by (rule append_committed[OF s(1) assms(2)])
  with append_open(2)[OF s(1) assms(2) s(2)] assms(1) t
  show "session_ok s' \<and> int (run_steps r s') \<le> i \<and> int (run_steps r s') \<le> max 0 (ao_maxSteps (ro_agent ro))"
    by (simp add: step_room_def)
qed

lemma end_within:
  assumes "step_room ro r i s" "appendBatch clock s [(r, Typed d)] = Inr (evs, s')" "kind_of d \<noteq> EvStepStart"
  shows "steps_within ro r s'"
  unfolding steps_within_def
proof
  assume t: "tame ro"
  with assms(1) have s: "session_ok s" by (simp add: step_room_def)
  obtain p where "ae_kind p = kind_of d" "se_events s' = se_events s @ [event_of clock s p]"
    by (rule append_typed_entry[OF s assms(2)])
  with assms(1,3) t show "int (run_steps r s') \<le> max 0 (ao_maxSteps (ro_agent ro))"
    by (simp add: step_room_def run_steps_def event_of_def)
qed

interpretation counted: turn_contract ro r "\<lambda>e. loop_entry e \<or> \<not> tame ro" "step_room ro r" "\<lambda>_. steps_within ro r" for ro r
proof (unfold_locales, goal_cases)
  case 2
  then show ?case by (rule summary_tame)
next
  case 3
  then show ?case by (rule step_room_append)
next
  case (5 i s evs s')
  then show ?case using step_open(1,3)[OF _ 5(3)] by (auto simp: step_room_def)
qed (auto simp: loop_entry_def step_room_def derive_session derive_open intro: step_room_within end_within[unfolded step_room_def])


end
