(* ===== verification/Session_Examples.thy ===== *)
theory Session_Examples
  imports Session_Index
begin

text \<open>
  A small session, created, filled with one run, and reloaded: the facts of \<open>Session_Log\<close> and
  \<open>Session_Index\<close> at a concrete log.
\<close>

section \<open>Witnesses\<close>

definition ex_session_options :: session_options where
  "ex_session_options = \<lparr> so_id = ''s1'', so_profileID = ''p1'', so_principal = ex_principal,
     so_scope = ex_tenant @ [\<lparr> sr_kind = ScopeSession, sr_id = ''s1'' \<rparr>], so_metadata = [] \<rparr>"

definition ex_session :: session where
  "ex_session = (case newSession ex_session_options of Inr s \<Rightarrow> s | Inl _ \<Rightarrow> undefined)"

definition ex_start :: run_start_data where
  "ex_start = \<lparr> sd_profileSnapshotID = [], sd_capabilitySnapshotID = [], sd_compositionRevision = [],
     sd_assignmentRevision = [], sd_composition = None \<rparr>"

definition ex_usage :: run_usage_data where
  "ex_usage = \<lparr> ru_input = 7, ru_output = 3, ru_invocationID = ''model:0'' \<rparr>"

definition ex_entries :: "(string \<times> append_data) list" where
  "ex_entries = [(''r1'', Typed (DRunStart ex_start)), (''r1'', Typed (DUserMessage ''hi'')),
     (''r1'', Typed (DRunUsage ex_usage)), (''r1'', Typed (DRunEnd RunCompleted))]"

definition ex_built :: session where
  "ex_built = (case appendBatch (\<lambda>_. 1) ex_session ex_entries of Inr (_, s) \<Rightarrow> s | Inl _ \<Rightarrow> undefined)"

text \<open>What holds of the session that appending entries to the fresh one gives, checked in one evaluation.\<close>

definition after_entries :: "(string \<times> append_data) list \<Rightarrow> (session \<Rightarrow> bool) \<Rightarrow> bool" where
  "after_entries entries Q = (case appendBatch (\<lambda>_. 1) ex_session entries of Inr (_, s) \<Rightarrow> Q s | Inl _ \<Rightarrow> False)"

lemma after_entriesD:
  assumes "after_entries entries Q" "s = (case appendBatch (\<lambda>_. 1) ex_session entries of Inr (_, s) \<Rightarrow> s | Inl _ \<Rightarrow> undefined)"
  shows "(\<exists>evs. appendBatch (\<lambda>_. 1) ex_session entries = Inr (evs, s)) \<and> Q s"
  using assms by (auto simp: after_entries_def split: sum.splits)

lemma ex_session_new: "is_ok (newSession ex_session_options) \<and> list_all (clean_data \<circ> snd) ex_entries \<and> validateRunID ''r1''"
  by code_simp

lemma ex_session_after: "after_entries ex_entries (\<lambda>s. is_ok (restoreSession ex_session_options (se_events s))
   \<and> run_ends ''r1'' (se_events s) = [RunCompleted]
   \<and> list_all (\<lambda>i. ev_runID (se_events s ! i) = ''r1'' \<and> ev_type (se_events s ! i) = EvRunStart
        \<longrightarrow> run_ends ''r1'' (take i (se_events s)) = []) [0..<length (se_events s)]
   \<and> usage_sum (run_usages ''r1'' (se_events s)) = \<lparr> tu_input = 7, tu_output = 3 \<rparr>)"
  by code_simp

lemmas ex_session_facts = ex_session_new after_entriesD[OF ex_session_after ex_built_def]

lemma ex_session_eq: "newSession ex_session_options = Inr ex_session"
  using ex_session_new by (auto simp: ex_session_def is_ok_iff)

lemma ex_session_ok: "session_ok ex_session"
  using session_ok_new[OF ex_session_eq] .

lemma ex_append_ok: "\<exists>evs. appendBatch (\<lambda>_. 1) ex_session ex_entries = Inr (evs, ex_built)"
  using ex_session_facts(2) by blast

lemma ex_built_built: "built ex_session_options ex_built"
proof -
  obtain evs where "appendBatch (\<lambda>_. 1) ex_session ex_entries = Inr (evs, ex_built)" using ex_append_ok by blast
  then show ?thesis using built.intros(1)[OF ex_session_eq] ex_session_new by (blast intro: built.intros(2))
qed

lemma ex_restored: "\<exists>s. restoreSession ex_session_options (se_events ex_built) = Inr s"
  using ex_session_facts(2) by (auto simp: is_ok_iff)

theorem batch_equals_sequence_witness:
  "appendSeq (\<lambda>_. 1) ex_session ex_entries = Inr ex_built"
  using batch_equals_sequence[OF ex_session_ok, of ex_entries "\<lambda>_. 1" ex_built] ex_append_ok by (simp add: ex_entries_def)


theorem clone_roundtrip_witness:
  "\<exists>s'. cloneSession ex_built = Inr s' \<and> se_events s' = se_events ex_built"
  using clone_roundtrip[OF ex_built_built] by blast



end
