(* ===== verification/Projection_Examples.thy ===== *)
theory Projection_Examples
  imports Compaction Session_Examples
begin

text \<open>
  Concrete conversations: the facts of \<open>Projection\<close> and \<open>Compaction\<close> applied to them, and the two inputs
  on which the code departs from the staged reference.
\<close>

section \<open>Conversations\<close>

definition ex_reply :: "string \<Rightarrow> event_data" where
  "ex_reply t = DAssistantMessage \<lparr> am_text = t, am_toolCall = None, am_toolCalls = [] \<rparr>"

definition ex_turns :: "(string \<times> append_data) list" where
  "ex_turns = map (\<lambda>d. (''r1'', Typed d)) [DUserMessage ''a'', ex_reply ''b'', DUserMessage ''c'', ex_reply ''d'']"

definition ex_window :: recent_turns where
  "ex_window = \<lparr> rt_maxMessages = 2, rt_maxToolResultChars = 0 \<rparr>"

definition contents :: "chat_message list \<Rightarrow> string list" where
  "contents ms = map ch_content ms"

text \<open>What a session built from entries projects, what the compactor makes of it, and what the fused path gives.\<close>

definition compactions :: "(string \<times> append_data) list \<Rightarrow> (string list \<times> string list \<times> string list option) option" where
  "compactions entries =
     (case appendBatch (\<lambda>_. 1) ex_session entries of
        Inl _ \<Rightarrow> None
      | Inr (_, s) \<Rightarrow>
          (case deriveMessages s of
             Inl _ \<Rightarrow> None
           | Inr (ms, s') \<Rightarrow> Some (contents ms, contents (compact ex_window ms), map_option contents (deriveRecentCompacted ex_window s'))))"

definition ex_chat :: session where
  "ex_chat = (case appendBatch (\<lambda>_. 1) ex_session ex_turns of Inr (_, s) \<Rightarrow> s | Inl _ \<Rightarrow> undefined)"

definition ex_ranges :: "summary_range list" where
  "ex_ranges = map (\<lambda>(a, b, q). \<lparr> rg_start = a, rg_end = b, rg_seq = q, rg_data = \<lparr> cs_op = [], cs_start = a, cs_end = b, cs_summary = [] \<rparr> \<rparr>)
     [(4, 5, 9), (0, 2, 6), (1, 3, 8)]"

definition ex_messages :: "chat_message list" where
  "ex_messages = [plain_message RoleUser ''a'' 0, (plain_message RoleTool ''result'' 1)\<lparr> ch_toolCallID := ''t'' \<rparr>, plain_message RoleUser ''c'' 2]"

lemma ex_chat_after: "after_entries ex_turns (\<lambda>s. list_all (clean_data \<circ> snd) ex_turns
   \<and> se_summaryEvents s = 0 \<and> list_all (\<lambda>e. ev_type e \<noteq> EvContextSummary) (se_events s)
   \<and> (case deriveMessages s of Inr (ms, s') \<Rightarrow> ms \<noteq> [] \<and> ch_role (last ms) \<noteq> RoleUser
        \<and> contents (compact ex_window ms) = [''c'', ''d''] | Inl _ \<Rightarrow> False))"
  by code_simp

lemmas ex_chat_facts = after_entriesD[OF ex_chat_after ex_chat_def]

lemma restore_fresh:
  assumes "newSession opts = Inr s"
  shows "restoreSession opts [] = Inr s"
proof -
  have "eventCap s \<ge> 0" using session_ok_new[OF assms] by (simp add: session_ok_def)
  then show ?thesis by (simp add: restoreSession_def assms newSession_fields[OF assms])
qed

lemma ex_chat_projected: "projected ex_session_options ex_chat"
proof -
  have new: "projected ex_session_options ex_session"
    by (rule projected_restore[OF restore_fresh[OF ex_session_eq]])
  obtain evs where "appendBatch (\<lambda>_. 1) ex_session ex_turns = Inr (evs, ex_chat)"
    using ex_chat_facts by blast
  moreover have "summaries_past (se_events ex_chat)"
    using ex_chat_facts by (auto simp: summaries_past_def list_all_iff event_payload_def dest!: decoded_kind)
  ultimately show ?thesis using projected_append[OF new] ex_chat_facts by blast
qed

section \<open>Witnesses\<close>

theorem shadow_search_exact_witness:
  "\<forall>x. isShadowed (mergeRanges (sortRanges ex_ranges)) x \<longleftrightarrow> 0 \<le> x \<and> x \<le> 5"
proof
  fix x :: int
  have "ranges_ok ex_ranges" by (simp add: ranges_ok_def ex_ranges_def max_int64_def)
  from shadow_search_exact[OF this, of x] show "isShadowed (mergeRanges (sortRanges ex_ranges)) x \<longleftrightarrow> 0 \<le> x \<and> x \<le> 5"
    by (auto simp: ex_ranges_def)
qed

theorem projection_coherent_witness:
  "\<exists>out s'. deriveFull (se_events ex_chat) = Inr out \<and> deriveMessages ex_chat = Inr (map cloneChatMessage out, s')"
  by (rule projection_coherent[OF ex_chat_projected])

theorem fused_equals_compact_witness:
  "map_option contents (deriveRecentCompacted ex_window ex_chat) = Some [''c'', ''d'']"
proof -
  obtain ms s' where ms: "deriveMessages ex_chat = Inr (ms, s')" "ch_role (last ms) \<noteq> RoleUser" "contents (compact ex_window ms) = [''c'', ''d'']"
    using ex_chat_facts by (cases "deriveMessages ex_chat") auto
  from fused_equals_compact[OF ex_chat_projected _ ms(1), of ex_window] ms(2,3) ex_chat_facts show ?thesis by simp
qed

theorem compact_subtractive_witness:
  "\<exists>k. list_all2 same_but_tool_text (drop k ex_messages) (compact ex_window ex_messages)
     \<and> (length (compact ex_window ex_messages) \<le> 2 \<or> (\<forall>i. k < i \<and> i < 3 \<longrightarrow> ch_role (ex_messages ! i) \<noteq> RoleUser))"
proof -
  have n: "length ex_messages = 3" "rt_maxMessages ex_window = 2" by (simp_all add: ex_messages_def ex_window_def)
  from compact_subtractive[of ex_messages ex_window] obtain k where
    k: "list_all2 same_but_tool_text (drop k ex_messages) (compact ex_window ex_messages)"
    and fits: "rt_maxMessages ex_window > 0 \<longrightarrow> int (length (compact ex_window ex_messages)) \<le> rt_maxMessages ex_window
          \<or> (\<forall>i. k < i \<and> i < length ex_messages \<longrightarrow> ch_role (ex_messages ! i) \<noteq> RoleUser)"
    by (elim exE conjE) (rule that)
  from fits[unfolded n] have "length (compact ex_window ex_messages) \<le> 2 \<or> (\<forall>i. k < i \<and> i < 3 \<longrightarrow> ch_role (ex_messages ! i) \<noteq> RoleUser)"
    by (elim impE disjE) (simp, simp, rule disjI2, assumption)
  with k show ?thesis by (intro exI[of _ k] conjI)
qed

section \<open>Where the code departs\<close>

text \<open>
  The backward scan does not take the newest event for a turn boundary. A conversation that ends in a
  user message, as it does when the model is asked, keeps three messages on the fused path where the
  compactor with the same window of two keeps the latest turn only.
\<close>
theorem fused_keeps_old_turn:
  "compactions (map (\<lambda>d. (''r1'', Typed d)) [DUserMessage ''a'', ex_reply ''b'', DUserMessage ''c''])
     = Some ([''a'', ''b'', ''c''], [''c''], Some [''a'', ''b'', ''c''])"
  by code_simp

text \<open>
  A summary may name an end that the log has not reached yet (it then also covers itself). Events appended later are shown by the
  cached projection and hidden by the projection of the reloaded session.
\<close>
definition future_summary :: "string list option \<times> string list option" where
  "future_summary =
     (case appendBatch (\<lambda>_. 1) ex_session [(''r1'', Typed (DUserMessage ''a'')),
             (''r1'', Typed (DContextSummary \<lparr> cs_op = ''replace'', cs_start = 0, cs_end = 5, cs_summary = ''s'' \<rparr>))] of
        Inl _ \<Rightarrow> (None, None)
      | Inr (_, s) \<Rightarrow>
          (case deriveMessages s of
             Inl _ \<Rightarrow> (None, None)
           | Inr (_, s1) \<Rightarrow>
               (case appendBatch (\<lambda>_. 1) s1 [(''r1'', Typed (DUserMessage ''b''))] of
                  Inl _ \<Rightarrow> (None, None)
                | Inr (_, s2) \<Rightarrow>
                    ((case deriveMessages s2 of Inr (ms, _) \<Rightarrow> Some (contents ms) | Inl _ \<Rightarrow> None),
                     (case rbind (cloneSession s2) deriveMessages of Inr (ms, _) \<Rightarrow> Some (contents ms) | Inl _ \<Rightarrow> None)))))"

theorem future_summary_diverges: "future_summary = (Some [''b''], Some [])"
  by code_simp

end
