(* ===== verification/Repair_Examples.thy ===== *)
theory Repair_Examples
  imports Repair Projection_Examples
begin

text \<open>A run that stopped between a tool call and its result, and its repair.\<close>

definition ex_call :: "string \<Rightarrow> tool_call" where
  "ex_call i = \<lparr> tc_id = i, tc_name = ''files.read'', tc_args = None, tc_continuation = [] \<rparr>"

definition ex_open_entries :: "(string \<times> append_data) list" where
  "ex_open_entries = map (\<lambda>d. (''r1'', Typed d))
     [DRunStart ex_start, DUserMessage ''hi'', DStepStart 0,
      DAssistantMessage \<lparr> am_text = [], am_toolCall = Some (ex_call ''c1''), am_toolCalls = [ex_call ''c1'', ex_call ''c2''] \<rparr>,
      DToolCall \<lparr> td_callID = ''c1'', td_name = ''files.read'', td_args = None \<rparr>]"

definition ex_open :: session where
  "ex_open = (case appendBatch (\<lambda>_. 1) ex_session ex_open_entries of Inr (_, s) \<Rightarrow> s | Inl _ \<Rightarrow> undefined)"

lemma ex_open_after: "after_entries ex_open_entries (\<lambda>s. list_all (clean_data \<circ> snd) ex_open_entries
   \<and> list_all (\<lambda>e. ev_type e \<noteq> EvContextSummary) (se_events s) \<and> list_all valid_utf8 (log_calls (se_events s))
   \<and> repairScan (se_events s) = \<lparr> rp_runID = ''r1'', rp_stepOpen = True, rp_expected = [''c2''], rp_inFlight = [''c1''], rp_approvals = [] \<rparr>
   \<and> length (se_events s) + 5 < 100 \<and> 100 < eventCap s)"
  by code_simp

lemmas ex_open_facts = after_entriesD[OF ex_open_after ex_open_def]

lemma ex_open_closers: "length (repairInterrupted (se_events ex_open)) = 5"
  using ex_open_facts by (simp add: repairInterrupted_def repairClosers_def)

lemma projected_plain:
  assumes "appendBatch clock ex_session entries = Inr (evs, s)" "list_all (clean_data \<circ> snd) entries"
    "list_all (\<lambda>e. ev_type e \<noteq> EvContextSummary) (se_events s)"
  shows "projected ex_session_options s"
proof -
  have "summaries_past (se_events s)"
    using assms(3) by (auto simp: summaries_past_def list_all_iff event_payload_def dest!: decoded_kind)
  with assms(1,2) show ?thesis
    using projected_append[OF projected_restore[OF restore_fresh[OF ex_session_eq]]] by blast
qed

lemma ex_open_projected: "projected ex_session_options ex_open"
proof -
  obtain evs where "appendBatch (\<lambda>_. 1) ex_session ex_open_entries = Inr (evs, ex_open)"
    using ex_open_facts by blast
  then show ?thesis using projected_plain ex_open_facts by blast
qed


end
