(* ===== verification/Run_Examples.thy ===== *)
theory Run_Examples
  imports Guard_Facts Trust_Gate Model_Stream Repair_Examples
begin

text \<open>
  A small run: an agent whose only tool invokes itself without end, a snapshot call with its proof of
  acceptance, and a model stream. The facts of \<open>Guard_Facts\<close>, \<open>Trust_Gate\<close> and \<open>Model_Stream\<close> at them.
\<close>

section \<open>A tool that calls itself\<close>

definition ex_nested :: "tool_call \<Rightarrow> tool_call" where
  "ex_nested call = call\<lparr> tc_id := tc_id call @ ''x'' \<rparr>"

definition ex_loop :: "tool_context \<Rightarrow> tool_call \<Rightarrow> nat \<Rightarrow> nat script" where
  "ex_loop ctx call w = Nested (ex_nested call) (w + 1) (\<lambda>r w'. Finish (Returns r) w')"

definition ex_tools :: "nat tool_runtime" where
  "ex_tools = \<lparr> rt_schemas = Returns [], rt_authorized = (\<lambda>_. Returns True), rt_manifestFor = None, rt_budgetFor = None,
     rt_execute = Protected ex_loop \<rparr>"

definition ex_options :: "nat agent_options" where
  "ex_options = \<lparr> ao_tools = ex_tools, ao_maxSteps = 3, ao_maxToolCalls = 2, ao_onEvent = None, ao_hooks = None,
     ao_approver = None, ao_limiter = None, ao_journal = None, ao_done = (\<lambda>_. None), ao_clock = (\<lambda>_. 1),
     ao_rx = ex_regexp, ao_unmarshal = (\<lambda>_. None), ao_text = (\<lambda>_. ''fault'') \<rparr>"

definition ex_agent :: "nat agent" where
  "ex_agent = \<lparr> ag_session = ex_open, ag_runID = ''r1'', ag_counts = [], ag_toolCalls = 0, ag_resolutions = [],
     ag_resumeIDs = [], ag_revision = [], ag_world = 0 \<rparr>"

theorem nested_calls_bounded_witness:
  "\<exists>r b. run_state (executeTool 3 ex_options (ex_call ''c1'')) ex_agent = (Some r, b) \<and> ag_toolCalls b \<le> 2"
proof -
  have "calls_left ex_options ex_agent < 3" by (simp add: calls_left_def ex_options_def ex_agent_def)
  from nested_calls_bounded[OF this, of "ex_call ''c1''"] show ?thesis
    by (auto simp: ex_options_def ex_agent_def)
qed

section \<open>A snapshot call\<close>

definition ex_tool_manifest :: capability_manifest where
  "ex_tool_manifest = ex_manifest ''crm.search''"

definition ex_snapshot :: capability_snapshot where
  "ex_snapshot = \<lparr> sn_id = ''snap'', sn_createdAt = 1, sn_scope = ex_tenant,
     sn_capabilities = [\<lparr> sc_manifest = ex_tool_manifest, sc_source = ex_tenant, sc_revision = [] \<rparr>],
     sn_providers = [(''crm.search'', Some \<lparr> pv_tool = Some (\<lambda>_. ExecPanic), pv_revision = None \<rparr>)],
     sn_credentials = None, sn_principal = ex_principal \<rparr>"

definition ex_library :: runtime_library where
  "ex_library = \<lparr> lb_rx = ex_regexp, lb_unmarshal = (\<lambda>_. None), lb_text = (\<lambda>_. ''fault'') \<rparr>"

definition ex_info :: run_info where
  "ex_info = \<lparr> ri_run = ''r1'', ri_session = ''s1'', ri_profile = ''p1'', ri_step = 0, ri_principal = ex_principal \<rparr>"

definition ex_search :: tool_call where
  "ex_search = \<lparr> tc_id = ''c1'', tc_name = ''crm.search'', tc_args = None, tc_continuation = [] \<rparr>"

definition ex_accepted :: tool_invocation where
  "ex_accepted = \<lparr> ti_tenant = ''acme'', ti_subject = ''u1'', ti_session = ''s1'', ti_run = ''r1'', ti_call = ''c1'',
     ti_capability = ''crm.search'', ti_argsDigest = sha256_hex ''{}'', ti_idempotent = False \<rparr>"

definition ex_context :: tool_context where
  "ex_context = \<lparr> tx_invocation = \<lparr> in_session = ''s1'', in_run = ''r1'', in_call = ''c1'' \<rparr>, tx_remaining = 1,
     tx_revision = [], tx_accepted = Some (mintAcceptedInvocation ex_accepted ex_tenant ex_principal) \<rparr>"

definition ex_answer :: capability_result where
  "ex_answer = \<lparr> cr_content = ''found'', cr_ok = True, cr_metadata = None \<rparr>"

lemma ex_snapshot_facts:
  "validateToolCall ex_search \<and> manifestInternal ex_snapshot ''crm.search'' \<noteq> None
   \<and> (case manifestInternal ex_snapshot ''crm.search'' of None \<Rightarrow> False
      | Some m \<Rightarrow> cm_requiredCredentials m = [] \<and> checkOutput ex_library m ''crm.search'' (ex_answer, None) = (ex_answer, None))"
  by code_simp

lemma ex_snapshot_end:
  "Returns (ex_answer, None) \<in> script_ends (executeProtected ex_library ex_snapshot (\<lambda>_ _ w. Finish (Returns (ex_answer, None)) w)
     True ex_context ex_search (0 :: nat))"
proof -
  have c: "tc_name ex_search = ''crm.search''" "tc_args ex_search = None" by (simp_all add: ex_search_def)
  have p: "map_of (sn_providers ex_snapshot) ''crm.search'' = Some (Some \<lparr> pv_tool = Some (\<lambda>_. ExecPanic), pv_revision = None \<rparr>)"
    by (simp add: ex_snapshot_def)
  show ?thesis
    using ex_snapshot_facts
    by (auto simp: executeProtected_def Let_def c p resolveCallCredentials_def cloneCallArgs_def providerOutcome_def split: option.splits)
qed

theorem tool_output_typed_witness:
  "\<exists>m. manifestInternal ex_snapshot (tc_name ex_search) = Some m \<and> output_conforms ex_library m ex_answer"
  using tool_output_typed[OF ex_snapshot_end] by (simp add: ex_answer_def)

lemma ex_accepted_valid: "validateToolInvocation ex_accepted"
proof -
  have h: "hex_digits (sha256_hex m)" for m
    using sha256_hex_lower[of m] by (auto simp: hex_digits_def list_all_iff is_lower_hex_def)
  have "validateSessionID ''s1'' \<and> validateRunID ''r1'' \<and> validateToolCallID ''c1'' \<and> validateNamespacedID ''crm.search''
     \<and> identity_part_ok ''acme'' \<and> identity_part_ok ''u1''" by code_simp
  then show ?thesis by (simp add: validateToolInvocation_def ex_accepted_def h)
qed


section \<open>A model stream\<close>

definition ex_chunk :: stream_chunk where
  "ex_chunk = \<lparr> sk_kind = StreamKindAssistant, sk_text = ''hello'', sk_toolCall = None, sk_toolCalls = [],
     sk_usage = Some \<lparr> tu_input = 7, tu_output = 3 \<rparr>, sk_finish = [] \<rparr>"

definition ex_stop :: stream_chunk where
  "ex_stop = \<lparr> sk_kind = StreamKindFinish, sk_text = [], sk_toolCall = None, sk_toolCalls = [], sk_usage = None, sk_finish = FinishStop \<rparr>"

definition ex_stream :: "nat stream" where
  "ex_stream = StreamEmit ex_chunk 1 (\<lambda>_ w. StreamEmit ex_stop w (\<lambda>_ w'. StreamReturn (Returns None) w'))"

definition ex_stream_result :: stream_result where
  "ex_stream_result = \<lparr> mr_usageReported = True, mr_text = ''hello'', mr_calls = [], mr_usage = \<lparr> tu_input = 7, tu_output = 3 \<rparr>,
     mr_finish = FinishStop \<rparr>"

lemma ex_stream_run: "\<exists>b. run_state (consumeModelStream ex_options ex_stream None) ex_agent = ((ex_stream_result, None), b)"
  by (simp add: consumeModelStream_def ex_stream_def ex_chunk_def ex_stop_def emitChunk_def acceptUsage_def acceptAssistant_def
      acceptFinish_def initialStream_def finishStream_def streamFault_def partial_result_def ex_stream_result_def ex_options_def
      StreamKindAssistant_def StreamKindFinish_def FinishStop_def FinishToolCalls_def MaxReportedTokensPerCall_def maxModelTextBytes_def Let_def)


end
