(* ===== verification/Turn_Examples.thy ===== *)
theory Turn_Examples
  imports Turn_Facts Run_Examples
begin

text \<open>
  Turns on concrete inputs: a model that answers at once, a model that fails, and a snapshot whose tools are
  disclosed progressively. The facts of \<open>Turn_Facts\<close>, \<open>Model_Call\<close> and \<open>Disclose\<close> at them.
\<close>

section \<open>A turn that completes and a turn that fails\<close>

definition ex_run_options :: "(nat \<Rightarrow> nat stream) \<Rightarrow> nat run_options" where
  "ex_run_options llm = \<lparr> ro_agent = ex_options, ro_llm = (\<lambda>_. llm), ro_limits = None, ro_system = [], ro_provider = ''acme'',
     ro_model = ''small'', ro_deadline = None, ro_profileSnapshotID = [], ro_capabilitySnapshotID = [], ro_composition = None,
     ro_gate = Some (\<lambda>_ w. (Returns None, w + 1)), ro_assembler = None, ro_streamChunks = False, ro_compactor = None, ro_summarizer = None, ro_fast = None,
     ro_disclosed = None, ro_decode = (\<lambda>_. None), ro_now = (\<lambda>_. 1), ro_random = (\<lambda>w. (Inr [], w)) \<rparr>"

definition ex_input :: turn_input where
  "ex_input = \<lparr> tu_runID = ''r1'', tu_text = ''hi'', tu_override = 0, tu_metadata = [] \<rparr>"

definition ex_idle :: "nat agent" where
  "ex_idle = ex_agent\<lparr> ag_session := ex_session \<rparr>"

definition after_turn :: "(nat \<Rightarrow> nat stream) \<Rightarrow> (turn \<Rightarrow> nat agent \<Rightarrow> bool) \<Rightarrow> bool" where
  "after_turn llm Q = (case run_state (runTurn (ex_run_options llm) ex_input) ex_idle of (t, b) \<Rightarrow> Q t b)"

lemma ex_completes: "after_turn (\<lambda>_. ex_stream) (\<lambda>t b. t = (\<lparr> tn_run = ''r1'', tn_status = RunCompleted, tn_answer = ''hello'' \<rparr>, None))"
  by code_simp

definition ex_failure :: "nat stream" where
  "ex_failure = StreamReturn (Returns (Some (plain_error ''overloaded''))) 1"

lemma ex_fails: "after_turn (\<lambda>_. ex_failure) (\<lambda>t b. tn_run (fst t) = ''r1'' \<and> snd t = Some (plain_error ''overloaded'')
    \<and> int (length (se_events (ag_session b))) < eventCap (ag_session b))"
  by code_simp

lemma ex_begins: "begins (ex_run_options llm) ''r1'' (ag_session ex_idle) (runTurn (ex_run_options llm) ex_input)"
  "tame (ex_run_options llm)" "session_ok (ag_session ex_idle)" "run_new ''r1'' (ag_session ex_idle)" "tu_runID ex_input = ''r1''"
proof -
  show new: "run_new ''r1'' (ag_session ex_idle)"
    using newSession_fields[OF ex_session_eq] by (simp add: ex_idle_def ex_agent_def run_new_def)
  then show "begins (ex_run_options llm) ''r1'' (ag_session ex_idle) (runTurn (ex_run_options llm) ex_input)"
    by (auto simp: begins_def ex_input_def)
qed (simp_all add: tame_def ex_run_options_def ex_idle_def ex_agent_def ex_session_ok ex_input_def)

theorem turn_status_logged_witness:
  "\<exists>b. run_state (runTurn (ex_run_options (\<lambda>_. ex_stream)) ex_input) ex_idle
      = ((\<lparr> tn_run = ''r1'', tn_status = RunCompleted, tn_answer = ''hello'' \<rparr>, None), b)
    \<and> runStatus (ag_session b) ''r1'' = (RunCompleted, True)"
proof -
  obtain b where b: "run_state (runTurn (ex_run_options (\<lambda>_. ex_stream)) ex_input) ex_idle
      = ((\<lparr> tn_run = ''r1'', tn_status = RunCompleted, tn_answer = ''hello'' \<rparr>, None), b)"
    using ex_completes by (auto simp: after_turn_def split: prod.splits)
  from turn_status_logged[OF ex_begins(1-3) b] b show ?thesis by simp
qed



lemma ex_open_ok: "session_ok ex_open"
  using projected_ok[OF ex_open_projected] by (simp add: log_valid_def)

theorem turn_extends_log_witness:
  "\<exists>t b. run_state (runTurn (ex_run_options (\<lambda>_. ex_stream)) ex_input) ex_agent = (t, b)
    \<and> session_ok (ag_session b) \<and> prefix (se_events ex_open) (se_events (ag_session b))"
proof -
  obtain t b where b: "run_state (runTurn (ex_run_options (\<lambda>_. ex_stream)) ex_input) ex_agent = (t, b)" by (rule prod.exhaust)
  have "entry_point (ex_run_options (\<lambda>_. ex_stream)) (runTurn (ex_run_options (\<lambda>_. ex_stream)) ex_input)"
    by (auto simp: entry_point_def)
  from turn_extends_log[OF this _ b] b show ?thesis by (simp add: ex_agent_def ex_open_ok)
qed

section \<open>A model call\<close>

lemma ex_prepared: "(case run_state (prepareModelCall (ex_run_options (\<lambda>_. ex_stream)) ex_info 0 []) ex_idle of (Inr g, _) \<Rightarrow> True | _ \<Rightarrow> False)"
  by code_simp

theorem model_call_proof_witness:
  "\<exists>g b. run_state (prepareModelCall (ex_run_options (\<lambda>_. ex_stream)) ex_info 0 []) ex_idle = (Inr g, b)
    \<and> requireAcceptedModelCall g = None \<and> go_accepted g = Some (go_call g)"
proof -
  obtain g b where g: "run_state (prepareModelCall (ex_run_options (\<lambda>_. ex_stream)) ex_info 0 []) ex_idle = (Inr g, b)"
    using ex_prepared by (auto split: prod.splits sum.splits)
  have "clonePrincipal (ri_principal ex_info) = ri_principal ex_info" by code_simp
  from model_call_proof[OF g this] g show ?thesis by (simp add: ex_run_options_def)
qed

section \<open>A disclosed snapshot\<close>

theorem disclosed_schemas_current_witness:
  "\<exists>d. discloseToolRuntime id ex_snapshot = Some d
    \<and> (\<exists>selected. schemasForMessages (\<lambda>_. None) d [] = disclosedSchemas d @ selected \<and> length selected \<le> discloseActiveLimit)"
proof -
  have "discloseToolRuntime id ex_snapshot \<noteq> None" by code_simp
  then obtain d where d: "discloseToolRuntime id ex_snapshot = Some d" by blast
  from disclosed_schemas_current[OF this, of "\<lambda>_. None" "[]"] d show ?thesis by blast
qed

end
