(* ===== verification/Spec2Isabelle.thy ===== *)
theory Spec2Isabelle
  imports Profile_Facts Rate_Limit Turn_Examples
begin

text \<open>
  Verification of the kernel of auto-agent (\<open>src/pkg/core\<close>), a Go library that runs tool-using
  language-model agents for many tenants.
\<close>

end
